(* ===== verification/Prelude.thy ===== *)
theory Prelude
  imports Main "HOL-Library.Word" "HOL-Library.Multiset"
begin

text \<open>
  Shared vocabulary of the development: the machine types of the C++ sources, the result types
  used for fallible code, and a model of \<open>std::map\<close> (an association list kept in strictly
  increasing key order, which is also its iteration order) with the laws its clients rely on,
  stated as the locale \<open>ordered_map\<close> and interpreted on that model.
\<close>

unbundle bit_operations_syntax

section \<open>Machine types and fact collections\<close>

type_synonym u8 = "8 word"
type_synonym u16 = "16 word"
type_synonym u32 = "32 word"
type_synonym u64 = "64 word"
type_synonym bytes = "u8 list"

text \<open>\<open>codec\<close>: a reader run on the bytes its writer produced; \<open>frame\<close>: fields an operation
  leaves alone; \<open>maps\<close>: look-up after update in a \<open>std_map\<close>.\<close>

named_theorems codec
named_theorems frame
named_theorems maps

section \<open>Characters as bytes\<close>

text \<open>A \<open>std::string\<close> is a sequence of \<open>char\<close>; the codecs copy it byte by byte.\<close>

definition byte_of_char :: "char \<Rightarrow> u8" where
  "byte_of_char c = of_nat (of_char c)"

definition char_of_byte :: "u8 \<Rightarrow> char" where
  "char_of_byte b = char_of (unat b)"

lemma of_char_less_256 [simp]: "(of_char c :: nat) < 256"
  by (metis char_of_take_bit_eq of_char_of of_char_mod_256 mod_less_divisor zero_less_numeral)

lemma char_of_byte_of_char [simp, codec]: "char_of_byte (byte_of_char c) = c"
  by (simp add: char_of_byte_def byte_of_char_def unat_of_nat)

lemma byte_of_char_of_byte [simp]: "byte_of_char (char_of_byte b) = b"
proof -
  have "unat b < 256" using unsigned_less[of b, where ?'a = nat] by simp
  then show ?thesis by (simp add: char_of_byte_def byte_of_char_def)
qed

lemma map_char_of_byte_of_char [simp, codec]: "map char_of_byte (map byte_of_char s) = s"
  by (induction s) simp_all

section \<open>Lists\<close>

lemma take_length_append [simp]: "length xs = n \<Longrightarrow> take n (xs @ ys) = xs"
  by simp

lemma drop_length_append [simp]: "length xs = n \<Longrightarrow> drop n (xs @ ys) = ys"
  by simp

lemma sum_list_mset_cong:
  "mset xs = mset ys \<Longrightarrow> sum_list (map f xs) = sum_list (map f ys :: 'b::comm_monoid_add list)"
  by (metis mset_map sum_mset_sum_list)

section \<open>Big-endian digits of a word\<close>

text \<open>Shifting digits of \<open>k\<close> bits in from the right, most significant first, rebuilds the word.\<close>

lemma fold_digits:
  fixes v acc :: "'a::len word"
  shows "fold (\<lambda>d a. push_bit k a OR d) (map (\<lambda>i. take_bit k (drop_bit (k * i) v)) (rev [0..<n])) acc
    = push_bit (k * n) acc OR take_bit (k * n) v"
proof (induction n arbitrary: acc)
  case (Suc n)
  have "push_bit (k * n) (push_bit k acc OR take_bit k (drop_bit (k * n) v)) OR take_bit (k * n) v
      = push_bit (k * Suc n) acc OR take_bit (k * Suc n) v"
    by (rule bit_eqI) (auto simp: bit_simps add.commute)
  with Suc show ?case by simp
qed (simp add: bit_eq_iff bit_simps)

text \<open>The loop \<open>for (i = n - 1; i >= 0; --i) u8(v >> (i * 8))\<close> and its inverse.\<close>

definition be_bytes :: "nat \<Rightarrow> 'a::len word \<Rightarrow> bytes" where
  "be_bytes n v = map (\<lambda>i. ucast (drop_bit (8 * i) v)) (rev [0..<n])"

definition be_val :: "bytes \<Rightarrow> 'a::len word" where
  "be_val bs = fold (\<lambda>b a. push_bit 8 a OR ucast b) bs 0"

lemma length_be_bytes [simp]: "length (be_bytes n v) = n"
  by (simp add: be_bytes_def)

lemma ucast_ucast_u8: "(ucast (ucast x :: u8) :: 'a::len word) = take_bit 8 (x :: 'a word)"
  by (rule bit_eqI) (auto simp: bit_simps)

lemma be_val_be_bytes: "LENGTH('a) = 8 * n \<Longrightarrow> be_val (be_bytes n v) = (v :: 'a::len word)"
proof -
  assume len: "LENGTH('a) = 8 * n"
  have "be_val (be_bytes n v)
      = fold (\<lambda>d a. push_bit 8 a OR d) (map (\<lambda>i. take_bit 8 (drop_bit (8 * i) v)) (rev [0..<n])) 0"
    by (simp add: be_val_def be_bytes_def fold_map comp_def ucast_ucast_u8)
  also have "\<dots> = take_bit (8 * n) v" by (simp only: fold_digits push_bit_of_0 or.left_neutral)
  finally show ?thesis by (simp flip: len)
qed

lemma be_val_be_bytes_u64 [simp, codec]: "be_val (be_bytes 8 v) = (v :: u64)"
  by (rule be_val_be_bytes) simp

section \<open>\<open>std::map\<close>\<close>

type_synonym ('k, 'v) std_map = "('k \<times> 'v) list"

definition map_find :: "'k \<Rightarrow> ('k, 'v) std_map \<Rightarrow> 'v option" where
  "map_find k m = map_of m k"

fun map_set :: "'k::linorder \<Rightarrow> 'v \<Rightarrow> ('k, 'v) std_map \<Rightarrow> ('k, 'v) std_map" where
  "map_set k v [] = [(k, v)]"
| "map_set k v ((k', v') # m) =
     (if k < k' then (k, v) # (k', v') # m
      else if k = k' then (k, v) # m
      else (k', v') # map_set k v m)"

fun map_erase :: "'k \<Rightarrow> ('k, 'v) std_map \<Rightarrow> ('k, 'v) std_map" where
  "map_erase k [] = []"
| "map_erase k ((k', v') # m) = (if k = k' then m else (k', v') # map_erase k m)"

text \<open>\<open>emplace\<close> leaves an entry that is already there.\<close>

definition map_emplace :: "'k::linorder \<Rightarrow> 'v \<Rightarrow> ('k, 'v) std_map \<Rightarrow> ('k, 'v) std_map" where
  "map_emplace k v m = (case map_find k m of None \<Rightarrow> map_set k v m | Some _ \<Rightarrow> m)"

text \<open>A range-for over the map that updates each mapped value in place.\<close>

definition map_update_all :: "('v \<Rightarrow> 'v) \<Rightarrow> ('k, 'v) std_map \<Rightarrow> ('k, 'v) std_map" where
  "map_update_all f m = map (\<lambda>(k, v). (k, f v)) m"

text \<open>An update through \<open>it->second\<close>: nothing happens when the key is absent.\<close>

definition map_modify :: "'k::linorder \<Rightarrow> ('v \<Rightarrow> 'v) \<Rightarrow> ('k, 'v) std_map \<Rightarrow> ('k, 'v) std_map" where
  "map_modify k f m = (case map_find k m of None \<Rightarrow> m | Some v \<Rightarrow> map_set k (f v) m)"

definition map_keys :: "('k, 'v) std_map \<Rightarrow> 'k list" where
  "map_keys m = map fst m"

definition map_wf :: "('k::linorder, 'v) std_map \<Rightarrow> bool" where
  "map_wf m \<longleftrightarrow> sorted_wrt (<) (map_keys m)"

lemma map_find_Nil [simp, maps]: "map_find k [] = None"
  by (simp add: map_find_def)

lemma map_find_Cons [simp]: "map_find k ((k', v) # m) = (if k = k' then Some v else map_find k m)"
  by (auto simp: map_find_def)

lemma map_find_set [simp, maps]:
  "map_find k (map_set k' v m) = (if k = k' then Some v else map_find k m)"
  by (induction k' v m rule: map_set.induct) auto

lemma map_find_notin: "k \<notin> set (map fst m) \<Longrightarrow> map_find k m = None"
  by (simp add: map_find_def map_of_eq_None_iff)

lemma map_find_None_iff: "map_find k m = None \<longleftrightarrow> k \<notin> fst ` set m"
  by (simp add: map_find_def map_of_eq_None_iff)

lemma keys_eq_find: "fst ` set m = {k. map_find k m \<noteq> None}"
  by (simp add: map_find_None_iff set_eq_iff)

lemma map_find_SomeD: "map_find k m = Some v \<Longrightarrow> (k, v) \<in> set m"
  by (simp add: map_find_def map_of_SomeD)

lemma keys_map_set: "fst ` set (map_set k v m) = insert k (fst ` set m)"
  by (induction k v m rule: map_set.induct) auto

lemma map_wf_Nil [simp]: "map_wf []"
  by (simp add: map_wf_def map_keys_def)

lemma map_wf_Cons [simp]: "map_wf ((k, v) # m) \<longleftrightarrow> (\<forall>k' \<in> fst ` set m. k < k') \<and> map_wf m"
  by (auto simp: map_wf_def map_keys_def)

lemma map_wf_set [simp, intro]: "map_wf m \<Longrightarrow> map_wf (map_set k v m)"
  by (induction k v m rule: map_set.induct) (auto simp: keys_map_set)

lemma keys_map_erase: "map_wf m \<Longrightarrow> fst ` set (map_erase k m) = fst ` set m - {k}"
  by (induction k m rule: map_erase.induct) auto

lemma map_wf_erase [simp, intro]: "map_wf m \<Longrightarrow> map_wf (map_erase k m)"
  by (induction k m rule: map_erase.induct) (auto simp: keys_map_erase)

lemma map_find_erase [simp, maps]:
  "map_wf m \<Longrightarrow> map_find k (map_erase k' m) = (if k = k' then None else map_find k m)"
proof (induction k' m rule: map_erase.induct)
  case (2 k' q v m)
  then have "map_find q m = None" by (auto simp: map_find_None_iff)
  with 2 show ?case by auto
qed simp

lemma map_wf_emplace [simp, intro]: "map_wf m \<Longrightarrow> map_wf (map_emplace k v m)"
  by (auto simp: map_emplace_def split: option.splits)

lemma keys_map_update_all [simp]: "fst ` set (map_update_all f m) = fst ` set m"
  by (force simp: map_update_all_def)

lemma map_wf_update_all [simp]: "map_wf (map_update_all f m) \<longleftrightarrow> map_wf m"
  by (simp add: map_wf_def map_keys_def map_update_all_def comp_def case_prod_beta)

lemma map_find_update_all [simp, maps]:
  "map_find k (map_update_all f m) = map_option f (map_find k m)"
  by (induction m) (auto simp: map_update_all_def)

lemma map_find_modify [simp, maps]:
  "map_find k (map_modify k' f m)
     = (if k = k' then map_option f (map_find k m) else map_find k m)"
  by (auto simp: map_modify_def split: option.splits)

lemma map_wf_modify [simp, intro]: "map_wf m \<Longrightarrow> map_wf (map_modify k f m)"
  by (auto simp: map_modify_def split: option.splits)

lemma map_ext:
  assumes "map_wf m" "map_wf m'" "\<And>k. map_find k m = map_find k m'"
  shows "m = m'"
  using assms
proof (induction m arbitrary: m')
  case Nil
  show ?case
  proof (rule ccontr)
    assume "[] \<noteq> m'"
    then obtain k v n where "m' = (k, v) # n" by (cases m') auto
    with Nil.prems(3)[of k] show False by simp
  qed
next
  case (Cons kv m)
  obtain k v where kv: "kv = (k, v)" by (cases kv)
  show ?case
  proof (cases m')
    case Nil
    with Cons.prems(3)[of k] show ?thesis by (simp add: kv)
  next
    case (Cons kv' n)
    obtain k' v' where kv': "kv' = (k', v')" by (cases kv')
    have keys: "fst ` set (kv # m) = fst ` set m'"
      unfolding keys_eq_find using Cons.prems(3) by simp
    have "k' \<in> fst ` set (kv # m)" unfolding keys by (simp add: Cons kv')
    then have "k \<le> k'" using Cons.prems(1) by (auto simp: kv)
    moreover have "k \<in> fst ` set m'" unfolding keys[symmetric] by (simp add: kv)
    then have "k' \<le> k" using Cons.prems(2) by (auto simp: Cons kv')
    ultimately have k: "k = k'" by simp
    have v: "v = v'" using Cons.prems(3)[of k] by (simp add: Cons kv kv' k)
    have "map_find q m = map_find q n" for q
    proof (cases "q = k")
      case True
      have "map_find k m = None" "map_find k n = None"
        using Cons.prems(1,2) by (auto simp: Cons kv kv' k map_find_None_iff)
      with True show ?thesis by simp
    next
      case False
      then show ?thesis using Cons.prems(3)[of q] by (simp add: Cons kv kv' k)
    qed
    then have "m = n" using Cons.prems(1,2) by (intro Cons.IH) (auto simp: Cons kv kv')
    then show ?thesis by (simp add: Cons kv kv' k v)
  qed
qed

lemma mset_map_set_fresh:
  "map_find k m = None \<Longrightarrow> mset (map_set k v m) = add_mset (k, v) (mset m)"
  by (induction k v m rule: map_set.induct) (auto split: if_splits)

lemma mset_map_erase:
  "map_find k m = Some v \<Longrightarrow> mset m = add_mset (k, v) (mset (map_erase k m))"
  by (induction k m rule: map_erase.induct) (auto split: if_splits)

text \<open>Inserting the entries of a map in its own order rebuilds it.\<close>

lemma map_set_last: "\<forall>k' \<in> fst ` set m. k' < k \<Longrightarrow> map_set k v m = m @ [(k, v)]"
  by (induction k v m rule: map_set.induct) auto

lemma map_wf_append:
  "map_wf (m @ n) \<longleftrightarrow> map_wf m \<and> map_wf n \<and> (\<forall>j \<in> fst ` set m. \<forall>k \<in> fst ` set n. j < k)"
  by (auto simp: map_wf_def map_keys_def sorted_wrt_append)

lemma fold_map_set_append: "map_wf (acc @ m) \<Longrightarrow> fold (\<lambda>(k, v). map_set k v) m acc = acc @ m"
proof (induction m arbitrary: acc)
  case (Cons kv m)
  obtain k v where kv: "kv = (k, v)" by (cases kv)
  have "map_set k v acc = acc @ [kv]" using Cons.prems by (auto simp: kv map_wf_append intro!: map_set_last)
  then show ?case using Cons by (simp add: kv)
qed simp

lemma map_wf_distinct: "map_wf m \<Longrightarrow> distinct (map fst m)"
  by (simp add: map_wf_def map_keys_def strict_sorted_iff)

section \<open>The interface clients of \<open>std::map\<close> use\<close>

text \<open>
  What \<open>BudgetTracker\<close>, \<open>WarmthFabric\<close> and \<open>Coordinator\<close> rely on: look-up after
  insertion and removal, and that a map is determined by its look-ups. The client lemmas say that
  taking an entry out again restores the map, and that updates at different keys commute.
\<close>

locale ordered_map =
  fixes find :: "'k \<Rightarrow> 'm \<Rightarrow> 'v option"
    and put :: "'k \<Rightarrow> 'v \<Rightarrow> 'm \<Rightarrow> 'm"
    and del :: "'k \<Rightarrow> 'm \<Rightarrow> 'm"
    and wf :: "'m \<Rightarrow> bool"
  assumes find_put: "wf m \<Longrightarrow> find k (put k' v m) = (if k = k' then Some v else find k m)"
    and find_del: "wf m \<Longrightarrow> find k (del k' m) = (if k = k' then None else find k m)"
    and wf_put: "wf m \<Longrightarrow> wf (put k v m)"
    and wf_del: "wf m \<Longrightarrow> wf (del k m)"
    and ext: "wf m \<Longrightarrow> wf m' \<Longrightarrow> (\<And>k. find k m = find k m') \<Longrightarrow> m = m'"
begin

lemma del_put_fresh: "wf m \<Longrightarrow> find k m = None \<Longrightarrow> del k (put k v m) = m"
  by (rule ext) (auto simp: find_put find_del wf_put wf_del)

lemma put_commute: "wf m \<Longrightarrow> k \<noteq> k' \<Longrightarrow> put k v (put k' v' m) = put k' v' (put k v m)"
  by (rule ext) (auto simp: find_put wf_put)

lemma put_put: "wf m \<Longrightarrow> put k v (put k v' m) = put k v m"
  by (rule ext) (auto simp: find_put wf_put)

lemma del_commute: "wf m \<Longrightarrow> del k (del k' m) = del k' (del k m)"
  by (rule ext) (auto simp: find_del wf_del)

lemma del_put_other: "wf m \<Longrightarrow> k \<noteq> k' \<Longrightarrow> del k (put k' v m) = put k' v (del k m)"
  by (rule ext) (auto simp: find_put find_del wf_put wf_del)

lemma del_absent: "wf m \<Longrightarrow> find k m = None \<Longrightarrow> del k m = m"
  by (rule ext) (auto simp: find_del wf_del)

end

interpretation smap: ordered_map map_find map_set map_erase map_wf
  by unfold_locales (auto intro: map_ext)

section \<open>\<open>std::sort\<close>\<close>

text \<open>
  Sorting by a comparator. The library's algorithm is unspecified, so the locale states what makes
  its result unique: on the elements the client calls good, the comparator is a strict order that
  distinguishes elements with different identities.
\<close>

fun insert_by :: "('a \<Rightarrow> 'a \<Rightarrow> bool) \<Rightarrow> 'a \<Rightarrow> 'a list \<Rightarrow> 'a list" where
  "insert_by lt x [] = [x]"
| "insert_by lt x (y # ys) = (if lt y x then y # insert_by lt x ys else x # y # ys)"

definition sort_by :: "('a \<Rightarrow> 'a \<Rightarrow> bool) \<Rightarrow> 'a list \<Rightarrow> 'a list" where
  "sort_by lt xs = foldr (insert_by lt) xs []"

lemma mset_insert_by [simp]: "mset (insert_by lt x ys) = add_mset x (mset ys)"
  by (induction ys) auto

lemma mset_sort_by [simp]: "mset (sort_by lt xs) = mset xs"
  by (induction xs) (simp_all add: sort_by_def)

lemma set_sort_by [simp]: "set (sort_by lt xs) = set xs"
  by (metis mset_sort_by set_mset_mset)

lemma length_sort_by [simp]: "length (sort_by lt xs) = length xs"
  by (metis mset_sort_by size_mset)

locale tie_broken_order =
  fixes lt :: "'a \<Rightarrow> 'a \<Rightarrow> bool" and ident :: "'a \<Rightarrow> 'i" and good :: "'a \<Rightarrow> bool"
  assumes irrefl: "\<not> lt a a"
    and trans: "good a \<Longrightarrow> good b \<Longrightarrow> good c \<Longrightarrow> lt a b \<Longrightarrow> lt b c \<Longrightarrow> lt a c"
    and total: "good a \<Longrightarrow> good b \<Longrightarrow> ident a \<noteq> ident b \<Longrightarrow> lt a b \<or> lt b a"
begin

lemma sorted_insert_by:
  "sorted_wrt lt ys \<Longrightarrow> \<forall>y \<in> insert x (set ys). good y \<Longrightarrow> ident x \<notin> ident ` set ys \<Longrightarrow> sorted_wrt lt (insert_by lt x ys)"
proof (induction ys)
  case (Cons y ys)
  have set_ins: "set (insert_by lt x ys) = insert x (set ys)" by (metis mset_insert_by set_mset_add_mset_insert set_mset_mset)
  show ?case
  proof (cases "lt y x")
    case True
    then show ?thesis using Cons by (auto simp: set_ins)
  next
    case False
    then have xy: "lt x y" using Cons.prems total[of x y] by auto
    then have "lt x z" if "z \<in> set ys" for z using that Cons.prems trans[of x y z] by auto
    with xy False show ?thesis using Cons.prems by auto
  qed
qed simp

lemma sorted_sort_by:
  "\<forall>x \<in> set xs. good x \<Longrightarrow> distinct (map ident xs) \<Longrightarrow> sorted_wrt lt (sort_by lt xs)"
proof (induction xs)
  case (Cons x xs)
  have "ident ` set (foldr (insert_by lt) xs []) = ident ` set xs" "set (foldr (insert_by lt) xs []) = set xs"
    using set_sort_by[of lt xs] by (simp_all add: sort_by_def)
  with Cons show ?case by (simp add: sort_by_def sorted_insert_by)
qed (simp add: sort_by_def)

lemma sorted_unique:
  "sorted_wrt lt xs \<Longrightarrow> sorted_wrt lt ys \<Longrightarrow> mset xs = mset ys \<Longrightarrow> \<forall>x \<in> set xs. good x \<Longrightarrow> xs = ys"
proof (induction xs arbitrary: ys)
  case (Cons x xs)
  then obtain y ys' where ys: "ys = y # ys'" by (cases ys) auto
  have sets: "set (x # xs) = set ys" using Cons.prems(3) by (metis set_mset_mset)
  have "x = y"
  proof (rule ccontr)
    assume "x \<noteq> y"
    with sets ys have "y \<in> set xs" "x \<in> set ys'" by auto
    then have "lt x y" "lt y x" using Cons.prems(1,2) ys by auto
    moreover have "good x" "good y" using Cons.prems(4) \<open>y \<in> set xs\<close> by auto
    ultimately show False using trans irrefl by blast
  qed
  then show ?case using Cons ys by simp
qed simp

text \<open>Whatever algorithm sorts, it returns this list.\<close>

lemma sort_by_unique:
  assumes "\<forall>x \<in> set xs. good x" "distinct (map ident xs)" "mset ys = mset xs" "sorted_wrt lt ys"
  shows "ys = sort_by lt xs"
  using assms sorted_sort_by[OF assms(1,2)] by (intro sorted_unique) (auto dest: mset_eq_setD)

end

end
