(* ===== verification/Sha256.thy ===== *)
theory Sha256
  imports Prelude
begin

text \<open>
  The incremental SHA-256 of \<open>include/warmth/detail/hash.hpp\<close>: a 64-byte buffer filled by
  \<open>update\<close> and compressed when full, padding written through \<open>update\<close> by \<open>finish\<close>. The main
  facts: \<open>update\<close> does not depend on how the input is cut into calls, and \<open>digest\<close> is the
  one-shot digest that pads the whole message first.
\<close>

section \<open>Compression\<close>

text \<open>The round constants of the array \<open>K\<close> in \<open>hash.hpp\<close>, written in decimal, five to a row as there.\<close>

definition sha_K :: "u32 list" where
  "sha_K = [
   1116352408, 1899447441, 3049323471, 3921009573, 961987163,
   1508970993, 2453635748, 2870763221, 3624381080, 310598401,
   607225278, 1426881987, 1925078388, 2162078206, 2614888103,
   3248222580, 3835390401, 4022224774, 264347078, 604807628,
   770255983, 1249150122, 1555081692, 1996064986, 2554220882,
   2821834349, 2952996808, 3210313671, 3336571891, 3584528711,
   113926993, 338241895, 666307205, 773529912, 1294757372,
   1396182291, 1695183700, 1986661051, 2177026350, 2456956037,
   2730485921, 2820302411, 3259730800, 3345764771, 3516065817,
   3600352804, 4094571909, 275423344, 430227734, 506948616,
   659060556, 883997877, 958139571, 1322822218, 1537002063,
   1747873779, 1955562222, 2024104815, 2227730452, 2361852424,
   2428436474, 2756734187, 3204031479, 3329325298]"

definition sha_init :: "u32 list" where
  "sha_init = [0x6a09e667, 0xbb67ae85, 0x3c6ef372, 0xa54ff53a, 0x510e527f, 0x9b05688c, 0x1f83d9ab, 0x5be0cd19]"

definition rotr :: "u32 \<Rightarrow> nat \<Rightarrow> u32" where
  "rotr x n = drop_bit n x OR push_bit (32 - n) x"

text \<open>The message schedule: sixteen big-endian words of the block, then 48 derived ones.\<close>

definition be_u32 :: "u8 \<Rightarrow> u8 \<Rightarrow> u8 \<Rightarrow> u8 \<Rightarrow> u32" where
  "be_u32 a b c d =
     push_bit 24 (ucast a) OR push_bit 16 (ucast b) OR push_bit 8 (ucast c) OR ucast d"

definition sha_load :: "bytes \<Rightarrow> u32 list" where
  "sha_load p = map (\<lambda>i. be_u32 (p ! (i * 4)) (p ! (i * 4 + 1)) (p ! (i * 4 + 2)) (p ! (i * 4 + 3))) [0..<16]"

definition sha_next_word :: "u32 list \<Rightarrow> u32" where
  "sha_next_word w =
     (let i = length w;
          s0 = rotr (w ! (i - 15)) 7 XOR rotr (w ! (i - 15)) 18 XOR drop_bit 3 (w ! (i - 15));
          s1 = rotr (w ! (i - 2)) 17 XOR rotr (w ! (i - 2)) 19 XOR drop_bit 10 (w ! (i - 2))
      in w ! (i - 16) + s0 + w ! (i - 7) + s1)"

definition sha_schedule :: "bytes \<Rightarrow> u32 list" where
  "sha_schedule p = ((\<lambda>w. w @ [sha_next_word w]) ^^ 48) (sha_load p)"

text \<open>One round, on the eight working variables.\<close>

fun sha_round :: "u32 \<times> u32 \<Rightarrow> u32 list \<Rightarrow> u32 list" where
  "sha_round (k, w) [a, b0, c, d, e, f, g, h] =
     (let s1 = rotr e 6 XOR rotr e 11 XOR rotr e 25;
          ch = (e AND f) XOR (NOT e AND g);
          t1 = h + s1 + ch + k + w;
          s0 = rotr a 2 XOR rotr a 13 XOR rotr a 22;
          maj = (a AND b0) XOR (a AND c) XOR (b0 AND c);
          t2 = s0 + maj
      in [t1 + t2, a, b0, c, d + t1, e, f, g])"
| "sha_round kw st = st"

definition sha_transform :: "u32 list \<Rightarrow> bytes \<Rightarrow> u32 list" where
  "sha_transform st p = map2 (+) st (fold sha_round (zip sha_K (sha_schedule p)) st)"

section \<open>The incremental hasher\<close>

record sha256 =
  sha_state :: "u32 list"
  sha_total :: u64
  sha_buf :: bytes
  sha_bufLen :: nat

definition sha_reset :: "sha256 \<Rightarrow> sha256" where
  "sha_reset h = h\<lparr>sha_state := sha_init, sha_total := 0, sha_bufLen := 0\<rparr>"

definition sha_new :: sha256 where
  "sha_new = sha_reset \<lparr>sha_state = replicate 8 0, sha_total = 0, sha_buf = replicate 64 0, sha_bufLen = 0\<rparr>"

text \<open>One turn of the copy loop of \<open>update\<close>, copying \<open>n\<close> bytes.\<close>

definition sha_fill :: "nat \<Rightarrow> bytes \<Rightarrow> sha256 \<Rightarrow> sha256" where
  "sha_fill n p h =
     (let buf = take (sha_bufLen h) (sha_buf h) @ take n p @ drop (sha_bufLen h + n) (sha_buf h);
          len = sha_bufLen h + n
      in if len = 64
         then h\<lparr>sha_buf := buf, sha_state := sha_transform (sha_state h) buf, sha_bufLen := 0\<rparr>
         else h\<lparr>sha_buf := buf, sha_bufLen := len\<rparr>)"

text \<open>The copy loop. The buffer is never filled beyond its 64 bytes, so the second disjunct of the
  exit test is never met; it makes the recursion total.\<close>

function sha_copy :: "bytes \<Rightarrow> sha256 \<Rightarrow> sha256" where
  "sha_copy p h =
     (if p = [] \<or> 64 < sha_bufLen h then h
      else let n = min (length p) (64 - sha_bufLen h) in sha_copy (drop n p) (sha_fill n p h))"
  by pat_completeness auto
termination
  by (relation "measures [\<lambda>(p, h). length p, \<lambda>(p, h). sha_bufLen h]")
    (auto simp: sha_fill_def Let_def split: if_splits)

declare sha_copy.simps [simp del]

definition sha_update :: "bytes \<Rightarrow> sha256 \<Rightarrow> sha256" where
  "sha_update p h = sha_copy p (h\<lparr>sha_total := sha_total h + of_nat (length p)\<rparr>)"


section \<open>Absorbing a message block by block\<close>

function absorb :: "u32 list \<Rightarrow> bytes \<Rightarrow> u32 list \<times> bytes" where
  "absorb st bs =
     (if length bs < 64 then (st, bs) else absorb (sha_transform st (take 64 bs)) (drop 64 bs))"
  by pat_completeness auto
termination
  by (relation "measure (\<lambda>(st, bs). length bs)") auto

declare absorb.simps [simp del]

lemma absorb_short: "length bs < 64 \<Longrightarrow> absorb st bs = (st, bs)"
  by (simp add: absorb.simps)

lemma absorb_block:
  "length b = 64 \<Longrightarrow> absorb st (b @ bs) = absorb (sha_transform st b) bs"
  by (simp add: absorb.simps[of st "b @ bs"])

lemma absorb_append: "absorb st (a @ b) = (case absorb st a of (st', r) \<Rightarrow> absorb st' (r @ b))"
proof (induction st a rule: absorb.induct)
  case (1 st a)
  show ?case
  proof (cases "length a < 64")
    case False
    then have "absorb st (a @ b) = absorb (sha_transform st (take 64 a)) (drop 64 a @ b)"
      by (simp add: absorb.simps[of st "a @ b"])
    with False 1 show ?thesis by (simp add: absorb.simps[of st a])
  qed (simp add: absorb_short)
qed

lemma length_absorb: "length (snd (absorb st bs)) = length bs mod 64"
proof (induction st bs rule: absorb.induct)
  case (1 st bs)
  then show ?case by (cases "length bs < 64") (simp_all add: absorb.simps[of st bs] le_mod_geq)
qed

definition sha_wf :: "sha256 \<Rightarrow> bool" where
  "sha_wf h \<longleftrightarrow> length (sha_buf h) = 64 \<and> sha_bufLen h < 64"

definition sha_pending :: "sha256 \<Rightarrow> bytes" where
  "sha_pending h = take (sha_bufLen h) (sha_buf h)"

lemma length_sha_pending: "sha_wf h \<Longrightarrow> length (sha_pending h) = sha_bufLen h"
  by (simp add: sha_wf_def sha_pending_def)

text \<open>One turn of the loop: either the buffer stays short of a block, or it completes one.\<close>

lemma sha_fill_short:
  assumes "sha_wf h" "sha_bufLen h + length p < 64" "n = length p"
  shows "sha_wf (sha_fill n p h)" "sha_pending (sha_fill n p h) = sha_pending h @ p"
    "sha_state (sha_fill n p h) = sha_state h"
  using assms by (auto simp: sha_fill_def sha_wf_def sha_pending_def Let_def)

lemma sha_fill_full:
  assumes "sha_wf h" "n = 64 - sha_bufLen h" "n \<le> length p"
  shows "sha_wf (sha_fill n p h)" "sha_pending (sha_fill n p h) = []"
    "sha_state (sha_fill n p h) = sha_transform (sha_state h) (sha_pending h @ take n p)"
  using assms by (auto simp: sha_fill_def sha_wf_def sha_pending_def Let_def)

lemma sha_total_fill [simp]: "sha_total (sha_fill n p h) = sha_total h"
  by (simp add: sha_fill_def Let_def)

lemma sha_copy_Nil [simp]: "sha_copy [] h = h"
  by (simp add: sha_copy.simps[of "[]"])

lemma sha_copy_absorb:
  "sha_wf h \<Longrightarrow> sha_wf (sha_copy p h) \<and> sha_total (sha_copy p h) = sha_total h \<and>
     (sha_state (sha_copy p h), sha_pending (sha_copy p h)) = absorb (sha_state h) (sha_pending h @ p)"
proof (induction p h rule: sha_copy.induct)
  case (1 p h)
  note wf = \<open>sha_wf h\<close>
  then have lt: "sha_bufLen h < 64" by (simp add: sha_wf_def)
  consider "p = []" | "p \<noteq> []" "sha_bufLen h + length p < 64" | "64 \<le> sha_bufLen h + length p"
    by linarith
  then show ?case
  proof cases
    case 1
    then show ?thesis using wf lt by (simp add: absorb_short length_sha_pending)
  next
    case 2
    then have "sha_copy p h = sha_copy [] (sha_fill (length p) p h)"
      using lt by (simp add: sha_copy.simps[of p h])
    also have "\<dots> = sha_fill (length p) p h" by simp
    finally show ?thesis
      using sha_fill_short[OF wf 2(2) refl] 2(2) by (simp add: absorb_short length_sha_pending[OF wf])
  next
    case 3
    define n where "n = 64 - sha_bufLen h"
    have np: "p \<noteq> []" "n \<le> length p" "min (length p) (64 - sha_bufLen h) = n"
      using 3 lt by (auto simp: n_def)
    have step: "sha_copy p h = sha_copy (drop n p) (sha_fill n p h)"
      using np lt by (simp add: sha_copy.simps[of p h])
    note fill = sha_fill_full[OF wf n_def np(2)]
    have "absorb (sha_state h) ((sha_pending h @ take n p) @ drop n p)
        = absorb (sha_state (sha_fill n p h)) (drop n p)"
      unfolding fill(3) using np lt wf by (intro absorb_block) (simp add: length_sha_pending n_def)
    with "1.IH"[of n] np lt fill show ?thesis by (simp add: step)
  qed
qed

lemma sha_update_absorb:
  assumes "sha_wf h"
  shows "sha_wf (sha_update p h)"
    "sha_total (sha_update p h) = sha_total h + of_nat (length p)"
    "(sha_state (sha_update p h), sha_pending (sha_update p h)) = absorb (sha_state h) (sha_pending h @ p)"
  using sha_copy_absorb[of "h\<lparr>sha_total := sha_total h + of_nat (length p)\<rparr>" p] assms
  by (simp_all add: sha_update_def sha_wf_def sha_pending_def)

lemma sha_bufLen_update:
  assumes "sha_wf h"
  shows "sha_bufLen (sha_update p h) = (sha_bufLen h + length p) mod 64"
proof -
  have "sha_bufLen (sha_update p h) = length (sha_pending (sha_update p h))"
    using sha_update_absorb(1)[OF assms] by (simp add: length_sha_pending)
  also have "\<dots> = length (snd (absorb (sha_state h) (sha_pending h @ p)))"
    using sha_update_absorb(3)[OF assms, of p] by (metis snd_conv)
  finally show ?thesis by (simp add: length_absorb length_sha_pending[OF assms])
qed

section \<open>Finishing\<close>

text \<open>The loop \<open>while (bufLen_ != 56) update(&zero, 1)\<close>.\<close>

lemma pad_decreases:
  "b < 64 \<Longrightarrow> b \<noteq> 56 \<Longrightarrow> (120 - (b + 1) mod 64) mod 64 + 1 = (120 - b) mod (64::nat)"
proof -
  assume "b < 64" "b \<noteq> 56"
  then consider "b < 56" | "56 < b" "b < 63" | "b = 63" by linarith
  then show ?thesis
  proof cases
    case 1
    then have "119 - b = 64 + (55 - b)" "120 - b = 64 + (56 - b)" by simp_all
    then have "(119 - b) mod 64 = 55 - b" "(120 - b) mod 64 = 56 - b" by (simp_all only: mod_add_self1) simp_all
    then show ?thesis using 1 by simp
  qed simp_all
qed

lemma pad_count: "(120 - (n + 1) mod 64) mod 64 = (119 - n mod 64) mod (64::nat)"
  by (auto simp: mod_Suc)

function sha_zeros :: "sha256 \<Rightarrow> sha256" where
  "sha_zeros h = (if sha_bufLen h = 56 \<or> \<not> sha_wf h then h else sha_zeros (sha_update [0] h))"
  by pat_completeness auto
termination
proof (relation "measure (\<lambda>h. (120 - sha_bufLen h) mod 64)")
  fix h assume h: "\<not> (sha_bufLen h = 56 \<or> \<not> sha_wf h)"
  then have "sha_bufLen h < 64" "sha_bufLen (sha_update [0] h) = (sha_bufLen h + 1) mod 64"
    by (simp_all add: sha_bufLen_update sha_wf_def)
  with h show "(sha_update [0] h, h) \<in> measure (\<lambda>h. (120 - sha_bufLen h) mod 64)"
    using pad_decreases[of "sha_bufLen h"] by simp
qed simp

declare sha_zeros.simps [simp del]

definition sha_finish :: "sha256 \<Rightarrow> bytes" where
  "sha_finish h =
     (let bitLen = sha_total h * 8;
          h1 = sha_update [0x80] h;
          h2 = sha_zeros h1;
          h3 = sha_update (map (\<lambda>i. ucast (drop_bit (56 - i * 8) bitLen)) [0..<8]) h2
      in concat (map (\<lambda>w. [ucast (drop_bit 24 w), ucast (drop_bit 16 w), ucast (drop_bit 8 w), ucast w])
           (sha_state h3)))"

definition sha_digest :: "bytes \<Rightarrow> bytes" where
  "sha_digest data = sha_finish (sha_update data sha_new)"

definition digest16 :: "bytes \<Rightarrow> bytes" where
  "digest16 data = take 16 (sha_digest data)"


section \<open>The one-shot digest\<close>

definition sha_pad :: "nat \<Rightarrow> bytes" where
  "sha_pad n = [0x80] @ replicate ((119 - n mod 64) mod 64) 0
     @ map (\<lambda>i. ucast (drop_bit (56 - i * 8) (of_nat n * 8 :: u64))) [0..<8]"

definition sha_digest_ref :: "bytes \<Rightarrow> bytes" where
  "sha_digest_ref data =
     concat (map (\<lambda>w. [ucast (drop_bit 24 w), ucast (drop_bit 16 w), ucast (drop_bit 8 w), ucast w])
       (fst (absorb sha_init (data @ sha_pad (length data)))))"

lemma sha_zeros_absorb:
  "sha_wf h \<Longrightarrow> sha_wf (sha_zeros h) \<and> sha_bufLen (sha_zeros h) = 56 \<and>
     (sha_state (sha_zeros h), sha_pending (sha_zeros h))
       = absorb (sha_state h) (sha_pending h @ replicate ((120 - sha_bufLen h) mod 64) 0)"
proof (induction h rule: sha_zeros.induct)
  case (1 h)
  show ?case
  proof (cases "sha_bufLen h = 56")
    case True
    with 1 show ?thesis by (simp add: sha_zeros.simps[of h] absorb_short length_sha_pending)
  next
    case False
    define g where "g = sha_update [0] h"
    have b: "sha_bufLen h < 64" using 1 by (simp add: sha_wf_def)
    have z: "sha_zeros h = sha_zeros g" using False 1 by (simp add: sha_zeros.simps[of h] g_def)
    have "sha_bufLen g = (sha_bufLen h + 1) mod 64" using 1 by (simp add: g_def sha_bufLen_update)
    then have cnt: "replicate ((120 - sha_bufLen h) mod 64) (0::u8)
        = [0] @ replicate ((120 - sha_bufLen g) mod 64) 0"
      using pad_decreases[OF b False] by (simp flip: replicate_Suc)
    have g: "sha_wf g" "absorb (sha_state h) (sha_pending h @ [0]) = (sha_state g, sha_pending g)"
      using sha_update_absorb[OF 1(2), of "[0]"] by (simp_all add: g_def)
    have "sha_wf (sha_zeros g) \<and> sha_bufLen (sha_zeros g) = 56 \<and>
        (sha_state (sha_zeros g), sha_pending (sha_zeros g))
          = absorb (sha_state g) (sha_pending g @ replicate ((120 - sha_bufLen g) mod 64) 0)"
      using 1 False g(1) unfolding g_def by blast
    then show ?thesis
      unfolding z cnt append_assoc[symmetric] absorb_append[of _ "sha_pending h @ [0]"] g(2) by simp
  qed
qed

lemma sha_new_wf: "sha_wf sha_new" "sha_pending sha_new = []" "sha_state sha_new = sha_init"
  "sha_total sha_new = 0" "sha_bufLen sha_new = 0"
  by (simp_all add: sha_new_def sha_reset_def sha_wf_def sha_pending_def)

text \<open>However the context came to absorb \<open>data\<close>, finishing it gives the digest of \<open>data\<close>.\<close>

lemma sha_finish_ref:
  assumes h: "sha_wf h" "sha_total h = of_nat (length data)" "(sha_state h, sha_pending h) = absorb sha_init data"
  shows "sha_finish h = sha_digest_ref data"
proof -
  define h1 where "h1 = sha_update [0x80] h"
  define h2 where "h2 = sha_zeros h1"
  define len :: bytes where "len = map (\<lambda>i. ucast (drop_bit (56 - i * 8) (sha_total h * 8))) [0..<8]"
  have buf: "sha_bufLen h = length data mod 64"
    using length_sha_pending[OF h(1)] length_absorb[of sha_init data] h(3) by (metis snd_conv)
  have h1: "sha_wf h1" "sha_bufLen h1 = (length data + 1) mod 64"
    "(sha_state h1, sha_pending h1) = absorb sha_init (data @ [0x80])"
  proof -
    show "sha_wf h1" unfolding h1_def by (rule sha_update_absorb(1)[OF h(1)])
    show "sha_bufLen h1 = (length data + 1) mod 64"
      unfolding h1_def sha_bufLen_update[OF h(1)] buf by (simp add: mod_Suc_eq)
    show "(sha_state h1, sha_pending h1) = absorb sha_init (data @ [0x80])"
      unfolding h1_def sha_update_absorb(3)[OF h(1)] absorb_append[of sha_init data] h(3)[symmetric]
      by simp
  qed
  have cnt: "(120 - sha_bufLen h1) mod 64 = (119 - length data mod 64) mod 64"
    unfolding h1(2) by (rule pad_count)
  have h2: "sha_wf h2"
    "(sha_state h2, sha_pending h2)
       = absorb sha_init ((data @ [0x80]) @ replicate ((119 - length data mod 64) mod 64) 0)"
    using sha_zeros_absorb[OF h1(1)]
    unfolding cnt h2_def absorb_append[of sha_init "data @ [0x80]"] h1(3)[symmetric] by simp_all
  have "sha_state (sha_update len h2) = fst (absorb (sha_state h2) (sha_pending h2 @ len))"
    using sha_update_absorb(3)[OF h2(1), of len] by (metis fst_conv)
  also have "\<dots> = fst (absorb sha_init
      (((data @ [0x80]) @ replicate ((119 - length data mod 64) mod 64) 0) @ len))"
    unfolding absorb_append[of sha_init _ len] h2(2)[symmetric] by simp
  also have "\<dots> = fst (absorb sha_init (data @ sha_pad (length data)))"
    by (simp add: sha_pad_def len_def h(2))
  finally show ?thesis
    by (simp add: sha_finish_def sha_digest_ref_def Let_def h1_def h2_def len_def)
qed

lemma sha_updates_absorb:
  "sha_wf (fold sha_update ps sha_new) \<and> sha_total (fold sha_update ps sha_new) = of_nat (length (concat ps)) \<and>
    (sha_state (fold sha_update ps sha_new), sha_pending (fold sha_update ps sha_new)) = absorb sha_init (concat ps)"
proof (induction ps rule: rev_induct)
  case Nil
  then show ?case by (simp add: sha_new_wf absorb_short)
next
  case (snoc p ps)
  let ?h = "fold sha_update ps sha_new"
  have h: "sha_wf ?h" "sha_total ?h = of_nat (length (concat ps))" "(sha_state ?h, sha_pending ?h) = absorb sha_init (concat ps)"
    using snoc.IH by blast+
  show ?case using sha_update_absorb[OF h(1), of p] h(2) unfolding absorb_append[of sha_init "concat ps"] concat_append
    by (simp flip: h(3))
qed

lemma sha_chunks_eq_ref: "sha_finish (fold sha_update ps sha_new) = sha_digest_ref (concat ps)"
  using sha_updates_absorb[of ps] by (intro sha_finish_ref) blast+

lemma sha_digest_eq_ref: "sha_digest data = sha_digest_ref data"
  using sha_chunks_eq_ref[of "[data]"] by (simp add: sha_digest_def)

end
