(* ===== verification/Identity.thy ===== *)
theory Identity
  imports Prelude Sha256
begin

text \<open>
  The identities of \<open>include/warmth/identity.hpp\<close> and \<open>src/identity.cpp\<close>: 128-bit ids with their
  byte and hexadecimal forms, and the saturating authority generations. The strongly typed
  aliases (\<open>WarmthObjectId\<close>, \<open>WorkerId\<close>, ...) share one representation in C++ and here.
\<close>

section \<open>\<open>Id128\<close>\<close>

datatype id128 = Id128 (high: u64) (low: u64)

definition id_default :: id128 where
  "id_default = Id128 0 0"

definition is_valid :: "id128 \<Rightarrow> bool" where
  "is_valid i \<longleftrightarrow> high i \<noteq> 0 \<or> low i \<noteq> 0"

text \<open>The defaulted three-way comparison: first \<open>hi_\<close>, then \<open>lo_\<close>.\<close>

instantiation id128 :: linorder
begin

definition less_eq_id128 :: "id128 \<Rightarrow> id128 \<Rightarrow> bool" where
  "less_eq_id128 a b \<longleftrightarrow> high a < high b \<or> high a = high b \<and> low a \<le> low b"

definition less_id128 :: "id128 \<Rightarrow> id128 \<Rightarrow> bool" where
  "less_id128 a b \<longleftrightarrow> high a < high b \<or> high a = high b \<and> low a < low b"

instance
  by standard (auto simp: less_eq_id128_def less_id128_def id128.expand)

end

definition to_bytes :: "id128 \<Rightarrow> bytes" where
  "to_bytes i = be_bytes 8 (high i) @ be_bytes 8 (low i)"

definition from_bytes :: "bytes \<Rightarrow> id128" where
  "from_bytes b = Id128 (be_val (take 8 b)) (be_val (take 8 (drop 8 b)))"

definition derive :: "string \<Rightarrow> id128" where
  "derive text = from_bytes (digest16 (map byte_of_char text))"

text \<open>\<open>random\<close>, given the two draws of the process-wide generator.\<close>

definition id_random :: "u64 \<Rightarrow> u64 \<Rightarrow> id128" where
  "id_random hi lo = (if hi = 0 \<and> lo = 0 then Id128 hi 1 else Id128 hi lo)"

definition hash_value :: "id128 \<Rightarrow> u64" where
  "hash_value i = (let x = high i in
     x XOR (low i + 0x9e3779b97f4a7c15 + push_bit 6 x + drop_bit 2 x))"

subsection \<open>Hexadecimal form\<close>

definition hex_digit :: "u64 \<Rightarrow> char" where
  "hex_digit d = ''0123456789abcdef'' ! unat d"

text \<open>\<open>%.016llx\<close>: sixteen lower-case digits.\<close>

definition hex16 :: "u64 \<Rightarrow> string" where
  "hex16 v = map (\<lambda>i. hex_digit (take_bit 4 (drop_bit (4 * i) v))) (rev [0..<16])"

definition id_to_string :: "id128 \<Rightarrow> string" where
  "id_to_string i = hex16 (high i) @ hex16 (low i)"

definition nib :: "char \<Rightarrow> int" where
  "nib c = (let n = of_char c in
     if of_char (CHR ''0'') \<le> n \<and> n \<le> of_char (CHR ''9'') then n - of_char (CHR ''0'')
     else if of_char (CHR ''a'') \<le> n \<and> n \<le> of_char (CHR ''f'') then n - of_char (CHR ''a'') + 10
     else if of_char (CHR ''A'') \<le> n \<and> n \<le> of_char (CHR ''F'') then n - of_char (CHR ''A'') + 10
     else - 1)"

definition strip_0x :: "string \<Rightarrow> string" where
  "strip_0x s = (if 2 \<le> length s \<and> s ! 0 = CHR ''0'' \<and> (s ! 1 = CHR ''x'' \<or> s ! 1 = CHR ''X'')
     then drop 2 s else s)"

text \<open>One turn of the loop over the sixteen digit positions of the two halves.\<close>

definition id_nibbles :: "string \<Rightarrow> nat \<Rightarrow> (u64 \<times> u64) option \<Rightarrow> (u64 \<times> u64) option" where
  "id_nibbles hex i acc = (case acc of None \<Rightarrow> None | Some (hi, lo) \<Rightarrow>
     (let nh = nib (hex ! i); nl = nib (hex ! (i + 16)) in
      if nh < 0 \<or> nl < 0 then None
      else Some (push_bit 4 hi OR of_int nh, push_bit 4 lo OR of_int nl)))"

definition id_from_string :: "string \<Rightarrow> id128 option" where
  "id_from_string s = (let hex = strip_0x s in
     if length hex \<noteq> 32 then None
     else map_option (\<lambda>(hi, lo). Id128 hi lo) (fold (id_nibbles hex) [0..<16] (Some (0, 0))))"

section \<open>Generations\<close>

type_synonym generation = u64

definition gen_initial :: generation where
  "gen_initial = 0"

definition gen_next :: "generation \<Rightarrow> generation" where
  "gen_next v = (if v = - 1 then v else v + 1)"

section \<open>Facts\<close>

lemma length_to_bytes [simp]: "length (to_bytes i) = 16"
  by (simp add: to_bytes_def)

lemma from_to_bytes [simp, codec]: "from_bytes (to_bytes i) = i"
  by (simp add: from_bytes_def to_bytes_def)

lemma hex_digits_nib: "list_all (\<lambda>n. nib (''0123456789abcdef'' ! n) = int n) [0..<16]"
  by code_simp

lemma hex_digit_nib: "d < 16 \<Longrightarrow> nib (hex_digit d) = uint d"
proof -
  assume "d < 16"
  then have "unat d < 16" by (simp add: word_less_nat_alt)
  then show ?thesis using hex_digits_nib by (simp add: hex_digit_def list_all_iff)
qed

lemma take_bit_4_less: "take_bit 4 (x :: u64) < 16"
  using take_bit_nat_less_exp[of 4 "unat x"] by (simp add: word_less_nat_alt unsigned_take_bit_eq)

lemma length_hex16 [simp]: "length (hex16 v) = 16"
  by (simp add: hex16_def)

lemma nib_hex16:
  "i < 16 \<Longrightarrow> nib (hex16 v ! i) = uint (take_bit 4 (drop_bit (4 * (15 - i)) v))"
  by (simp add: hex16_def rev_nth hex_digit_nib take_bit_4_less)

lemma rev_upt_16: "rev [0..<16] = map (\<lambda>i. 15 - i) [0..<(16::nat)]"
  by (simp add: upt_rec)

lemma fold_hex16:
  "fold (\<lambda>i a. push_bit 4 a OR take_bit 4 (drop_bit (4 * (15 - i)) v)) [0..<16] 0 = (v :: u64)"
  using fold_digits[of 4 v 16 0] unfolding rev_upt_16 by (simp add: fold_map comp_def take_bit_word_eq_self)

text \<open>The two halves are read in lockstep; on well-formed digits the loop is two plain folds.\<close>

lemma fold_id_nibbles:
  "\<forall>i \<in> set is. i < 16 \<Longrightarrow>
   fold (id_nibbles (hex16 a @ hex16 b)) is (Some (hi, lo)) =
     Some (fold (\<lambda>i x. push_bit 4 x OR take_bit 4 (drop_bit (4 * (15 - i)) a)) is hi,
           fold (\<lambda>i x. push_bit 4 x OR take_bit 4 (drop_bit (4 * (15 - i)) b)) is lo)"
  by (induction "is" arbitrary: hi lo) (simp_all add: id_nibbles_def nib_hex16 nth_append)

lemma hex16_no_x: "c \<in> set (hex16 v) \<Longrightarrow> c \<noteq> CHR ''x'' \<and> c \<noteq> CHR ''X''"
proof -
  assume "c \<in> set (hex16 v)"
  then obtain d where "c = hex_digit d" "d < 16" using take_bit_4_less by (auto simp: hex16_def)
  then have "0 \<le> nib c" by (simp add: hex_digit_nib)
  then show ?thesis by (auto simp: nib_def)
qed

lemma strip_0x_id_to_string [simp]: "strip_0x (id_to_string i) = id_to_string i"
  using hex16_no_x[of "hex16 (high i) ! 1" "high i"] by (simp add: strip_0x_def id_to_string_def nth_append)

lemma strip_0x_prefix [simp]: "strip_0x (CHR ''0'' # CHR ''x'' # s) = s"
  by (simp add: strip_0x_def)

lemma id_from_string_digits:
  "strip_0x s = id_to_string i \<Longrightarrow> id_from_string s = Some i"
  using fold_id_nibbles[of "[0..<16]" "high i" "low i" 0 0]
  by (simp add: id_from_string_def id_to_string_def fold_hex16)

lemma id_to_string_inject: "id_to_string i = id_to_string j \<longleftrightarrow> i = j"
  using id_from_string_digits[of "id_to_string i" i] id_from_string_digits[of "id_to_string j" j]
  by (metis option.inject strip_0x_id_to_string)

lemma length_id_to_string [simp]: "length (id_to_string i) = 32"
  by (simp add: id_to_string_def)

lemma unat_gen_next: "unat (gen_next g) = (if g = - 1 then unat g else Suc (unat g))"
proof (cases "g = - 1")
  case False
  then have "g + 1 \<noteq> 0" by (simp add: eq_neg_iff_add_eq_0)
  then have "unat (1 + g) = Suc (unat g)" by (intro unatSuc) (simp add: add.commute)
  then show ?thesis using False by (simp add: gen_next_def add.commute)
qed (simp add: gen_next_def)

end
