(* ===== verification/Warmth_State.thy ===== *)
theory Warmth_State
  imports Prelude
begin

text \<open>
  The lifecycle of \<open>include/warmth/warmth_state.hpp\<close>: the ten states, the guarded transition table,
  and what it takes to become execution-ready. The locale \<open>byte_enum\<close> is the interface the
  codecs use for every enumeration with a one-byte representation.
\<close>

section \<open>Enumerations on the wire\<close>

text \<open>\<open>code\<close> is the cast of an enumerator to \<open>uint8_t\<close>; \<open>of_code\<close> is the validity switch followed
  by the cast back.\<close>

locale byte_enum =
  fixes code :: "'a \<Rightarrow> u8" and of_code :: "u8 \<Rightarrow> 'a option"
  assumes of_code_code: "of_code (code x) = Some x"
    and code_of_code: "of_code b = Some x \<Longrightarrow> code x = b"
begin

lemma code_inject: "code x = code y \<longleftrightarrow> x = y"
  by (metis of_code_code option.inject)

lemma of_code_None_iff: "of_code b = None \<longleftrightarrow> b \<notin> range code"
  using of_code_code code_of_code by (metis not_Some_eq rangeE rangeI)

end

text \<open>Enumerators numbered from zero, in the order of a list that names them all once.\<close>

definition enum_of :: "'a list \<Rightarrow> u8 \<Rightarrow> 'a option" where
  "enum_of xs b = (if unat b < length xs then Some (xs ! unat b) else None)"

lemma byte_enum_enum_of:
  assumes "\<And>x. unat (code x) < length xs \<and> xs ! unat (code x) = x" "distinct xs"
  shows "byte_enum code (enum_of xs)"
proof
  fix x show "enum_of xs (code x) = Some x" using assms(1) by (simp add: enum_of_def)
next
  fix b x assume "enum_of xs b = Some x"
  then have b: "unat b < length xs" "xs ! unat b = x" by (auto simp: enum_of_def split: if_splits)
  then have "unat b = unat (code x)" using assms by (metis nth_eq_iff_index_eq)
  then show "code x = b" by (metis unsigned_word_eqI)
qed

section \<open>States\<close>

datatype warmth_state = COLD | DISCOVERED | PREPARING | PARTIALLY_WARM | WARM | HOT | STALE | INVALIDATED | EVICTED | FAILED

fun state_code :: "warmth_state \<Rightarrow> u8" where
  "state_code COLD = 0"
| "state_code DISCOVERED = 1"
| "state_code PREPARING = 2"
| "state_code PARTIALLY_WARM = 3"
| "state_code WARM = 4"
| "state_code HOT = 5"
| "state_code STALE = 6"
| "state_code INVALIDATED = 7"
| "state_code EVICTED = 8"
| "state_code FAILED = 9"

definition state_of_code :: "u8 \<Rightarrow> warmth_state option" where
  "state_of_code = enum_of [COLD, DISCOVERED, PREPARING, PARTIALLY_WARM, WARM, HOT, STALE, INVALIDATED, EVICTED, FAILED]"

interpretation state_enum: byte_enum state_code state_of_code
  unfolding state_of_code_def
proof (rule byte_enum_enum_of)
  fix x show "unat (state_code x) < length [COLD, DISCOVERED, PREPARING, PARTIALLY_WARM, WARM, HOT, STALE, INVALIDATED, EVICTED, FAILED] \<and> [COLD, DISCOVERED, PREPARING, PARTIALLY_WARM, WARM, HOT, STALE, INVALIDATED, EVICTED, FAILED] ! unat (state_code x) = x"
    by (cases x) simp_all
qed simp

definition is_execution_ready_state :: "int \<Rightarrow> bool" where
  "is_execution_ready_state st \<longleftrightarrow> st = uint (state_code WARM) \<or> st = uint (state_code HOT)"

definition is_execution_ready :: "warmth_state \<Rightarrow> bool" where
  "is_execution_ready s = is_execution_ready_state (uint (state_code s))"

fun state_to_string :: "warmth_state \<Rightarrow> string" where
  "state_to_string COLD = ''COLD''"
| "state_to_string DISCOVERED = ''DISCOVERED''"
| "state_to_string PREPARING = ''PREPARING''"
| "state_to_string PARTIALLY_WARM = ''PARTIALLY_WARM''"
| "state_to_string WARM = ''WARM''"
| "state_to_string HOT = ''HOT''"
| "state_to_string STALE = ''STALE''"
| "state_to_string INVALIDATED = ''INVALIDATED''"
| "state_to_string EVICTED = ''EVICTED''"
| "state_to_string FAILED = ''FAILED''"

datatype warmth_level = L_NONE | L_DISCOVERED | L_PREPARING | L_PARTIAL | L_READY | L_HOT

fun level_code :: "warmth_level \<Rightarrow> nat" where
  "level_code L_NONE = 0"
| "level_code L_DISCOVERED = 1"
| "level_code L_PREPARING = 2"
| "level_code L_PARTIAL = 3"
| "level_code L_READY = 4"
| "level_code L_HOT = 5"

fun to_level :: "warmth_state \<Rightarrow> warmth_level" where
  "to_level COLD = L_NONE"
| "to_level DISCOVERED = L_DISCOVERED"
| "to_level PREPARING = L_PREPARING"
| "to_level PARTIALLY_WARM = L_PARTIAL"
| "to_level WARM = L_READY"
| "to_level HOT = L_HOT"
| "to_level STALE = L_NONE"
| "to_level INVALIDATED = L_NONE"
| "to_level EVICTED = L_NONE"
| "to_level FAILED = L_NONE"

definition is_live_warm_state :: "warmth_state \<Rightarrow> bool" where
  "is_live_warm_state s \<longleftrightarrow> s = PARTIALLY_WARM \<or> s = WARM \<or> s = HOT"

section \<open>Transitions\<close>

fun transitions :: "warmth_state \<Rightarrow> warmth_state list" where
  "transitions COLD = [COLD, DISCOVERED, PREPARING, EVICTED, INVALIDATED, FAILED]"
| "transitions DISCOVERED =
     [COLD, DISCOVERED, PREPARING, PARTIALLY_WARM, WARM, INVALIDATED, EVICTED, FAILED]"
| "transitions PREPARING =
     [DISCOVERED, PREPARING, PARTIALLY_WARM, WARM, HOT, STALE, INVALIDATED, EVICTED, FAILED]"
| "transitions PARTIALLY_WARM =
     [PREPARING, PARTIALLY_WARM, WARM, STALE, INVALIDATED, EVICTED, FAILED, COLD]"
| "transitions WARM =
     [HOT, WARM, PARTIALLY_WARM, STALE, INVALIDATED, EVICTED, FAILED, DISCOVERED]"
| "transitions HOT = [WARM, HOT, STALE, INVALIDATED, EVICTED, FAILED]"
| "transitions STALE = [WARM, STALE, INVALIDATED, COLD, EVICTED, FAILED, DISCOVERED]"
| "transitions INVALIDATED = [COLD, DISCOVERED, PREPARING, INVALIDATED, FAILED, EVICTED]"
| "transitions EVICTED = [COLD, DISCOVERED, PREPARING, EVICTED]"
| "transitions FAILED = [COLD, DISCOVERED, INVALIDATED, FAILED]"

definition transition_allowed :: "warmth_state \<Rightarrow> warmth_state \<Rightarrow> bool" where
  "transition_allowed from to \<longleftrightarrow> to \<in> set (transitions from)"

text \<open>A sequence of states each entered through the table.\<close>

fun state_path :: "warmth_state \<Rightarrow> warmth_state list \<Rightarrow> bool" where
  "state_path s [] \<longleftrightarrow> True"
| "state_path s (t # ts) \<longleftrightarrow> transition_allowed s t \<and> state_path t ts"

lemma is_execution_ready_iff [simp]: "is_execution_ready s \<longleftrightarrow> s = WARM \<or> s = HOT"
  by (cases s) (simp_all add: is_execution_ready_def is_execution_ready_state_def)

lemma transition_self: "transition_allowed s s"
  by (cases s) (simp_all add: transition_allowed_def)

lemma enter_ready:
  "transition_allowed s t \<Longrightarrow> is_execution_ready t \<Longrightarrow>
     s \<in> {DISCOVERED, PREPARING, PARTIALLY_WARM, WARM, HOT, STALE}"
  by (cases s) (auto simp: transition_allowed_def)

text \<open>The states from which the object holds nothing an execution could use.\<close>

definition is_unprepared :: "warmth_state \<Rightarrow> bool" where
  "is_unprepared s \<longleftrightarrow> s \<in> {COLD, INVALIDATED, EVICTED, FAILED}"

lemma unprepared_step:
  "is_unprepared s \<Longrightarrow> transition_allowed s t \<Longrightarrow> is_unprepared t \<or> t = DISCOVERED \<or> t = PREPARING"
  by (cases s) (auto simp: transition_allowed_def is_unprepared_def)

lemma path_through_preparation:
  "is_unprepared s \<Longrightarrow> state_path s ts \<Longrightarrow> \<exists>t \<in> set ts. is_execution_ready t \<Longrightarrow>
     DISCOVERED \<in> set ts \<or> PREPARING \<in> set ts"
proof (induction ts arbitrary: s)
  case (Cons t ts)
  then have "is_unprepared t \<or> t = DISCOVERED \<or> t = PREPARING" by (auto dest: unprepared_step)
  with Cons show ?case by (auto simp: is_unprepared_def)
qed simp

end
