(* ===== verification/Warmth_Dimensions.thy ===== *)
theory Warmth_Dimensions
  imports Warmth_State
begin

text \<open>
  The twelve independent readiness dimensions of \<open>include/warmth/warmth_dimensions.hpp\<close> and the
  composite level derived from them.
\<close>

section \<open>Status of one dimension\<close>

datatype dimension_status = D_COLD | D_DISCOVERED | D_PARTIAL | D_READY | D_VALID | D_SUSPECT

fun dim_code :: "dimension_status \<Rightarrow> u8" where
  "dim_code D_COLD = 0"
| "dim_code D_DISCOVERED = 1"
| "dim_code D_PARTIAL = 2"
| "dim_code D_READY = 3"
| "dim_code D_VALID = 4"
| "dim_code D_SUSPECT = 5"

definition dim_of_code :: "u8 \<Rightarrow> dimension_status option" where
  "dim_of_code = enum_of [D_COLD, D_DISCOVERED, D_PARTIAL, D_READY, D_VALID, D_SUSPECT]"

interpretation dim_enum: byte_enum dim_code dim_of_code
  unfolding dim_of_code_def
proof (rule byte_enum_enum_of)
  fix x show "unat (dim_code x) < length [D_COLD, D_DISCOVERED, D_PARTIAL, D_READY, D_VALID, D_SUSPECT] \<and> [D_COLD, D_DISCOVERED, D_PARTIAL, D_READY, D_VALID, D_SUSPECT] ! unat (dim_code x) = x"
    by (cases x) simp_all
qed simp

fun dimension_score :: "dimension_status \<Rightarrow> nat" where
  "dimension_score D_COLD = 0"
| "dimension_score D_DISCOVERED = 1"
| "dimension_score D_PARTIAL = 2"
| "dimension_score D_READY = 3"
| "dimension_score D_VALID = 4"
| "dimension_score D_SUSPECT = 1"

fun status_name :: "dimension_status \<Rightarrow> string" where
  "status_name D_COLD = ''COLD''"
| "status_name D_DISCOVERED = ''DISCOVERED''"
| "status_name D_PARTIAL = ''PARTIAL''"
| "status_name D_READY = ''READY''"
| "status_name D_VALID = ''VALID''"
| "status_name D_SUSPECT = ''SUSPECT''"

datatype composite_level = C_COLD | C_DISCOVERED | C_PARTIAL | C_READY | C_HOT

fun composite_name :: "composite_level \<Rightarrow> string" where
  "composite_name C_COLD = ''COLD''"
| "composite_name C_DISCOVERED = ''DISCOVERED''"
| "composite_name C_PARTIAL = ''PARTIAL''"
| "composite_name C_READY = ''READY''"
| "composite_name C_HOT = ''HOT''"

section \<open>The dimensions of an object\<close>

record warmth_dimensions =
  artifact_availability :: dimension_status
  artifact_validation :: dimension_status
  model_residency :: dimension_status
  adapter_residency :: dimension_status
  tokenizer_readiness :: dimension_status
  cuda_context_readiness :: dimension_status
  kernel_readiness :: dimension_status
  graph_readiness :: dimension_status
  allocator_readiness :: dimension_status
  prefix_kv_reuse :: dimension_status
  engine_readiness :: dimension_status
  local_dependency_readiness :: dimension_status

definition dims_default :: warmth_dimensions where
  "dims_default = \<lparr>artifact_availability = D_COLD,
     artifact_validation = D_COLD,
     model_residency = D_COLD,
     adapter_residency = D_COLD,
     tokenizer_readiness = D_COLD,
     cuda_context_readiness = D_COLD,
     kernel_readiness = D_COLD,
     graph_readiness = D_COLD,
     allocator_readiness = D_COLD,
     prefix_kv_reuse = D_COLD,
     engine_readiness = D_COLD,
     local_dependency_readiness = D_COLD\<rparr>"

definition dims_all :: "warmth_dimensions \<Rightarrow> dimension_status list" where
  "dims_all d = [artifact_availability d,
     artifact_validation d,
     model_residency d,
     adapter_residency d,
     tokenizer_readiness d,
     cuda_context_readiness d,
     kernel_readiness d,
     graph_readiness d,
     allocator_readiness d,
     prefix_kv_reuse d,
     engine_readiness d,
     local_dependency_readiness d]"

definition component_count :: nat where
  "component_count = 12"

definition ready_count :: "warmth_dimensions \<Rightarrow> nat" where
  "ready_count d = length (filter (\<lambda>s. 3 \<le> dimension_score s) (dims_all d))"

definition valid_count :: "warmth_dimensions \<Rightarrow> nat" where
  "valid_count d = length (filter (\<lambda>s. s = D_VALID) (dims_all d))"

definition raw_score :: "warmth_dimensions \<Rightarrow> nat" where
  "raw_score d = sum_list (map dimension_score (dims_all d))"

definition dims_composite_level :: "warmth_dimensions \<Rightarrow> composite_level" where
  "dims_composite_level d =
     (let total = component_count; ready = ready_count d; valid = valid_count d in
      if valid = total then C_HOT
      else if ready = total then C_READY
      else if ready = 0 then
        (let score = raw_score d in
         if 12 \<le> score then C_PARTIAL else if 0 < score then C_DISCOVERED else C_COLD)
      else if total \<le> ready * 2 then C_PARTIAL
      else C_DISCOVERED)"

definition all_ready :: "warmth_dimensions \<Rightarrow> bool" where
  "all_ready d \<longleftrightarrow> ready_count d = component_count"

definition any_suspect :: "warmth_dimensions \<Rightarrow> bool" where
  "any_suspect d \<longleftrightarrow> D_SUSPECT \<in> set (dims_all d)"

section \<open>Selecting a dimension by index\<close>

datatype dimension_index = ArtifactAvailability
  | ArtifactValidation
  | ModelResidency
  | AdapterResidency
  | TokenizerReadiness
  | CudaContextReadiness
  | KernelReadiness
  | GraphReadiness
  | AllocatorReadiness
  | PrefixKvReuse
  | EngineReadiness
  | LocalDependencyReadiness

definition dimension_indices :: "dimension_index list" where
  "dimension_indices = [ArtifactAvailability, ArtifactValidation, ModelResidency, AdapterResidency, TokenizerReadiness, CudaContextReadiness, KernelReadiness, GraphReadiness, AllocatorReadiness, PrefixKvReuse, EngineReadiness, LocalDependencyReadiness]"

fun dimension_name :: "dimension_index \<Rightarrow> string" where
  "dimension_name ArtifactAvailability = ''artifact_availability''"
| "dimension_name ArtifactValidation = ''artifact_validation''"
| "dimension_name ModelResidency = ''model_residency''"
| "dimension_name AdapterResidency = ''adapter_residency''"
| "dimension_name TokenizerReadiness = ''tokenizer_readiness''"
| "dimension_name CudaContextReadiness = ''cuda_context_readiness''"
| "dimension_name KernelReadiness = ''kernel_readiness''"
| "dimension_name GraphReadiness = ''graph_readiness''"
| "dimension_name AllocatorReadiness = ''allocator_readiness''"
| "dimension_name PrefixKvReuse = ''prefix_kv_reuse''"
| "dimension_name EngineReadiness = ''engine_readiness''"
| "dimension_name LocalDependencyReadiness = ''local_dependency_readiness''"

fun dims_set :: "dimension_index \<Rightarrow> dimension_status \<Rightarrow> warmth_dimensions \<Rightarrow> warmth_dimensions" where
  "dims_set ArtifactAvailability v d = d\<lparr>artifact_availability := v\<rparr>"
| "dims_set ArtifactValidation v d = d\<lparr>artifact_validation := v\<rparr>"
| "dims_set ModelResidency v d = d\<lparr>model_residency := v\<rparr>"
| "dims_set AdapterResidency v d = d\<lparr>adapter_residency := v\<rparr>"
| "dims_set TokenizerReadiness v d = d\<lparr>tokenizer_readiness := v\<rparr>"
| "dims_set CudaContextReadiness v d = d\<lparr>cuda_context_readiness := v\<rparr>"
| "dims_set KernelReadiness v d = d\<lparr>kernel_readiness := v\<rparr>"
| "dims_set GraphReadiness v d = d\<lparr>graph_readiness := v\<rparr>"
| "dims_set AllocatorReadiness v d = d\<lparr>allocator_readiness := v\<rparr>"
| "dims_set PrefixKvReuse v d = d\<lparr>prefix_kv_reuse := v\<rparr>"
| "dims_set EngineReadiness v d = d\<lparr>engine_readiness := v\<rparr>"
| "dims_set LocalDependencyReadiness v d = d\<lparr>local_dependency_readiness := v\<rparr>"

fun dims_get :: "dimension_index \<Rightarrow> warmth_dimensions \<Rightarrow> dimension_status" where
  "dims_get ArtifactAvailability d = artifact_availability d"
| "dims_get ArtifactValidation d = artifact_validation d"
| "dims_get ModelResidency d = model_residency d"
| "dims_get AdapterResidency d = adapter_residency d"
| "dims_get TokenizerReadiness d = tokenizer_readiness d"
| "dims_get CudaContextReadiness d = cuda_context_readiness d"
| "dims_get KernelReadiness d = kernel_readiness d"
| "dims_get GraphReadiness d = graph_readiness d"
| "dims_get AllocatorReadiness d = allocator_readiness d"
| "dims_get PrefixKvReuse d = prefix_kv_reuse d"
| "dims_get EngineReadiness d = engine_readiness d"
| "dims_get LocalDependencyReadiness d = local_dependency_readiness d"

section \<open>Facts\<close>

lemma dims_get_set [simp]: "dims_get i (dims_set j v d) = (if i = j then v else dims_get i d)"
  by (cases i; cases j) simp_all

lemma length_dims_all [simp]: "length (dims_all d) = component_count"
  by (simp add: dims_all_def component_count_def)

lemma dims_all_indices: "dims_all d = map (\<lambda>i. dims_get i d) dimension_indices"
  by (simp add: dims_all_def dimension_indices_def)

lemma dims_eqI: "(\<And>i. dims_get i d = dims_get i d') \<Longrightarrow> d = (d' :: warmth_dimensions)"
proof -
  assume eq: "\<And>i. dims_get i d = dims_get i d'"
  show ?thesis
    using eq[of ArtifactAvailability] eq[of ArtifactValidation] eq[of ModelResidency] eq[of AdapterResidency] eq[of TokenizerReadiness] eq[of CudaContextReadiness] eq[of KernelReadiness] eq[of GraphReadiness] eq[of AllocatorReadiness] eq[of PrefixKvReuse] eq[of EngineReadiness] eq[of LocalDependencyReadiness]
    by simp
qed

lemma filter_all_length: "length (filter P xs) = length xs \<longleftrightarrow> (\<forall>x \<in> set xs. P x)"
  by (induction xs) (auto simp: le_imp_less_Suc less_imp_neq dest: le_neq_implies_less[OF length_filter_le])

lemma score_ge_3: "3 \<le> dimension_score s \<longleftrightarrow> s = D_READY \<or> s = D_VALID"
  by (cases s) simp_all

lemma set_dimension_indices [simp]: "set dimension_indices = UNIV"
proof -
  have "i \<in> set dimension_indices" for i by (cases i) (simp_all add: dimension_indices_def)
  then show ?thesis by blast
qed

lemma all_ready_iff: "all_ready d \<longleftrightarrow> (\<forall>i. dims_get i d = D_READY \<or> dims_get i d = D_VALID)"
  unfolding all_ready_def ready_count_def length_dims_all[of d, symmetric] filter_all_length
  by (simp add: dims_all_indices score_ge_3)

lemma any_suspect_iff: "any_suspect d \<longleftrightarrow> (\<exists>i. dims_get i d = D_SUSPECT)"
  by (auto simp: any_suspect_def dims_all_indices image_iff eq_commute)

section \<open>The composite level\<close>

lemma valid_count_iff: "valid_count d = component_count \<longleftrightarrow> (\<forall>i. dims_get i d = D_VALID)"
  unfolding valid_count_def length_dims_all[of d, symmetric] filter_all_length by (simp add: dims_all_indices)

lemma ready_count_iff: "ready_count d = component_count \<longleftrightarrow> (\<forall>i. dims_get i d \<in> {D_READY, D_VALID})"
  using all_ready_iff[of d] by (simp add: all_ready_def)

lemma ready_zero: "raw_score d = 0 \<Longrightarrow> ready_count d = 0"
  by (auto simp: raw_score_def ready_count_def)

lemma raw_score_zero_iff: "raw_score d = 0 \<longleftrightarrow> (\<forall>i. dimension_score (dims_get i d) = 0)"
  by (simp add: raw_score_def dims_all_indices)

lemma composite_hot_iff: "dims_composite_level d = C_HOT \<longleftrightarrow> (\<forall>i. dims_get i d = D_VALID)"
  by (simp add: dims_composite_level_def Let_def valid_count_iff[symmetric])

lemma composite_ready_iff:
  "dims_composite_level d = C_READY \<longleftrightarrow> (\<forall>i. dims_get i d \<in> {D_READY, D_VALID}) \<and> (\<exists>i. dims_get i d \<noteq> D_VALID)"
  unfolding ready_count_iff[symmetric] using valid_count_iff[of d] by (auto simp: dims_composite_level_def Let_def)

lemma composite_cold_iff: "dims_composite_level d = C_COLD \<longleftrightarrow> (\<forall>i. dimension_score (dims_get i d) = 0)"
proof -
  have "dims_composite_level d = C_COLD \<longleftrightarrow> valid_count d \<noteq> component_count \<and> ready_count d \<noteq> component_count
      \<and> ready_count d = 0 \<and> raw_score d = 0" by (auto simp: dims_composite_level_def Let_def)
  also have "\<dots> \<longleftrightarrow> raw_score d = 0"
  proof -
    have "valid_count d \<noteq> component_count" if "raw_score d = 0"
      using that by (metis raw_score_zero_iff valid_count_iff dimension_score.simps(5) zero_neq_numeral)
    then show ?thesis using ready_zero[of d] by (auto simp: component_count_def)
  qed
  finally show ?thesis by (simp add: raw_score_zero_iff)
qed

end
