(* ===== verification/Ieee_Double.thy ===== *)
theory Ieee_Double
  imports Prelude Complex_Main
begin

text \<open>
  The \<open>double\<close> of the C++ sources: IEEE 754 binary64 with round-to-nearest-even, represented
  by its bit pattern, so that the codecs (which \<open>memcpy\<close> a double into 64 bits) and the
  classification functions \<open>std::isnan\<close>, \<open>std::isinf\<close> are exact. A finite double is a whole
  number of units of \<open>2^-1074\<close>; arithmetic computes the exact rational result and rounds it.
  A NaN result is the canonical quiet NaN (its payload is not fixed by the language).
\<close>

section \<open>Representation\<close>

type_synonym double = u64

definition inf_mag :: nat where
  "inf_mag = 2047 * 2 ^ 52"

definition dbl_neg :: "double \<Rightarrow> bool" where
  "dbl_neg x \<longleftrightarrow> 2 ^ 63 \<le> unat x"

definition dbl_mag :: "double \<Rightarrow> nat" where
  "dbl_mag x = unat x mod 2 ^ 63"

definition isnan :: "double \<Rightarrow> bool" where
  "isnan x \<longleftrightarrow> inf_mag < dbl_mag x"

definition isinf :: "double \<Rightarrow> bool" where
  "isinf x \<longleftrightarrow> dbl_mag x = inf_mag"

definition isfinite :: "double \<Rightarrow> bool" where
  "isfinite x \<longleftrightarrow> dbl_mag x < inf_mag"

definition dbl_pack :: "bool \<Rightarrow> nat \<Rightarrow> double" where
  "dbl_pack neg m = of_nat ((if neg then 2 ^ 63 else 0) + m)"

definition dbl_nan :: double where
  "dbl_nan = dbl_pack False (inf_mag + 2 ^ 51)"

abbreviation dbl_zero :: double where
  "dbl_zero \<equiv> 0"

text \<open>The value of a magnitude in units of \<open>2^-1074\<close>.\<close>

definition mag_units :: "nat \<Rightarrow> nat" where
  "mag_units m = (let e = m div 2 ^ 52; f = m mod 2 ^ 52 in
     if e = 0 then f else (2 ^ 52 + f) * 2 ^ (e - 1))"

definition units_per_one :: rat where
  "units_per_one = 2 ^ 1074"

definition dbl_num :: "double \<Rightarrow> int" where
  "dbl_num x = (if dbl_neg x then - int (mag_units (dbl_mag x)) else int (mag_units (dbl_mag x)))"

definition dbl_val :: "double \<Rightarrow> rat" where
  "dbl_val x = of_int (dbl_num x) / units_per_one"

section \<open>Comparison\<close>

text \<open>Away from NaN, the order of the values is the order of the sign-and-magnitude integers.\<close>

definition dbl_key :: "double \<Rightarrow> int" where
  "dbl_key x = (if dbl_neg x then - int (dbl_mag x) else int (dbl_mag x))"

definition dbl_lt :: "double \<Rightarrow> double \<Rightarrow> bool" where
  "dbl_lt a b \<longleftrightarrow> \<not> isnan a \<and> \<not> isnan b \<and> dbl_key a < dbl_key b"

definition dbl_le :: "double \<Rightarrow> double \<Rightarrow> bool" where
  "dbl_le a b \<longleftrightarrow> \<not> isnan a \<and> \<not> isnan b \<and> dbl_key a \<le> dbl_key b"

definition dbl_eq :: "double \<Rightarrow> double \<Rightarrow> bool" where
  "dbl_eq a b \<longleftrightarrow> \<not> isnan a \<and> \<not> isnan b \<and> dbl_key a = dbl_key b"

section \<open>Rounding\<close>

fun ilog2 :: "nat \<Rightarrow> nat" where
  "ilog2 n = (if n < 2 then 0 else Suc (ilog2 (n div 2)))"

declare ilog2.simps [simp del]

definition rne :: "rat \<Rightarrow> int" where
  "rne q = (let f = \<lfloor>q\<rfloor>; r = q - of_int f in
     if r < 1 / 2 \<or> r = 1 / 2 \<and> even f then f else f + 1)"

text \<open>The magnitude nearest to a number of units \<open>u \<ge> 0\<close>: scale to 53 significant bits, round,
  and let a carry out of the fraction run into the exponent.\<close>

definition mag_round :: "rat \<Rightarrow> nat" where
  "mag_round u = (let k = ilog2 (nat \<lfloor>u\<rfloor>) - 52 in k * 2 ^ 52 + nat (rne (u / 2 ^ k)))"

definition dbl_rnd :: "bool \<Rightarrow> rat \<Rightarrow> double" where
  "dbl_rnd neg q = dbl_pack neg (min inf_mag (mag_round (q * units_per_one)))"

section \<open>Arithmetic\<close>

text \<open>A decimal literal, and a conversion from an integer.\<close>

definition dbl_lit :: "rat \<Rightarrow> double" where
  "dbl_lit q = dbl_rnd (q < 0) \<bar>q\<bar>"

definition dbl_of_int :: "int \<Rightarrow> double" where
  "dbl_of_int i = dbl_lit (of_int i)"

definition dbl_of_u64 :: "u64 \<Rightarrow> double" where
  "dbl_of_u64 w = dbl_of_int (uint w)"

definition dbl_add :: "double \<Rightarrow> double \<Rightarrow> double" where
  "dbl_add a b =
     (if isnan a \<or> isnan b then dbl_nan
      else if isinf a then (if isinf b \<and> dbl_neg a \<noteq> dbl_neg b then dbl_nan else a)
      else if isinf b then b
      else let s = dbl_val a + dbl_val b in
        if s = 0 then dbl_pack (dbl_neg a \<and> dbl_neg b) 0 else dbl_rnd (s < 0) \<bar>s\<bar>)"

definition dbl_mul :: "double \<Rightarrow> double \<Rightarrow> double" where
  "dbl_mul a b =
     (let s = (dbl_neg a \<noteq> dbl_neg b) in
      if isnan a \<or> isnan b then dbl_nan
      else if isinf a \<or> isinf b then
        (if dbl_mag a = 0 \<or> dbl_mag b = 0 then dbl_nan else dbl_pack s inf_mag)
      else dbl_rnd s \<bar>dbl_val a * dbl_val b\<bar>)"

definition dbl_div :: "double \<Rightarrow> double \<Rightarrow> double" where
  "dbl_div a b =
     (let s = (dbl_neg a \<noteq> dbl_neg b) in
      if isnan a \<or> isnan b then dbl_nan
      else if isinf a then (if isinf b then dbl_nan else dbl_pack s inf_mag)
      else if isinf b then dbl_pack s 0
      else if dbl_mag b = 0 then (if dbl_mag a = 0 then dbl_nan else dbl_pack s inf_mag)
      else dbl_rnd s \<bar>dbl_val a / dbl_val b\<bar>)"

section \<open>Basic facts\<close>

lemma isfinite_iff: "isfinite x \<longleftrightarrow> \<not> isnan x \<and> \<not> isinf x"
  by (auto simp: isfinite_def isnan_def isinf_def)

lemma unat_dbl_pack: "m < 2 ^ 63 \<Longrightarrow> unat (dbl_pack s m) = (if s then 2 ^ 63 else 0) + m"
  by (simp add: dbl_pack_def unat_of_nat del: of_nat_add)

lemma dbl_mag_pack [simp]: "m < 2 ^ 63 \<Longrightarrow> dbl_mag (dbl_pack s m) = m"
  by (simp add: dbl_mag_def unat_dbl_pack)

lemma dbl_neg_pack [simp]: "m < 2 ^ 63 \<Longrightarrow> dbl_neg (dbl_pack s m) = s"
  by (simp add: dbl_neg_def unat_dbl_pack)

lemma inf_mag_bound: "inf_mag < 2 ^ 63"
  by (simp add: inf_mag_def)

lemma min_inf_mag_bound: "min inf_mag m < 2 ^ 63"
  using inf_mag_bound by (rule min.strict_coboundedI1)

lemma dbl_mag_rnd [simp]: "dbl_mag (dbl_rnd s q) = min inf_mag (mag_round (q * units_per_one))"
  unfolding dbl_rnd_def using min_inf_mag_bound by (rule dbl_mag_pack)

lemma dbl_neg_rnd [simp]: "dbl_neg (dbl_rnd s q) = s"
  unfolding dbl_rnd_def using min_inf_mag_bound by (rule dbl_neg_pack)

lemma isnan_dbl_nan [simp]: "isnan dbl_nan"
  by (simp add: isnan_def dbl_nan_def inf_mag_def)

lemma dbl_rnd_not_nan [simp]: "\<not> isnan (dbl_rnd s q)"
  by (simp add: isnan_def)

lemma dbl_lit_not_nan [simp]: "\<not> isnan (dbl_lit q)"
  by (simp add: dbl_lit_def)

lemma dbl_of_int_not_nan [simp]: "\<not> isnan (dbl_of_int i)"
  by (simp add: dbl_of_int_def)

lemma zero_not_nan [simp]: "\<not> isnan dbl_zero"
  by (simp add: isnan_def dbl_mag_def inf_mag_def)

lemma dbl_key_zero [simp]: "dbl_key dbl_zero = 0"
  by (simp add: dbl_key_def dbl_mag_def)

lemma dbl_le_refl [simp]: "dbl_le a a \<longleftrightarrow> \<not> isnan a"
  by (simp add: dbl_le_def)

lemma dbl_le_trans: "dbl_le a b \<Longrightarrow> dbl_le b c \<Longrightarrow> dbl_le a c"
  by (auto simp: dbl_le_def)

lemma dbl_lt_le_trans: "dbl_lt a b \<Longrightarrow> dbl_le b c \<Longrightarrow> dbl_lt a c"
  by (auto simp: dbl_le_def dbl_lt_def)

lemma dbl_le_linear: "\<not> isnan a \<Longrightarrow> \<not> isnan b \<Longrightarrow> dbl_le a b \<or> dbl_le b a"
  by (auto simp: dbl_le_def)

lemma dbl_not_lt: "\<not> isnan a \<Longrightarrow> \<not> isnan b \<Longrightarrow> \<not> dbl_lt a b \<longleftrightarrow> dbl_le b a"
  by (auto simp: dbl_le_def dbl_lt_def)

section \<open>Rounding is monotone and exact on doubles\<close>

lemma ilog2_bounds: "0 < n \<Longrightarrow> 2 ^ ilog2 n \<le> n \<and> n < 2 ^ Suc (ilog2 n)"
proof (induction n rule: ilog2.induct)
  case (1 n)
  show ?case
  proof (cases "n < 2")
    case True
    with 1 show ?thesis by (simp add: ilog2.simps[of n])
  next
    case False
    then have "2 ^ ilog2 (n div 2) \<le> n div 2 \<and> n div 2 < 2 ^ Suc (ilog2 (n div 2))"
      by (intro 1) auto
    with False show ?thesis by (auto simp: ilog2.simps[of n])
  qed
qed

lemma ilog2_unique:
  assumes "2 ^ k \<le> n" "n < 2 ^ Suc k"
  shows "ilog2 n = k"
proof -
  have "0 < n" using assms(1) by (rule less_le_trans[rotated]) simp
  then have b: "2 ^ ilog2 n \<le> n" "n < 2 ^ Suc (ilog2 n)" using ilog2_bounds by auto
  have "(2::nat) ^ k < 2 ^ Suc (ilog2 n)" "(2::nat) ^ ilog2 n < 2 ^ Suc k"
    using assms b by linarith+
  then have "k < Suc (ilog2 n)" "ilog2 n < Suc k"
    by (simp_all only: power_strict_increasing_iff)
  then show ?thesis by simp
qed

lemma ilog2_mono: "m \<le> n \<Longrightarrow> ilog2 m \<le> ilog2 n"
proof (cases "m = 0")
  case False
  assume mn: "m \<le> n"
  with False have "2 ^ ilog2 m \<le> m" "n < 2 ^ Suc (ilog2 n)" using ilog2_bounds by auto
  with mn have "(2::nat) ^ ilog2 m < 2 ^ Suc (ilog2 n)" by linarith
  then have "ilog2 m < Suc (ilog2 n)" by (simp only: power_strict_increasing_iff)
  then show ?thesis by simp
qed (simp add: ilog2.simps[of 0])

lemma rne_cases: "rne q = \<lfloor>q\<rfloor> \<or> rne q = \<lfloor>q\<rfloor> + 1"
  by (auto simp: rne_def Let_def)

lemma rne_mono: "p \<le> q \<Longrightarrow> rne p \<le> rne q"
proof (cases "\<lfloor>p\<rfloor> = \<lfloor>q\<rfloor>")
  case True
  moreover assume "p \<le> q"
  ultimately show ?thesis by (auto simp: rne_def Let_def)
next
  case False
  assume "p \<le> q"
  then have "\<lfloor>p\<rfloor> \<le> \<lfloor>q\<rfloor>" by (rule floor_mono)
  with False have "\<lfloor>p\<rfloor> + 1 \<le> \<lfloor>q\<rfloor>" by simp
  then show ?thesis using rne_cases[of p] rne_cases[of q] by linarith
qed

lemma rne_of_int [simp]: "rne (of_int i) = i"
  by (simp add: rne_def)

lemma rne_of_nat [simp]: "rne (of_nat n) = int n"
  using rne_of_int[of "int n"] by simp

lemma scaled_upper:
  assumes "0 \<le> u"
  shows "rne (u / 2 ^ (ilog2 (nat \<lfloor>u\<rfloor>) - 52)) \<le> 2 ^ 53"
proof -
  define k where "k = ilog2 (nat \<lfloor>u\<rfloor>) - 52"
  have "nat \<lfloor>u\<rfloor> < 2 ^ Suc (ilog2 (nat \<lfloor>u\<rfloor>))"
    using ilog2_bounds[of "nat \<lfloor>u\<rfloor>"] by (cases "nat \<lfloor>u\<rfloor> = 0") auto
  also have "\<dots> \<le> 2 ^ (k + 53)" unfolding k_def by (intro power_increasing) auto
  finally have "\<lfloor>u\<rfloor> < 2 ^ (k + 53)" using assms by (simp add: nat_less_iff)
  then have "u < 2 ^ (k + 53)" by (metis floor_less_iff of_int_numeral of_int_power)
  then have "u / 2 ^ k \<le> 2 ^ 53" by (simp add: power_add field_simps)
  then have "rne (u / 2 ^ k) \<le> rne (of_int (2 ^ 53))" by (intro rne_mono) simp
  then show ?thesis unfolding k_def rne_of_int .
qed

lemma scaled_lower:
  assumes "0 < ilog2 (nat \<lfloor>u\<rfloor>) - 52"
  shows "2 ^ 52 \<le> rne (u / 2 ^ (ilog2 (nat \<lfloor>u\<rfloor>) - 52))"
proof -
  define k where "k = ilog2 (nat \<lfloor>u\<rfloor>) - 52"
  have pos: "nat \<lfloor>u\<rfloor> \<noteq> 0" using assms by (metis diff_is_0_eq ilog2.simps less_numeral_extra(3) le0 pos2)
  then have "2 ^ ilog2 (nat \<lfloor>u\<rfloor>) \<le> nat \<lfloor>u\<rfloor>" using ilog2_bounds by blast
  moreover have "ilog2 (nat \<lfloor>u\<rfloor>) = k + 52" using assms by (simp add: k_def)
  ultimately have "2 ^ (k + 52) \<le> \<lfloor>u\<rfloor>" using pos by (simp add: le_nat_iff)
  then have "2 ^ (k + 52) \<le> u" by (simp add: le_floor_iff)
  then have "2 ^ 52 \<le> u / 2 ^ k" by (simp add: power_add field_simps)
  then have "rne (of_int (2 ^ 52)) \<le> rne (u / 2 ^ k)" by (intro rne_mono) simp
  then show ?thesis unfolding k_def rne_of_int .
qed

lemma mag_round_mono:
  assumes "0 \<le> u" "u \<le> v"
  shows "mag_round u \<le> mag_round v"
proof -
  define a where "a = ilog2 (nat \<lfloor>u\<rfloor>) - 52"
  define b where "b = ilog2 (nat \<lfloor>v\<rfloor>) - 52"
  have mu: "mag_round u = a * 2 ^ 52 + nat (rne (u / 2 ^ a))"
    by (simp only: mag_round_def a_def Let_def)
  have mv: "mag_round v = b * 2 ^ 52 + nat (rne (v / 2 ^ b))"
    by (simp only: mag_round_def b_def Let_def)
  have "nat \<lfloor>u\<rfloor> \<le> nat \<lfloor>v\<rfloor>" using assms(2) by (intro nat_mono floor_mono)
  then have "a \<le> b" unfolding a_def b_def by (intro diff_le_mono ilog2_mono)
  then consider "a = b" | "a < b" by linarith
  then show ?thesis
  proof cases
    case 1
    have "rne (u / 2 ^ a) \<le> rne (v / 2 ^ a)"
      using assms(2) by (intro rne_mono divide_right_mono) simp_all
    then show ?thesis unfolding mu mv 1[symmetric] by (intro add_left_mono nat_mono)
  next
    case 2
    have "nat (rne (u / 2 ^ a)) \<le> 2 ^ 53"
      using scaled_upper[OF assms(1)] unfolding a_def by (simp add: nat_le_iff)
    moreover have "2 ^ 52 \<le> rne (v / 2 ^ b)"
      using 2 unfolding b_def by (intro scaled_lower) simp
    then have "2 ^ 52 \<le> nat (rne (v / 2 ^ b))" by (simp add: le_nat_iff)
    moreover have "(a + 1) * 2 ^ 52 \<le> b * 2 ^ 52" using 2 by (intro mult_le_mono1) simp
    ultimately show ?thesis unfolding mu mv by simp
  qed
qed

text \<open>Exactness: the units of a magnitude round to that magnitude.\<close>

lemma mag_round_units: "mag_round (of_nat (mag_units m)) = m"
proof (cases "m div 2 ^ 52 = 0")
  case True
  then have m: "m < 2 ^ 52" by (simp add: div_eq_0_iff)
  then have u: "mag_units m = m" by (simp add: mag_units_def)
  have "ilog2 m - 52 = 0"
  proof (cases "m = 0")
    case False
    then have "(2::nat) ^ ilog2 m < 2 ^ 52" using ilog2_bounds[of m] m by linarith
    then have "ilog2 m < 52" by (simp only: power_strict_increasing_iff)
    then show ?thesis by simp
  qed (simp add: ilog2.simps[of 0])
  then show ?thesis by (simp add: mag_round_def u)
next
  case False
  define e f where "e = m div 2 ^ 52" and "f = m mod 2 ^ 52"
  have f: "f < 2 ^ 52" by (simp add: f_def)
  have u: "mag_units m = (2 ^ 52 + f) * 2 ^ (e - 1)"
    using False by (simp add: mag_units_def e_def f_def Let_def)
  have "ilog2 (mag_units m) = 52 + (e - 1)"
  proof (rule ilog2_unique)
    show "2 ^ (52 + (e - 1)) \<le> mag_units m"
      unfolding u power_add by (intro mult_le_mono1) simp
    have "2 ^ 52 + f < 2 ^ 53" using f by simp
    then have "(2 ^ 52 + f) * 2 ^ (e - 1) < 2 ^ 53 * 2 ^ (e - 1)" by (intro mult_less_mono1) simp_all
    also have "\<dots> = 2 ^ Suc (52 + (e - 1))" by (simp add: power_add)
    finally show "mag_units m < 2 ^ Suc (52 + (e - 1))" unfolding u .
  qed
  then have k: "ilog2 (nat \<lfloor>of_nat (mag_units m) :: rat\<rfloor>) - 52 = e - 1" by simp
  have "of_nat (mag_units m) / 2 ^ (e - 1) = (of_nat (2 ^ 52 + f) :: rat)"
    unfolding u of_nat_mult by simp
  then have "mag_round (of_nat (mag_units m)) = (e - 1) * 2 ^ 52 + (2 ^ 52 + f)"
    unfolding mag_round_def Let_def k by (simp only: rne_of_nat nat_int)
  also have "\<dots> = e * 2 ^ 52 + f" using False unfolding e_def[symmetric] by (cases e) simp_all
  also have "\<dots> = m" by (simp add: e_def f_def)
  finally show ?thesis .
qed

lemma mag_units_mono: "m < n \<Longrightarrow> mag_units m < mag_units n"
proof (rule ccontr)
  assume "m < n" and "\<not> mag_units m < mag_units n"
  then have "mag_round (of_nat (mag_units n)) \<le> mag_round (of_nat (mag_units m))"
    by (intro mag_round_mono) simp_all
  with \<open>m < n\<close> show False by (simp add: mag_round_units)
qed


section \<open>Values, order and the operations\<close>

lemma units_per_one_pos [simp]: "0 < units_per_one"
  by (simp add: units_per_one_def)

lemma units_per_one_simps [simp]: "units_per_one \<noteq> 0" "\<not> units_per_one < 0"
  using units_per_one_pos by linarith+

lemma mag_units_0 [simp]: "mag_units 0 = 0"
  by (simp add: mag_units_def)

lemma mag_units_inject [simp]: "mag_units m = mag_units n \<longleftrightarrow> m = n"
  by (metis mag_round_units)

lemma mag_units_less [simp]: "mag_units m < mag_units n \<longleftrightarrow> m < n"
  by (metis mag_units_mono not_less_iff_gr_or_eq)

lemma mag_units_eq_0 [simp]: "mag_units m = 0 \<longleftrightarrow> m = 0"
  using mag_units_inject[of m 0] by (simp del: mag_units_inject)

lemma mag_units_pos [simp]: "0 < mag_units m \<longleftrightarrow> 0 < m"
  using mag_units_less[of 0 m] by (simp del: mag_units_less)

lemma neg_pos_less: "- int x < int y \<longleftrightarrow> 0 < x \<or> 0 < y"
  by linarith

lemma pos_neg_less: "\<not> int x < - int y"
  by linarith

lemma dbl_val_less_iff: "dbl_val a < dbl_val b \<longleftrightarrow> dbl_key a < dbl_key b"
proof -
  have "dbl_val a < dbl_val b \<longleftrightarrow> dbl_num a < dbl_num b"
    by (simp add: dbl_val_def divide_less_cancel)
  also have "\<dots> \<longleftrightarrow> dbl_key a < dbl_key b"
    by (cases "dbl_neg a"; cases "dbl_neg b")
      (simp_all add: dbl_key_def dbl_num_def neg_pos_less pos_neg_less)
  finally show ?thesis .
qed

lemma dbl_val_le_iff: "dbl_val a \<le> dbl_val b \<longleftrightarrow> dbl_key a \<le> dbl_key b"
  using dbl_val_less_iff[of b a] by (simp add: not_less[symmetric])

lemma dbl_lt_finite: "isfinite a \<Longrightarrow> isfinite b \<Longrightarrow> dbl_lt a b \<longleftrightarrow> dbl_val a < dbl_val b"
  by (simp add: dbl_lt_def isfinite_iff dbl_val_less_iff)

lemma dbl_le_finite: "isfinite a \<Longrightarrow> isfinite b \<Longrightarrow> dbl_le a b \<longleftrightarrow> dbl_val a \<le> dbl_val b"
  by (simp add: dbl_le_def isfinite_iff dbl_val_le_iff)

lemma dbl_val_zero [simp]: "dbl_val dbl_zero = 0"
  by (simp add: dbl_val_def dbl_num_def dbl_mag_def)

text \<open>Rounding a nonnegative number keeps the order.\<close>

lemma dbl_rnd_mono: "0 \<le> p \<Longrightarrow> p \<le> q \<Longrightarrow> dbl_le (dbl_rnd False p) (dbl_rnd False q)"
  using mag_round_mono[of "p * units_per_one" "q * units_per_one"]
  by (auto simp: dbl_le_def dbl_key_def min_le_iff_disj mult_right_mono less_imp_le)

text \<open>A finite double is its own rounding.\<close>

lemma dbl_pack_id: "dbl_pack (dbl_neg x) (dbl_mag x) = x"
proof -
  have "unat x < 2 ^ 64" using unsigned_less[of x, where ?'a = nat] by simp
  then have "(if dbl_neg x then 2 ^ 63 else 0) + dbl_mag x = unat x"
    by (auto simp: dbl_neg_def dbl_mag_def le_mod_geq)
  then show ?thesis by (simp add: dbl_pack_def del: of_nat_add)
qed

lemma dbl_rnd_exact:
  assumes "isfinite x"
  shows "dbl_rnd (dbl_neg x) \<bar>dbl_val x\<bar> = x"
proof -
  have "\<bar>dbl_val x\<bar> * units_per_one = of_nat (mag_units (dbl_mag x))"
    using units_per_one_pos by (simp add: dbl_val_def dbl_num_def abs_divide abs_of_pos)
  then have "mag_round (\<bar>dbl_val x\<bar> * units_per_one) = dbl_mag x" by (simp add: mag_round_units)
  moreover have "min inf_mag (dbl_mag x) = dbl_mag x" using assms by (simp add: isfinite_def)
  ultimately show ?thesis by (simp add: dbl_rnd_def dbl_pack_id)
qed


section \<open>Exactly representable numbers\<close>

text \<open>A number \<open>n * 2^k\<close> of units with \<open>n\<close> below \<open>2^53\<close> is a double.\<close>

lemma dyadic_mag:
  assumes "0 < n" "n < 2 ^ 53" "52 \<le> k" "k \<le> 2044"
  shows "\<exists>m < inf_mag. mag_units m = n * 2 ^ k"
proof -
  define p where "p = ilog2 n"
  have pn: "2 ^ p \<le> n" "n < 2 ^ Suc p" using ilog2_bounds[OF assms(1)] by (auto simp: p_def)
  have "(2::nat) ^ p < 2 ^ 53" using pn(1) assms(2) by linarith
  then have "p < 53" by (rule power_less_imp_less_exp[rotated]) simp
  then have p: "p \<le> 52" by simp
  define e f where "e = p + k - 51" and "f = n * 2 ^ (52 - p) - 2 ^ 52"
  have pow: "(2::nat) ^ p * 2 ^ (52 - p) = 2 ^ 52" using p by (simp only: power_add[symmetric]) simp
  have "2 ^ p * 2 ^ (52 - p) \<le> n * 2 ^ (52 - p)" using pn(1) by (intro mult_le_mono1)
  then have f1: "2 ^ 52 + f = n * 2 ^ (52 - p)" unfolding pow f_def by (rule le_add_diff_inverse)
  have "n * 2 ^ (52 - p) < 2 ^ Suc p * 2 ^ (52 - p)" using pn(2) by (intro mult_less_mono1) simp_all
  also have "\<dots> = 2 ^ 52 + 2 ^ 52" unfolding power_Suc mult.assoc pow by simp
  finally have f2: "f < 2 ^ 52" unfolding f1[symmetric] by simp
  define m where "m = e * 2 ^ 52 + f"
  have em: "m div 2 ^ 52 = e" "m mod 2 ^ 52 = f" using f2 by (simp_all add: m_def)
  have e: "e \<noteq> 0" "e \<le> 2045" using assms(3,4) p by (simp_all add: e_def)
  have "mag_units m = (2 ^ 52 + f) * 2 ^ (e - 1)" using e by (simp only: mag_units_def em Let_def if_False)
  also have "\<dots> = n * (2 ^ (52 - p) * 2 ^ (e - 1))" unfolding f1 by simp
  also have "(2::nat) ^ (52 - p) * 2 ^ (e - 1) = 2 ^ k"
    unfolding power_add[symmetric] using p assms(3) by (intro arg_cong[where f = "\<lambda>i. 2 ^ i"]) (simp add: e_def)
  finally have "mag_units m = n * 2 ^ k" .
  moreover have "e * 2 ^ 52 \<le> 2045 * 2 ^ 52" using e by (intro mult_le_mono1)
  then have "m < inf_mag" using f2 by (simp add: m_def inf_mag_def)
  ultimately show ?thesis by blast
qed

text \<open>Positive magnitudes with a known number of units.\<close>

lemma dbl_rnd_units:
  assumes "m < inf_mag" "q * units_per_one = of_nat (mag_units m)"
  shows "isfinite (dbl_rnd False q)" "dbl_val (dbl_rnd False q) = q"
proof -
  have mag: "dbl_mag (dbl_rnd False q) = m" using assms by (simp add: mag_round_units)
  then show "isfinite (dbl_rnd False q)" using assms(1) by (simp only: isfinite_def)
  have "dbl_val (dbl_rnd False q) = of_nat (mag_units m) / units_per_one"
    unfolding dbl_val_def dbl_num_def dbl_neg_rnd mag by simp
  then show "dbl_val (dbl_rnd False q) = q" unfolding assms(2)[symmetric] by simp
qed

lemma dyadic_rnd:
  assumes "n < 2 ^ 53" "j \<le> 1022"
  shows "isfinite (dbl_rnd False (of_nat n / 2 ^ j)) \<and> dbl_val (dbl_rnd False (of_nat n / 2 ^ j)) = of_nat n / 2 ^ j"
proof (cases "n = 0")
  case True
  then show ?thesis using dbl_rnd_units[of 0 0] by (simp add: inf_mag_def)
next
  case False
  have "52 \<le> 1074 - j" "1074 - j \<le> 2044" using assms(2) by linarith+
  then obtain m where m: "m < inf_mag" "mag_units m = n * 2 ^ (1074 - j)"
    using dyadic_mag[of n "1074 - j"] assms(1) neq0_conv[THEN iffD1, OF False] by blast
  have "(2::rat) ^ 1074 = 2 ^ j * 2 ^ (1074 - j)"
    using assms(2) by (simp only: power_add[symmetric]) simp
  then have "of_nat n / 2 ^ j * units_per_one = (of_nat (mag_units m) :: rat)"
    unfolding units_per_one_def m(2) of_nat_mult of_nat_power by (simp del: power_numeral)
  then show ?thesis using dbl_rnd_units[OF m(1)] by blast
qed

lemma dbl_of_nat:
  assumes "n < 2 ^ 53"
  shows "isfinite (dbl_of_int (int n))" "dbl_val (dbl_of_int (int n)) = of_nat n"
    "\<not> dbl_neg (dbl_of_int (int n))"
  using dyadic_rnd[OF assms, of 0] by (simp_all add: dbl_of_int_def dbl_lit_def)

lemma dbl_lit_numeral:
  assumes "numeral w < (2 ^ 53 :: nat)"
  shows "isfinite (dbl_lit (numeral w))" "dbl_val (dbl_lit (numeral w)) = numeral w"
    "\<not> dbl_neg (dbl_lit (numeral w))"
  using dbl_of_nat[OF assms] by (simp_all add: dbl_of_int_def)

lemma dbl_lit_one:
  "isfinite (dbl_lit 1)" "dbl_val (dbl_lit 1) = 1" "\<not> dbl_neg (dbl_lit 1)"
  using dbl_of_nat[of 1] by (simp_all add: dbl_of_int_def)

lemma isfinite_zero [simp]: "isfinite dbl_zero"
  by (simp add: isfinite_def dbl_mag_def inf_mag_def)

lemma dbl_mag_pos: "0 < dbl_val x \<Longrightarrow> dbl_mag x \<noteq> 0"
proof -
  have "dbl_mag x = 0 \<Longrightarrow> dbl_val x = 0" by (simp add: dbl_val_def dbl_num_def)
  then show "0 < dbl_val x \<Longrightarrow> dbl_mag x \<noteq> 0" by auto
qed

text \<open>Dividing finite nonnegative doubles rounds the quotient of their values.\<close>

lemma dbl_div_pos:
  assumes "isfinite a" "isfinite b" "\<not> dbl_neg a" "\<not> dbl_neg b" "0 < dbl_val b"
  shows "dbl_div a b = dbl_rnd False (dbl_val a / dbl_val b)"
proof -
  have "dbl_mag b \<noteq> 0" using assms(5) by (rule dbl_mag_pos)
  moreover have a: "0 \<le> dbl_val a" using assms(3) units_per_one_pos
    by (simp add: dbl_val_def dbl_num_def divide_nonneg_nonneg less_imp_le)
  ultimately show ?thesis
    using assms by (simp add: dbl_div_def isfinite_iff Let_def abs_of_nonneg)
qed

section \<open>Nonnegative numbers\<close>

definition dbl_nonneg :: "double \<Rightarrow> bool" where
  "dbl_nonneg x \<longleftrightarrow> \<not> isnan x \<and> \<not> dbl_neg x"

lemma dbl_nonneg_zero [simp]: "dbl_nonneg dbl_zero"
  by (simp add: dbl_nonneg_def dbl_neg_def)

lemma dbl_nonneg_lit [simp]: "0 \<le> q \<Longrightarrow> dbl_nonneg (dbl_lit q)"
  by (simp add: dbl_nonneg_def dbl_lit_def)

lemma dbl_nonneg_of_u64 [simp]: "dbl_nonneg (dbl_of_u64 w)"
  unfolding dbl_of_u64_def dbl_of_int_def
  by (rule dbl_nonneg_lit) (simp only: of_int_0_le_iff unsigned_greater_eq)

lemma dbl_val_nonneg: "dbl_nonneg a \<Longrightarrow> 0 \<le> dbl_val a"
  using dbl_val_le_iff[of dbl_zero a] unfolding dbl_val_zero dbl_key_zero
  by (simp add: dbl_nonneg_def dbl_key_def)

lemma dbl_le_inf: "dbl_nonneg a \<Longrightarrow> isinf b \<Longrightarrow> \<not> dbl_neg b \<Longrightarrow> dbl_le a b"
  by (auto simp: dbl_nonneg_def dbl_le_def dbl_key_def isinf_def isnan_def)

lemma dbl_add_nonneg:
  assumes "dbl_nonneg a" "dbl_nonneg b"
  shows "dbl_nonneg (dbl_add a b) \<and> dbl_le a (dbl_add a b) \<and> dbl_le b (dbl_add a b)"
proof (cases "isinf a \<or> isinf b")
  case True
  then show ?thesis using assms dbl_le_inf[of a b] dbl_le_inf[of b a]
    by (auto simp: dbl_add_def dbl_nonneg_def)
next
  case False
  have fin: "isfinite a" "isfinite b" using False assms by (auto simp: isfinite_iff dbl_nonneg_def)
  have vals: "0 \<le> dbl_val a" "0 \<le> dbl_val b" using assms by (simp_all add: dbl_val_nonneg)
  define s where "s = dbl_val a + dbl_val b"
  have ab: "a = dbl_rnd False (dbl_val a)" "b = dbl_rnd False (dbl_val b)"
    using dbl_rnd_exact[OF fin(1)] dbl_rnd_exact[OF fin(2)] assms vals by (simp_all add: dbl_nonneg_def)
  have le: "dbl_le a (dbl_rnd False s)" "dbl_le b (dbl_rnd False s)"
    using dbl_rnd_mono[of "dbl_val a" s] dbl_rnd_mono[of "dbl_val b" s] vals ab by (simp_all add: s_def)
  show ?thesis
  proof (cases "s = 0")
    case True
    then have "dbl_add a b = dbl_pack False 0" using False assms by (simp add: dbl_add_def dbl_nonneg_def flip: s_def)
    moreover have "dbl_val a = 0" "dbl_val b = 0" using True vals by (simp_all add: s_def)
    then have "a = dbl_rnd False 0" "b = dbl_rnd False 0" using ab by simp_all
    moreover have "dbl_rnd False 0 = dbl_pack False 0" using dbl_rnd_exact[of dbl_zero] by (simp add: dbl_neg_def dbl_pack_def)
    ultimately show ?thesis using assms by (simp add: dbl_nonneg_def)
  next
    case s: False
    then have "dbl_add a b = dbl_rnd False s" using False assms vals by (simp add: dbl_add_def dbl_nonneg_def flip: s_def) (simp add: s_def)
    then show ?thesis using le by (simp add: dbl_nonneg_def)
  qed
qed

lemma dbl_two64: "isfinite (dbl_rnd False (2 ^ 64))" "dbl_val (dbl_rnd False (2 ^ 64)) = 2 ^ 64"
proof -
  obtain m where m: "m < inf_mag" "mag_units m = 1 * 2 ^ (1074 + 64)" using dyadic_mag[of 1 "1074 + 64"] by auto
  have "2 ^ 64 * units_per_one = (of_nat (mag_units m) :: rat)"
    unfolding units_per_one_def m(2) by (simp only: power_add of_nat_mult of_nat_power of_nat_numeral of_nat_1 mult_1 mult.commute)
  from dbl_rnd_units[OF m(1) this] show "isfinite (dbl_rnd False (2 ^ 64))" "dbl_val (dbl_rnd False (2 ^ 64)) = 2 ^ 64" .
qed

lemma isfinite_of_u64: "isfinite (dbl_of_u64 w)"
proof -
  note big = dbl_two64
  have "uint w \<le> 2 ^ 64" using unsigned_less[of w, where ?'a = int] by simp
  then have "of_int (uint w) \<le> (of_int (2 ^ 64) :: rat)" by (rule of_int_le_iff[THEN iffD2])
  then have w: "of_int (uint w) \<le> (2 ^ 64 :: rat)" "0 \<le> (of_int (uint w) :: rat)"
    by (simp_all only: of_int_0_le_iff unsigned_greater_eq of_int_power of_int_numeral)
  have "dbl_le (dbl_rnd False (of_int (uint w))) (dbl_rnd False (2 ^ 64))" using w by (intro dbl_rnd_mono)
  then have "dbl_mag (dbl_rnd False (of_int (uint w))) \<le> dbl_mag (dbl_rnd False (2 ^ 64))"
    by (simp only: dbl_le_def dbl_key_def dbl_neg_rnd if_False of_nat_le_iff)
  then have "isfinite (dbl_rnd False (of_int (uint w)))" using big(1) unfolding isfinite_def by (rule le_less_trans)
  moreover have "dbl_of_u64 w = dbl_rnd False (of_int (uint w))"
    unfolding dbl_of_u64_def dbl_of_int_def dbl_lit_def using w(2) by (simp only: abs_of_nonneg linorder_not_less[THEN iffD2])
  ultimately show ?thesis by (simp only:)
qed

lemma dbl_add_zero_zero [simp]: "dbl_add dbl_zero dbl_zero = dbl_zero"
  by (simp add: dbl_add_def isinf_def dbl_mag_def inf_mag_def dbl_pack_def dbl_neg_def)

lemma dbl_of_u64_0 [simp]: "dbl_of_u64 0 = dbl_zero"
  using dbl_rnd_exact[of dbl_zero] by (simp add: dbl_of_u64_def dbl_of_int_def dbl_lit_def dbl_neg_def)

text \<open>A number between two dyadic ones rounds between them.\<close>

lemma dbl_rnd_between:
  assumes "m < 2 ^ 53" "n < 2 ^ 53" "i \<le> 1022" "j \<le> 1022" "of_nat m / 2 ^ i \<le> q" "q \<le> of_nat n / 2 ^ j"
  shows "isfinite (dbl_rnd False q)" "of_nat m / 2 ^ i \<le> dbl_val (dbl_rnd False q)"
    "dbl_val (dbl_rnd False q) \<le> of_nat n / 2 ^ j"
proof -
  note lo = dyadic_rnd[OF assms(1,3)] and hi = dyadic_rnd[OF assms(2,4)]
  have q: "0 \<le> q" using assms(5) by (rule order_trans[rotated]) simp
  have le: "dbl_le (dbl_rnd False (of_nat m / 2 ^ i)) (dbl_rnd False q)"
    using assms(5) by (intro dbl_rnd_mono) simp_all
  have ge: "dbl_le (dbl_rnd False q) (dbl_rnd False (of_nat n / 2 ^ j))"
    using assms(6) q by (intro dbl_rnd_mono)
  have "dbl_mag (dbl_rnd False q) \<le> dbl_mag (dbl_rnd False (of_nat n / 2 ^ j))"
    using ge by (simp only: dbl_le_def dbl_key_def dbl_neg_rnd if_False of_nat_le_iff)
  then show fin: "isfinite (dbl_rnd False q)" using hi unfolding isfinite_def by linarith
  show "of_nat m / 2 ^ i \<le> dbl_val (dbl_rnd False q)" using le lo fin by (metis dbl_le_finite)
  show "dbl_val (dbl_rnd False q) \<le> of_nat n / 2 ^ j" using ge hi fin by (metis dbl_le_finite)
qed

lemma isfinite_dbl_lit:
  assumes "\<bar>q\<bar> \<le> of_nat n" "n < 2 ^ 53"
  shows "isfinite (dbl_lit q)"
proof -
  have "isfinite (dbl_rnd False \<bar>q\<bar>)" using dbl_rnd_between(1)[of 0 n 0 0 "\<bar>q\<bar>"] assms by simp
  then show ?thesis by (simp add: dbl_lit_def isfinite_def dbl_mag_rnd)
qed

lemma dbl_mul_pos:
  assumes "dbl_nonneg a" "dbl_nonneg b" "isfinite a" "isfinite b"
  shows "dbl_mul a b = dbl_rnd False (dbl_val a * dbl_val b)"
  using assms dbl_val_nonneg[of a] dbl_val_nonneg[of b]
  by (simp add: dbl_mul_def dbl_nonneg_def isfinite_iff Let_def)

text \<open>Numbers of bounded absolute value: sums and products stay bounded, so they are never NaN.\<close>

definition dbl_within :: "nat \<Rightarrow> double \<Rightarrow> bool" where
  "dbl_within n x \<longleftrightarrow> isfinite x \<and> \<bar>dbl_val x\<bar> \<le> of_nat n"

lemma dbl_val_rnd_True: "dbl_val (dbl_rnd True q) = - dbl_val (dbl_rnd False q)"
  by (simp add: dbl_val_def dbl_num_def)

lemma dbl_within_rnd:
  assumes "0 \<le> q" "q \<le> of_nat n" "n < 2 ^ 53"
  shows "dbl_within n (dbl_rnd s q)"
proof -
  have "isfinite (dbl_rnd False q)" "0 \<le> dbl_val (dbl_rnd False q)" "dbl_val (dbl_rnd False q) \<le> of_nat n"
    using dbl_rnd_between[of 0 n 0 0 q] assms by simp_all
  then show ?thesis by (cases s) (simp_all add: dbl_within_def dbl_val_rnd_True isfinite_def)
qed

lemma dbl_within_zero [simp]: "dbl_within n dbl_zero"
  by (simp add: dbl_within_def dbl_val_def dbl_num_def dbl_mag_def)

lemma dbl_within_lit: "\<bar>q\<bar> \<le> of_nat n \<Longrightarrow> n < 2 ^ 53 \<Longrightarrow> dbl_within n (dbl_lit q)"
  by (simp add: dbl_lit_def dbl_within_rnd)

lemma dbl_within_mono: "dbl_within m x \<Longrightarrow> m \<le> n \<Longrightarrow> dbl_within n x"
  by (auto simp: dbl_within_def intro: order_trans)

lemma dbl_within_not_nan: "dbl_within n x \<Longrightarrow> \<not> isnan x"
  by (simp add: dbl_within_def isfinite_iff)

lemma dbl_within_mul:
  assumes "dbl_within m a" "dbl_within n b" "m * n < 2 ^ 53"
  shows "dbl_within (m * n) (dbl_mul a b)"
proof -
  have "\<bar>dbl_val a * dbl_val b\<bar> \<le> of_nat (m * n)"
    using assms(1,2) by (simp add: dbl_within_def abs_mult mult_mono)
  then show ?thesis using assms dbl_within_rnd[of "\<bar>dbl_val a * dbl_val b\<bar>" "m * n"]
    by (simp add: dbl_mul_def dbl_within_def isfinite_iff Let_def)
qed

lemma dbl_within_add:
  assumes "dbl_within m a" "dbl_within n b" "m + n < 2 ^ 53"
  shows "dbl_within (m + n) (dbl_add a b)"
proof (cases "dbl_val a + dbl_val b = 0")
  case True
  have "dbl_within (m + n) (dbl_pack s 0)" for s
    by (simp add: dbl_within_def isfinite_def inf_mag_def dbl_val_def dbl_num_def)
  then show ?thesis using assms True by (simp add: dbl_add_def dbl_within_def isfinite_iff Let_def)
next
  case False
  have "\<bar>dbl_val a + dbl_val b\<bar> \<le> of_nat (m + n)"
    using assms(1,2) abs_triangle_ineq[of "dbl_val a" "dbl_val b"] unfolding dbl_within_def of_nat_add by linarith
  then show ?thesis using assms False dbl_within_rnd[of "\<bar>dbl_val a + dbl_val b\<bar>" "m + n"]
    by (simp add: dbl_add_def dbl_within_def isfinite_iff Let_def)
qed

lemma dbl_nonneg_div:
  assumes "dbl_nonneg a" "dbl_nonneg b" "isfinite a" "dbl_mag b \<noteq> 0"
  shows "dbl_nonneg (dbl_div a b)"
  using assms by (auto simp: dbl_nonneg_def dbl_div_def Let_def isfinite_iff isnan_def inf_mag_def)

text \<open>Zero or a normal number, not negative, and at most \<open>n\<close>.\<close>

definition dbl_tidy :: "nat \<Rightarrow> double \<Rightarrow> bool" where
  "dbl_tidy n x \<longleftrightarrow> dbl_nonneg x \<and> dbl_within n x \<and> (x = dbl_zero \<or> 2 ^ 52 \<le> dbl_mag x)"

lemma dbl_tidy_zero [simp]: "dbl_tidy n dbl_zero"
  by (simp add: dbl_tidy_def)

lemma dbl_le_mag: "dbl_nonneg a \<Longrightarrow> dbl_nonneg b \<Longrightarrow> dbl_le a b \<Longrightarrow> dbl_mag a \<le> dbl_mag b"
  by (simp add: dbl_le_def dbl_key_def dbl_nonneg_def)

lemma dbl_tidy_add:
  assumes "dbl_tidy m a" "dbl_tidy n b" "m + n < 2 ^ 53"
  shows "dbl_tidy (m + n) (dbl_add a b)"
proof -
  have nn: "dbl_nonneg a" "dbl_nonneg b" and w: "dbl_within m a" "dbl_within n b" using assms by (simp_all add: dbl_tidy_def)
  note s = dbl_add_nonneg[OF nn]
  have "dbl_mag a \<le> dbl_mag (dbl_add a b)" "dbl_mag b \<le> dbl_mag (dbl_add a b)" using s nn by (blast intro: dbl_le_mag)+
  moreover have "dbl_add a b = dbl_zero" if "a = dbl_zero" "b = dbl_zero" using that by simp
  ultimately show ?thesis using assms s dbl_within_add[OF w assms(3)] unfolding dbl_tidy_def by (metis le_trans)
qed

text \<open>A number of at least \<open>2 ^ -k\<close> is normal.\<close>

lemma dbl_mag_normal:
  assumes "1 / 2 ^ k \<le> dbl_val x" "k \<le> 1022" "\<not> dbl_neg x"
  shows "2 ^ 52 \<le> dbl_mag x"
proof -
  have v: "dbl_val x = of_nat (mag_units (dbl_mag x)) / units_per_one" using assms(3) by (simp add: dbl_val_def dbl_num_def)
  have "units_per_one = 2 ^ k * 2 ^ (1074 - k)"
    unfolding units_per_one_def using assms(2) by (simp only: power_add[symmetric]) simp
  then have "2 ^ (1074 - k) \<le> (of_nat (mag_units (dbl_mag x)) :: rat)"
  proof -
    have "units_per_one / 2 ^ k = 2 ^ (1074 - k)" unfolding \<open>units_per_one = _\<close> by simp
    moreover have "units_per_one / 2 ^ k \<le> of_nat (mag_units (dbl_mag x))"
      using assms(1) units_per_one_pos unfolding v by (simp add: pos_le_divide_eq)
    ultimately show ?thesis by (simp only:)
  qed
  moreover have "(2::rat) ^ 52 \<le> 2 ^ (1074 - k)" using assms(2) by (intro power_increasing) simp_all
  moreover have "mag_units (2 ^ 52) = 2 ^ 52" by (simp add: mag_units_def)
  ultimately have "of_nat (mag_units (2 ^ 52)) \<le> (of_nat (mag_units (dbl_mag x)) :: rat)"
    by (simp only: of_nat_power of_nat_numeral)
  then have "mag_units (2 ^ 52) \<le> mag_units (dbl_mag x)" by (simp only: of_nat_le_iff)
  then show ?thesis by (metis mag_units_less not_less)
qed

lemma dbl_tidy_lit: "numeral w \<le> n \<Longrightarrow> n < 2 ^ 53 \<Longrightarrow> dbl_tidy n (dbl_lit (numeral w))"
proof -
  assume n: "numeral w \<le> n" "n < 2 ^ 53"
  then have "numeral w < (2 ^ 53 :: nat)" by linarith
  note l = dbl_lit_numeral[OF this]
  have "(1::rat) / 2 ^ 0 \<le> numeral w" by simp
  then have "2 ^ 52 \<le> dbl_mag (dbl_lit (numeral w))" using l by (intro dbl_mag_normal[of 0]) simp_all
  moreover have "(numeral w :: rat) \<le> of_nat n" using n(1) by (metis of_nat_le_iff of_nat_numeral)
  ultimately show ?thesis using l by (simp add: dbl_tidy_def dbl_within_def)
qed

lemma dbl_of_u64_bounds:
  "dbl_val (dbl_of_u64 w) \<le> 2 ^ 64" "w \<noteq> 0 \<Longrightarrow> 1 \<le> dbl_val (dbl_of_u64 w)"
proof -
  note big = dbl_two64
  have one: "isfinite (dbl_rnd False 1)" "dbl_val (dbl_rnd False 1) = 1" using dyadic_rnd[of 1 0] by simp_all
  define n where "n = unat w"
  have "dbl_of_u64 w = dbl_of_int (int n)" by (simp add: dbl_of_u64_def n_def)
  then have w: "dbl_of_u64 w = dbl_rnd False (of_nat n)" by (simp add: dbl_of_int_def dbl_lit_def)
  have "n < 2 ^ 64" using unsigned_less[of w, where ?'a = nat] by (simp add: n_def)
  then have "of_nat n \<le> (of_nat (2 ^ 64) :: rat)" by (simp only: of_nat_le_iff less_imp_le)
  then have "dbl_le (dbl_of_u64 w) (dbl_rnd False (2 ^ 64))" unfolding w by (intro dbl_rnd_mono) simp_all
  then show "dbl_val (dbl_of_u64 w) \<le> 2 ^ 64" using dbl_le_finite[OF isfinite_of_u64 big(1)] big(2) by simp
  show "1 \<le> dbl_val (dbl_of_u64 w)" if "w \<noteq> 0"
  proof -
    have "0 < n" using that by (simp add: n_def unat_gt_0)
    then have "dbl_le (dbl_rnd False 1) (dbl_of_u64 w)" unfolding w by (intro dbl_rnd_mono) simp_all
    then show ?thesis using dbl_le_finite[OF one(1) isfinite_of_u64] one(2) by simp
  qed
qed

lemma dbl_tidy_of_u64:
  assumes "unat w \<le> n" "n < 2 ^ 53"
  shows "dbl_tidy n (dbl_of_u64 w)"
proof (cases "w = 0")
  case False
  define m where "m = unat w"
  have "m < 2 ^ 53" using assms by (simp add: m_def)
  note l = dbl_of_nat[OF this]
  have u: "dbl_of_u64 w = dbl_of_int (int m)" by (simp add: dbl_of_u64_def m_def)
  have "2 ^ 52 \<le> dbl_mag (dbl_of_u64 w)" using dbl_of_u64_bounds(2)[OF False] l(3) by (intro dbl_mag_normal[of 0]) (simp_all add: u)
  moreover have "m \<le> n" using assms(1) by (simp add: m_def)
  then have "(of_nat m :: rat) \<le> of_nat n" by (simp only: of_nat_le_iff)
  ultimately show ?thesis using l by (simp add: dbl_tidy_def dbl_within_def u dbl_nonneg_def isfinite_iff)
qed simp

section \<open>Printing\<close>

text \<open>\<open>std::to_string(double)\<close>, that is \<open>%f\<close>: the exact value to six decimals, ties to even.\<close>

fun nat_digits :: "nat \<Rightarrow> string" where
  "nat_digits n = (if n < 10 then [char_of (n + 48)] else nat_digits (n div 10) @ [char_of (n mod 10 + 48)])"

declare nat_digits.simps [simp del]

definition dbl_to_string :: "double \<Rightarrow> string" where
  "dbl_to_string x = (if dbl_neg x then ''-'' else []) @
     (if isnan x then ''nan'' else if isinf x then ''inf''
      else let n = nat (rne (\<bar>dbl_val x\<bar> * 10 ^ 6)); d = nat_digits (n mod 10 ^ 6)
           in nat_digits (n div 10 ^ 6) @ ''.'' @ replicate (6 - length d) (CHR ''0'') @ d)"

end
