(* ===== verification/Warmth_Object.thy ===== *)
theory Warmth_Object
  imports Identity Warmth_Dimensions Ieee_Double
begin

text \<open>
  The warmth object of \<open>include/warmth/warmth_object.hpp\<close>, with the enumerations it carries and
  the clock arithmetic of \<open>include/warmth/time.hpp\<close>. Plain getters and setters are the record's own
  selectors and updates; operations that guard, clamp or select are definitions.
\<close>

section \<open>Enumerations\<close>

datatype warmth_category = MODEL_WEIGHTS
  | ADAPTERS
  | TOKENIZER_RUNTIME
  | KV_PREFIX_STATE
  | KERNEL_ARTIFACTS
  | LOADED_KERNEL_MODULES
  | EXECUTION_GRAPHS
  | ALLOCATOR_POOLS
  | CUDA_CONTEXT_DEVICE
  | ENGINE_RUNTIME_PROCESS
  | PERSISTENT_RUNTIME_CACHE
  | APPLICATION_DEFINED

fun category_code :: "warmth_category \<Rightarrow> u8" where
  "category_code MODEL_WEIGHTS = 0"
| "category_code ADAPTERS = 1"
| "category_code TOKENIZER_RUNTIME = 2"
| "category_code KV_PREFIX_STATE = 3"
| "category_code KERNEL_ARTIFACTS = 4"
| "category_code LOADED_KERNEL_MODULES = 5"
| "category_code EXECUTION_GRAPHS = 6"
| "category_code ALLOCATOR_POOLS = 7"
| "category_code CUDA_CONTEXT_DEVICE = 8"
| "category_code ENGINE_RUNTIME_PROCESS = 9"
| "category_code PERSISTENT_RUNTIME_CACHE = 10"
| "category_code APPLICATION_DEFINED = 11"

definition category_list :: "warmth_category list" where
  "category_list =
    [MODEL_WEIGHTS, ADAPTERS, TOKENIZER_RUNTIME, KV_PREFIX_STATE, KERNEL_ARTIFACTS,
     LOADED_KERNEL_MODULES, EXECUTION_GRAPHS, ALLOCATOR_POOLS, CUDA_CONTEXT_DEVICE,
     ENGINE_RUNTIME_PROCESS, PERSISTENT_RUNTIME_CACHE, APPLICATION_DEFINED]"

definition category_of_code :: "u8 \<Rightarrow> warmth_category option" where
  "category_of_code = enum_of category_list"

interpretation category_enum: byte_enum category_code category_of_code
  unfolding category_of_code_def
proof (rule byte_enum_enum_of)
  fix x show "unat (category_code x) < length category_list \<and> category_list ! unat (category_code x) = x"
    by (cases x) (simp_all add: category_list_def)
qed (simp add: category_list_def)

fun category_name :: "warmth_category \<Rightarrow> string" where
  "category_name MODEL_WEIGHTS = ''MODEL_WEIGHTS''"
| "category_name ADAPTERS = ''ADAPTERS''"
| "category_name TOKENIZER_RUNTIME = ''TOKENIZER_RUNTIME''"
| "category_name KV_PREFIX_STATE = ''KV_PREFIX_STATE''"
| "category_name KERNEL_ARTIFACTS = ''KERNEL_ARTIFACTS''"
| "category_name LOADED_KERNEL_MODULES = ''LOADED_KERNEL_MODULES''"
| "category_name EXECUTION_GRAPHS = ''EXECUTION_GRAPHS''"
| "category_name ALLOCATOR_POOLS = ''ALLOCATOR_POOLS''"
| "category_name CUDA_CONTEXT_DEVICE = ''CUDA_CONTEXT_DEVICE''"
| "category_name ENGINE_RUNTIME_PROCESS = ''ENGINE_RUNTIME_PROCESS''"
| "category_name PERSISTENT_RUNTIME_CACHE = ''PERSISTENT_RUNTIME_CACHE''"
| "category_name APPLICATION_DEFINED = ''APPLICATION_DEFINED''"

datatype residency_state = R_NONE
  | R_STORAGE_ONLY
  | R_HOST_ONLY
  | R_DEVICE_RESIDENT
  | R_MIRRORED

fun residency_code :: "residency_state \<Rightarrow> u8" where
  "residency_code R_NONE = 0"
| "residency_code R_STORAGE_ONLY = 1"
| "residency_code R_HOST_ONLY = 2"
| "residency_code R_DEVICE_RESIDENT = 3"
| "residency_code R_MIRRORED = 4"

definition residency_list :: "residency_state list" where
  "residency_list =
    [R_NONE, R_STORAGE_ONLY, R_HOST_ONLY, R_DEVICE_RESIDENT, R_MIRRORED]"

definition residency_of_code :: "u8 \<Rightarrow> residency_state option" where
  "residency_of_code = enum_of residency_list"

interpretation residency_enum: byte_enum residency_code residency_of_code
  unfolding residency_of_code_def
proof (rule byte_enum_enum_of)
  fix x show "unat (residency_code x) < length residency_list \<and> residency_list ! unat (residency_code x) = x"
    by (cases x) (simp_all add: residency_list_def)
qed (simp add: residency_list_def)

fun residency_name :: "residency_state \<Rightarrow> string" where
  "residency_name R_NONE = ''NONE''"
| "residency_name R_STORAGE_ONLY = ''STORAGE_ONLY''"
| "residency_name R_HOST_ONLY = ''HOST_ONLY''"
| "residency_name R_DEVICE_RESIDENT = ''DEVICE_RESIDENT''"
| "residency_name R_MIRRORED = ''MIRRORED''"

datatype lifecycle = LC_NOT_STARTED
  | LC_ADMITTED
  | LC_PREPARING
  | LC_READY
  | LC_COOLING
  | LC_EVICTING
  | LC_TERMINATED

fun lifecycle_code :: "lifecycle \<Rightarrow> u8" where
  "lifecycle_code LC_NOT_STARTED = 0"
| "lifecycle_code LC_ADMITTED = 1"
| "lifecycle_code LC_PREPARING = 2"
| "lifecycle_code LC_READY = 3"
| "lifecycle_code LC_COOLING = 4"
| "lifecycle_code LC_EVICTING = 5"
| "lifecycle_code LC_TERMINATED = 6"

definition lifecycle_list :: "lifecycle list" where
  "lifecycle_list =
    [LC_NOT_STARTED, LC_ADMITTED, LC_PREPARING, LC_READY, LC_COOLING, LC_EVICTING,
     LC_TERMINATED]"

definition lifecycle_of_code :: "u8 \<Rightarrow> lifecycle option" where
  "lifecycle_of_code = enum_of lifecycle_list"

interpretation lifecycle_enum: byte_enum lifecycle_code lifecycle_of_code
  unfolding lifecycle_of_code_def
proof (rule byte_enum_enum_of)
  fix x show "unat (lifecycle_code x) < length lifecycle_list \<and> lifecycle_list ! unat (lifecycle_code x) = x"
    by (cases x) (simp_all add: lifecycle_list_def)
qed (simp add: lifecycle_list_def)

fun lifecycle_name :: "lifecycle \<Rightarrow> string" where
  "lifecycle_name LC_NOT_STARTED = ''NOT_STARTED''"
| "lifecycle_name LC_ADMITTED = ''ADMITTED''"
| "lifecycle_name LC_PREPARING = ''PREPARING''"
| "lifecycle_name LC_READY = ''READY''"
| "lifecycle_name LC_COOLING = ''COOLING''"
| "lifecycle_name LC_EVICTING = ''EVICTING''"
| "lifecycle_name LC_TERMINATED = ''TERMINATED''"

datatype provenance = P_LOCAL
  | P_COORDINATOR
  | P_DERIVED
  | P_REPORTED
  | P_MEASURED

fun provenance_code :: "provenance \<Rightarrow> u8" where
  "provenance_code P_LOCAL = 0"
| "provenance_code P_COORDINATOR = 1"
| "provenance_code P_DERIVED = 2"
| "provenance_code P_REPORTED = 3"
| "provenance_code P_MEASURED = 4"

definition provenance_list :: "provenance list" where
  "provenance_list =
    [P_LOCAL, P_COORDINATOR, P_DERIVED, P_REPORTED, P_MEASURED]"

definition provenance_of_code :: "u8 \<Rightarrow> provenance option" where
  "provenance_of_code = enum_of provenance_list"

interpretation provenance_enum: byte_enum provenance_code provenance_of_code
  unfolding provenance_of_code_def
proof (rule byte_enum_enum_of)
  fix x show "unat (provenance_code x) < length provenance_list \<and> provenance_list ! unat (provenance_code x) = x"
    by (cases x) (simp_all add: provenance_list_def)
qed (simp add: provenance_list_def)

fun provenance_name :: "provenance \<Rightarrow> string" where
  "provenance_name P_LOCAL = ''LOCAL''"
| "provenance_name P_COORDINATOR = ''COORDINATOR''"
| "provenance_name P_DERIVED = ''DERIVED''"
| "provenance_name P_REPORTED = ''REPORTED''"
| "provenance_name P_MEASURED = ''MEASURED''"

datatype dependency_kind = K_MODEL
  | K_ADAPTER_SET
  | K_MASK_TOKENIZER
  | K_KERNEL_SET
  | K_GRAPH_SET
  | K_RUNTIME
  | K_COMPILER
  | K_COMPUTE_CAPABILITY
  | K_DEVICE
  | K_POLICY
  | K_REPLICA
  | K_WORKER_BOOT

fun dep_code :: "dependency_kind \<Rightarrow> u8" where
  "dep_code K_MODEL = 0"
| "dep_code K_ADAPTER_SET = 1"
| "dep_code K_MASK_TOKENIZER = 2"
| "dep_code K_KERNEL_SET = 3"
| "dep_code K_GRAPH_SET = 4"
| "dep_code K_RUNTIME = 5"
| "dep_code K_COMPILER = 6"
| "dep_code K_COMPUTE_CAPABILITY = 7"
| "dep_code K_DEVICE = 8"
| "dep_code K_POLICY = 9"
| "dep_code K_REPLICA = 10"
| "dep_code K_WORKER_BOOT = 11"

definition dep_list :: "dependency_kind list" where
  "dep_list =
    [K_MODEL, K_ADAPTER_SET, K_MASK_TOKENIZER, K_KERNEL_SET, K_GRAPH_SET, K_RUNTIME,
     K_COMPILER, K_COMPUTE_CAPABILITY, K_DEVICE, K_POLICY, K_REPLICA, K_WORKER_BOOT]"

definition dep_of_code :: "u8 \<Rightarrow> dependency_kind option" where
  "dep_of_code = enum_of dep_list"

interpretation dep_enum: byte_enum dep_code dep_of_code
  unfolding dep_of_code_def
proof (rule byte_enum_enum_of)
  fix x show "unat (dep_code x) < length dep_list \<and> dep_list ! unat (dep_code x) = x"
    by (cases x) (simp_all add: dep_list_def)
qed (simp add: dep_list_def)

fun dependency_name :: "dependency_kind \<Rightarrow> string" where
  "dependency_name K_MODEL = ''model''"
| "dependency_name K_ADAPTER_SET = ''adapter_set''"
| "dependency_name K_MASK_TOKENIZER = ''tokenizer''"
| "dependency_name K_KERNEL_SET = ''kernel_set''"
| "dependency_name K_GRAPH_SET = ''graph_set''"
| "dependency_name K_RUNTIME = ''runtime''"
| "dependency_name K_COMPILER = ''compiler''"
| "dependency_name K_COMPUTE_CAPABILITY = ''compute_capability''"
| "dependency_name K_DEVICE = ''device''"
| "dependency_name K_POLICY = ''policy''"
| "dependency_name K_REPLICA = ''replica''"
| "dependency_name K_WORKER_BOOT = ''worker_boot''"

text \<open>Dependency kinds are ordered by their numeric value, the order in which both codecs write them.\<close>

instantiation dependency_kind :: linorder
begin

definition less_eq_dependency_kind :: "dependency_kind \<Rightarrow> dependency_kind \<Rightarrow> bool" where
  "less_eq_dependency_kind a b \<longleftrightarrow> dep_code a \<le> dep_code b"

definition less_dependency_kind :: "dependency_kind \<Rightarrow> dependency_kind \<Rightarrow> bool" where
  "less_dependency_kind a b \<longleftrightarrow> dep_code a < dep_code b"

instance
  by standard
    (auto simp: less_eq_dependency_kind_def less_dependency_kind_def simp flip: dep_enum.code_inject)

end

section \<open>Time\<close>

text \<open>Timestamps are signed 64-bit milliseconds; the difference is taken in two's complement.\<close>

type_synonym timestamp = u64

definition elapsed_seconds :: "timestamp \<Rightarrow> timestamp \<Rightarrow> double" where
  "elapsed_seconds start end =
     (let d = sint (end - start) in if d \<le> 0 then dbl_zero else dbl_div (dbl_of_int d) (dbl_lit 1000))"

section \<open>The object\<close>

record warmth_object =
  wo_id :: id128
  wo_category :: warmth_category
  wo_workload :: id128
  wo_node :: id128
  wo_device :: string
  wo_backend :: string
  wo_logical_owner :: string
  wo_model :: "id128 option"
  wo_artifact :: "id128 option"
  wo_replica :: "id128 option"
  wo_engine :: "id128 option"
  wo_state :: warmth_state
  wo_state_change_reason :: string
  wo_dims :: warmth_dimensions
  wo_last_prepared :: timestamp
  wo_last_used :: timestamp
  wo_estimated_cost_bytes :: u64
  wo_measured_cost_bytes :: u64
  wo_estimated_ttr_ms :: double
  wo_observed_ttr_ms :: double
  wo_residency :: residency_state
  wo_lifecycle :: lifecycle
  wo_confidence :: double
  wo_freshness :: double
  wo_warmth_gen :: generation
  wo_dep_gens :: "(dependency_kind, generation) std_map"
  wo_invalidation_reason :: "string option"
  wo_provenance :: provenance

definition new_object ::
  "id128 \<Rightarrow> warmth_category \<Rightarrow> id128 \<Rightarrow> id128 \<Rightarrow> string \<Rightarrow> string \<Rightarrow> warmth_object" where
  "new_object i cat wl nd dev be = \<lparr>wo_id = i, wo_category = cat, wo_workload = wl, wo_node = nd,
     wo_device = dev, wo_backend = be, wo_logical_owner = [],
     wo_model = None, wo_artifact = None, wo_replica = None, wo_engine = None,
     wo_state = COLD, wo_state_change_reason = [], wo_dims = dims_default,
     wo_last_prepared = 0, wo_last_used = 0, wo_estimated_cost_bytes = 0, wo_measured_cost_bytes = 0,
     wo_estimated_ttr_ms = dbl_zero, wo_observed_ttr_ms = dbl_zero,
     wo_residency = R_NONE, wo_lifecycle = LC_NOT_STARTED,
     wo_confidence = dbl_zero, wo_freshness = dbl_zero,
     wo_warmth_gen = 0, wo_dep_gens = [], wo_invalidation_reason = None, wo_provenance = P_LOCAL\<rparr>"

text \<open>The guarded transition: the returned flag, and the object, unchanged when the flag is false.\<close>

definition transition :: "warmth_state \<Rightarrow> string \<Rightarrow> warmth_object \<Rightarrow> bool \<times> warmth_object" where
  "transition to reason o' =
     (if \<not> transition_allowed (wo_state o') to then (False, o')
      else (True, o'\<lparr>wo_state := to, wo_state_change_reason := reason\<rparr>))"

text \<open>A transition whose flag is discarded.\<close>

abbreviation try_transition :: "warmth_state \<Rightarrow> string \<Rightarrow> warmth_object \<Rightarrow> warmth_object" where
  "try_transition to reason o' \<equiv> snd (transition to reason o')"

definition restore_state :: "warmth_state \<Rightarrow> string \<Rightarrow> warmth_object \<Rightarrow> warmth_object" where
  "restore_state to reason o' = o'\<lparr>wo_state := to, wo_state_change_reason := reason\<rparr>"

definition level :: "warmth_object \<Rightarrow> warmth_level" where
  "level o' = to_level (wo_state o')"

definition set_dimension :: "dimension_index \<Rightarrow> dimension_status \<Rightarrow> warmth_object \<Rightarrow> warmth_object" where
  "set_dimension i v o' = o'\<lparr>wo_dims := dims_set i v (wo_dims o')\<rparr>"

definition dimension :: "dimension_index \<Rightarrow> warmth_object \<Rightarrow> dimension_status" where
  "dimension i o' = dims_get i (wo_dims o')"

definition obj_composite_level :: "warmth_object \<Rightarrow> composite_level" where
  "obj_composite_level o' = dims_composite_level (wo_dims o')"

definition clamp_unit :: "double \<Rightarrow> double" where
  "clamp_unit v = (if dbl_lt v dbl_zero then dbl_zero else if dbl_lt (dbl_lit 1) v then dbl_lit 1 else v)"

definition set_confidence :: "double \<Rightarrow> warmth_object \<Rightarrow> warmth_object" where
  "set_confidence c o' = o'\<lparr>wo_confidence := clamp_unit c\<rparr>"

definition set_freshness :: "double \<Rightarrow> warmth_object \<Rightarrow> warmth_object" where
  "set_freshness f o' = o'\<lparr>wo_freshness := clamp_unit f\<rparr>"

definition set_dependency_generation ::
  "dependency_kind \<Rightarrow> generation \<Rightarrow> warmth_object \<Rightarrow> warmth_object" where
  "set_dependency_generation k g o' = o'\<lparr>wo_dep_gens := map_set k g (wo_dep_gens o')\<rparr>"

definition dependency_generation :: "dependency_kind \<Rightarrow> warmth_object \<Rightarrow> generation option" where
  "dependency_generation k o' = map_find k (wo_dep_gens o')"

definition execution_ready :: "warmth_object \<Rightarrow> bool" where
  "execution_ready o' = is_execution_ready (wo_state o')"

section \<open>Facts\<close>

lemma transition_flag [simp]: "fst (transition to r o') = transition_allowed (wo_state o') to"
  by (simp add: transition_def)

lemma wo_state_try_transition [simp]:
  "wo_state (try_transition to r o') = (if transition_allowed (wo_state o') to then to else wo_state o')"
  by (simp add: transition_def)

lemma try_transition_frame [simp, frame]:
  "wo_id (try_transition to r o') = wo_id o'"
  "wo_dims (try_transition to r o') = wo_dims o'"
  "wo_residency (try_transition to r o') = wo_residency o'"
  "wo_invalidation_reason (try_transition to r o') = wo_invalidation_reason o'"
  "wo_provenance (try_transition to r o') = wo_provenance o'"
  "wo_warmth_gen (try_transition to r o') = wo_warmth_gen o'"
  by (simp_all add: transition_def)

lemma set_dimension_frame [simp, frame]:
  "wo_id (set_dimension i v o') = wo_id o'"
  "wo_state (set_dimension i v o') = wo_state o'"
  "wo_residency (set_dimension i v o') = wo_residency o'"
  "wo_invalidation_reason (set_dimension i v o') = wo_invalidation_reason o'"
  "wo_provenance (set_dimension i v o') = wo_provenance o'"
  by (simp_all add: set_dimension_def)

lemma dimension_set_dimension [simp]:
  "dimension i (set_dimension j v o') = (if i = j then v else dimension i o')"
  by (simp add: dimension_def set_dimension_def)

lemma new_object_simps [simp]:
  "wo_id (new_object i c w n d b) = i" "wo_state (new_object i c w n d b) = COLD"
  "wo_invalidation_reason (new_object i c w n d b) = None"
  by (simp_all add: new_object_def)


subsection \<open>Elapsed time\<close>

lemma elapsed_seconds_pos:
  assumes "0 < sint (b - a)" "sint (b - a) < 2 ^ 53"
  shows "elapsed_seconds a b = dbl_rnd False (of_int (sint (b - a)) / 1000)"
proof -
  obtain n where n: "sint (b - a) = int n" "n < 2 ^ 53"
    using assms by (metis nat_less_iff nat_0_le of_nat_numeral of_nat_power order_less_le zero_less_imp_eq_int of_nat_less_iff)
  note d = dbl_of_nat[OF n(2)]
  have t: "isfinite (dbl_lit 1000)" "dbl_val (dbl_lit 1000) = 1000" "\<not> dbl_neg (dbl_lit 1000)"
    using dbl_lit_numeral[of "Num.Bit0 (Num.Bit0 (Num.Bit0 (Num.Bit1 (Num.Bit0 (Num.Bit1 (Num.Bit1 (Num.Bit1 (Num.Bit1 Num.One))))))))"]
    by simp_all
  show ?thesis
    using assms(1) dbl_div_pos[OF d(1) t(1) d(3) t(3)] t d by (simp add: elapsed_seconds_def n)
qed

text \<open>The comparison with a whole number of seconds is exact: floating-point rounding never
  makes an object idle for longer or shorter than it is.\<close>

lemma elapsed_threshold:
  assumes "sint (b - a) < 2 ^ 53" "0 < s" "s < 2 ^ 42"
  shows "dbl_le (dbl_of_int (int s)) (elapsed_seconds a b) \<longleftrightarrow> 1000 * int s \<le> sint (b - a)"
proof (cases "0 < sint (b - a)")
  case False
  have "dbl_val (dbl_of_int (int s)) = of_nat s" "isfinite (dbl_of_int (int s))"
    using assms(3) by (auto intro!: dbl_of_nat)
  then show ?thesis using False assms(2) by (simp add: elapsed_seconds_def dbl_le_finite)
next
  case True
  define d :: rat where "d = of_int (sint (b - a))"
  have s: "dbl_of_int (int s) = dbl_rnd False (of_nat s)" by (simp add: dbl_of_int_def dbl_lit_def)
  have e: "elapsed_seconds a b = dbl_rnd False (d / 1000)"
    unfolding d_def by (rule elapsed_seconds_pos[OF True assms(1)])
  show ?thesis
  proof
    assume "1000 * int s \<le> sint (b - a)"
    then have "of_int (1000 * int s) \<le> d" unfolding d_def by (rule of_int_le_iff[THEN iffD2])
    then have "of_nat s \<le> d / 1000" by simp
    then show "dbl_le (dbl_of_int (int s)) (elapsed_seconds a b)"
      unfolding s e by (intro dbl_rnd_mono) simp_all
  next
    assume le: "dbl_le (dbl_of_int (int s)) (elapsed_seconds a b)"
    define n where "n = 1024 * s - 1"
    have n: "n < 2 ^ 53" using assms(3) by (simp add: n_def)
    show "1000 * int s \<le> sint (b - a)"
    proof (rule ccontr)
      assume "\<not> 1000 * int s \<le> sint (b - a)"
      then have "sint (b - a) \<le> 1000 * int s - 1" by simp
      then have "d \<le> of_int (1000 * int s - 1)" unfolding d_def by (rule of_int_le_iff[THEN iffD2])
      then have "d / 1000 \<le> of_nat n / 2 ^ 10"
        using assms(2) by (simp add: n_def of_nat_diff field_simps)
      moreover have "0 \<le> d" unfolding d_def of_int_0_le_iff using True by linarith
      ultimately have "dbl_le (elapsed_seconds a b) (dbl_rnd False (of_nat n / 2 ^ 10))"
        unfolding e by (intro dbl_rnd_mono) simp_all
      with le have "dbl_le (dbl_of_int (int s)) (dbl_rnd False (of_nat n / 2 ^ 10))"
        by (rule dbl_le_trans)
      then have "of_nat s \<le> (of_nat n / 2 ^ 10 :: rat)"
        using dyadic_rnd[OF n, of 10] dbl_of_nat[of s] assms(3) by (simp add: dbl_le_finite)
      then show False using assms(2) by (simp add: n_def of_nat_diff field_simps)
    qed
  qed
qed

end
