(* ===== verification/Decay.thy ===== *)
theory Decay
  imports Warmth_Object
begin

text \<open>
  \<open>include/warmth/decay.hpp\<close>: the decay policy and the pure function that says which state an
  object falls to. The lemmas show that a reported change always is an edge of the transition
  table and always lowers a rank, so decay never warms an object and stops after four changes,
  and that with the default thresholds the idle comparisons are exact to the millisecond.
\<close>

section \<open>Policy and result\<close>

datatype decay_reason = DR_IDLE_ELAPSED
  | DR_MEMORY_PRESSURE
  | DR_RESOURCE_RECLAMATION
  | DR_PROCESS_RESTART
  | DR_DEVICE_RESET
  | DR_DEPENDENCY_GENERATION_CHANGE
  | DR_ARTIFACT_REPLACEMENT
  | DR_ADAPTER_CHANGE
  | DR_RUNTIME_UPGRADE
  | DR_KERNEL_INVALIDATION
  | DR_GRAPH_INVALIDATION
  | DR_TOPOLOGY_CHANGE
  | DR_POLICY_GENERATION_CHANGE

fun decay_reason_code :: "decay_reason \<Rightarrow> u8" where
  "decay_reason_code DR_IDLE_ELAPSED = 0"
| "decay_reason_code DR_MEMORY_PRESSURE = 1"
| "decay_reason_code DR_RESOURCE_RECLAMATION = 2"
| "decay_reason_code DR_PROCESS_RESTART = 3"
| "decay_reason_code DR_DEVICE_RESET = 4"
| "decay_reason_code DR_DEPENDENCY_GENERATION_CHANGE = 5"
| "decay_reason_code DR_ARTIFACT_REPLACEMENT = 6"
| "decay_reason_code DR_ADAPTER_CHANGE = 7"
| "decay_reason_code DR_RUNTIME_UPGRADE = 8"
| "decay_reason_code DR_KERNEL_INVALIDATION = 9"
| "decay_reason_code DR_GRAPH_INVALIDATION = 10"
| "decay_reason_code DR_TOPOLOGY_CHANGE = 11"
| "decay_reason_code DR_POLICY_GENERATION_CHANGE = 12"

fun decay_reason_name :: "decay_reason \<Rightarrow> string" where
  "decay_reason_name DR_IDLE_ELAPSED = ''IDLE_ELAPSED''"
| "decay_reason_name DR_MEMORY_PRESSURE = ''MEMORY_PRESSURE''"
| "decay_reason_name DR_RESOURCE_RECLAMATION = ''RESOURCE_RECLAMATION''"
| "decay_reason_name DR_PROCESS_RESTART = ''PROCESS_RESTART''"
| "decay_reason_name DR_DEVICE_RESET = ''DEVICE_RESET''"
| "decay_reason_name DR_DEPENDENCY_GENERATION_CHANGE = ''DEPENDENCY_GENERATION_CHANGE''"
| "decay_reason_name DR_ARTIFACT_REPLACEMENT = ''ARTIFACT_REPLACEMENT''"
| "decay_reason_name DR_ADAPTER_CHANGE = ''ADAPTER_CHANGE''"
| "decay_reason_name DR_RUNTIME_UPGRADE = ''RUNTIME_UPGRADE''"
| "decay_reason_name DR_KERNEL_INVALIDATION = ''KERNEL_INVALIDATION''"
| "decay_reason_name DR_GRAPH_INVALIDATION = ''GRAPH_INVALIDATION''"
| "decay_reason_name DR_TOPOLOGY_CHANGE = ''TOPOLOGY_CHANGE''"
| "decay_reason_name DR_POLICY_GENERATION_CHANGE = ''POLICY_GENERATION_CHANGE''"

record decay_policy =
  hot_to_warm_idle_seconds :: double
  warm_to_stale_idle_seconds :: double
  stale_to_invalidated_seconds :: double
  warm_to_partial_idle_seconds :: double
  partial_to_cold_idle_seconds :: double
  decay_on_memory_pressure :: bool
  decay_on_process_restart :: bool
  decay_on_device_reset :: bool
  decay_on_dependency_change :: bool
  decay_on_policy_change :: bool

definition decay_policy_default :: decay_policy where
  "decay_policy_default = \<lparr>hot_to_warm_idle_seconds = dbl_lit 300,
     warm_to_stale_idle_seconds = dbl_lit 1200, stale_to_invalidated_seconds = dbl_lit 600,
     warm_to_partial_idle_seconds = dbl_lit 1800, partial_to_cold_idle_seconds = dbl_lit 3600,
     decay_on_memory_pressure = True, decay_on_process_restart = True, decay_on_device_reset = True,
     decay_on_dependency_change = True, decay_on_policy_change = True\<rparr>"

record decay_result =
  dr_changed :: bool
  dr_state :: warmth_state
  dr_reason :: decay_reason

definition decay_unchanged :: "warmth_state \<Rightarrow> decay_result" where
  "decay_unchanged s = \<lparr>dr_changed = False, dr_state = s, dr_reason = DR_IDLE_ELAPSED\<rparr>"

definition decay_to :: "warmth_state \<Rightarrow> decay_reason \<Rightarrow> decay_result" where
  "decay_to s r = \<lparr>dr_changed = True, dr_state = s, dr_reason = r\<rparr>"

section \<open>The decay function\<close>

text \<open>The three trigger blocks have one shape: a \<open>STALE\<close> object stays so.\<close>

definition go_stale :: "warmth_state \<Rightarrow> decay_reason \<Rightarrow> decay_result" where
  "go_stale s r = (if s \<noteq> STALE then decay_to STALE r else decay_unchanged STALE)"

text \<open>\<open>threshold > 0.0 && idle >= threshold\<close>.\<close>

definition idle_reached :: "double \<Rightarrow> double \<Rightarrow> bool" where
  "idle_reached idle threshold \<longleftrightarrow> dbl_lt dbl_zero threshold \<and> dbl_le threshold idle"

fun decay_pressure :: "warmth_state \<Rightarrow> decay_result option" where
  "decay_pressure HOT = Some (decay_to WARM DR_MEMORY_PRESSURE)"
| "decay_pressure WARM = Some (decay_to PARTIALLY_WARM DR_MEMORY_PRESSURE)"
| "decay_pressure PARTIALLY_WARM = Some (decay_to COLD DR_MEMORY_PRESSURE)"
| "decay_pressure _ = None"

fun decay_idle :: "decay_policy \<Rightarrow> double \<Rightarrow> warmth_state \<Rightarrow> decay_result" where
  "decay_idle p idle HOT =
     (if idle_reached idle (hot_to_warm_idle_seconds p) then decay_to WARM DR_IDLE_ELAPSED
      else decay_unchanged HOT)"
| "decay_idle p idle WARM =
     (if idle_reached idle (warm_to_stale_idle_seconds p) then decay_to STALE DR_IDLE_ELAPSED
      else if dbl_lt dbl_zero (warm_to_partial_idle_seconds p)
              \<and> dbl_lt (warm_to_partial_idle_seconds p) (warm_to_stale_idle_seconds p)
              \<and> dbl_le (warm_to_partial_idle_seconds p) idle
        then decay_to PARTIALLY_WARM DR_IDLE_ELAPSED
      else decay_unchanged WARM)"
| "decay_idle p idle PARTIALLY_WARM =
     (if idle_reached idle (partial_to_cold_idle_seconds p) then decay_to COLD DR_IDLE_ELAPSED
      else decay_unchanged PARTIALLY_WARM)"
| "decay_idle p idle STALE =
     (if idle_reached idle (stale_to_invalidated_seconds p) then decay_to INVALIDATED DR_IDLE_ELAPSED
      else decay_unchanged STALE)"
| "decay_idle p idle s = decay_unchanged s"

definition decay_object ::
  "warmth_object \<Rightarrow> decay_policy \<Rightarrow> timestamp \<Rightarrow> bool \<Rightarrow> bool \<Rightarrow> bool \<Rightarrow> bool \<Rightarrow> decay_result" where
  "decay_object obj policy now memory_pressure dependency_changed device_reset process_restart =
    (let s = wo_state obj in
     if s \<in> {COLD, DISCOVERED, EVICTED, FAILED, INVALIDATED} then decay_unchanged s
     else if dependency_changed then go_stale s DR_DEPENDENCY_GENERATION_CHANGE
     else if device_reset \<and> decay_on_device_reset policy then go_stale s DR_DEVICE_RESET
     else if process_restart \<and> decay_on_process_restart policy then go_stale s DR_PROCESS_RESTART
     else
       let baseline = (if wo_last_used obj \<noteq> 0 then wo_last_used obj else wo_last_prepared obj);
           idle = elapsed_seconds baseline now
       in case (if memory_pressure \<and> decay_on_memory_pressure policy then decay_pressure s else None) of
            Some r \<Rightarrow> r
          | None \<Rightarrow> decay_idle policy idle s)"

section \<open>Soundness with respect to the transition table\<close>

lemmas decay_unfold = decay_object_def Let_def go_stale_def decay_to_def decay_unchanged_def

text \<open>How far an object is from having nothing left to lose.\<close>

fun decay_rank :: "warmth_state \<Rightarrow> nat" where
  "decay_rank HOT = 4"
| "decay_rank WARM = 3"
| "decay_rank PARTIALLY_WARM = 2"
| "decay_rank PREPARING = 2"
| "decay_rank STALE = 1"
| "decay_rank _ = 0"

definition decay_sound :: "warmth_state \<Rightarrow> decay_result \<Rightarrow> bool" where
  "decay_sound s r \<longleftrightarrow>
     (if dr_changed r then transition_allowed s (dr_state r) \<and> decay_rank (dr_state r) < decay_rank s
        \<and> level_code (to_level (dr_state r)) \<le> level_code (to_level s)
      else dr_state r = s)"

lemma decay_sound_stale:
  "s \<notin> {COLD, DISCOVERED, EVICTED, FAILED, INVALIDATED} \<Longrightarrow> decay_sound s (go_stale s r)"
  by (cases s) (simp_all add: decay_sound_def go_stale_def decay_to_def decay_unchanged_def transition_allowed_def)

lemma decay_sound_pressure: "decay_pressure s = Some r \<Longrightarrow> decay_sound s r"
  by (cases s) (auto simp: decay_sound_def decay_to_def transition_allowed_def)

lemma decay_sound_idle: "decay_sound s (decay_idle p idle s)"
  by (cases s) (simp_all add: decay_sound_def decay_to_def decay_unchanged_def transition_allowed_def)

lemma decay_object_sound: "decay_sound (wo_state obj) (decay_object obj p now mp dc dr pr)"
proof (cases "wo_state obj \<in> {COLD, DISCOVERED, EVICTED, FAILED, INVALIDATED}")
  case True
  then show ?thesis by (simp add: decay_object_def Let_def decay_sound_def decay_unchanged_def)
next
  case False
  then show ?thesis
    using decay_sound_stale[OF False] decay_sound_pressure decay_sound_idle
    by (auto simp: decay_object_def Let_def split: option.splits if_splits)
qed

text \<open>What the fabric does with the result: a guarded transition, whose flag is therefore true.\<close>

lemma decay_object_transition:
  "dr_changed (decay_object obj p now mp dc dr pr) \<Longrightarrow>
     fst (transition (dr_state (decay_object obj p now mp dc dr pr)) r obj)"
  using decay_object_sound[of obj p now mp dc dr pr] by (simp add: decay_sound_def)

section \<open>Exact thresholds\<close>

lemma idle_reached_seconds:
  assumes "sint (now - b) < 2 ^ 53" "0 < n" "n < 2 ^ 42"
  shows "idle_reached (elapsed_seconds b now) (dbl_of_int (int n)) \<longleftrightarrow> 1000 * int n \<le> sint (now - b)"
proof -
  have "isfinite (dbl_of_int (int n))" "dbl_val (dbl_of_int (int n)) = of_nat n"
    using assms(3) by (auto intro!: dbl_of_nat)
  then have "dbl_lt dbl_zero (dbl_of_int (int n))" using assms(2) by (simp add: dbl_lt_finite)
  then show ?thesis by (simp add: idle_reached_def elapsed_threshold[OF assms])
qed

lemma idle_reached_default:
  assumes "sint (now - b) < 2 ^ 53"
  shows "idle_reached (elapsed_seconds b now) (hot_to_warm_idle_seconds decay_policy_default) \<longleftrightarrow> 300000 \<le> sint (now - b)"
    "idle_reached (elapsed_seconds b now) (warm_to_stale_idle_seconds decay_policy_default) \<longleftrightarrow> 1200000 \<le> sint (now - b)"
    "idle_reached (elapsed_seconds b now) (stale_to_invalidated_seconds decay_policy_default) \<longleftrightarrow> 600000 \<le> sint (now - b)"
    "idle_reached (elapsed_seconds b now) (partial_to_cold_idle_seconds decay_policy_default) \<longleftrightarrow> 3600000 \<le> sint (now - b)"
  using idle_reached_seconds[OF assms, of 300] idle_reached_seconds[OF assms, of 1200]
    idle_reached_seconds[OF assms, of 600] idle_reached_seconds[OF assms, of 3600]
  by (simp_all add: decay_policy_default_def dbl_of_int_def)

text \<open>The default partial threshold is not below the stale one, so that branch is dead.\<close>

lemma default_partial_branch_dead:
  "\<not> dbl_lt (warm_to_partial_idle_seconds decay_policy_default) (warm_to_stale_idle_seconds decay_policy_default)"
  using dbl_of_nat[of 1800] dbl_of_nat[of 1200]
  by (simp add: decay_policy_default_def dbl_of_int_def dbl_lt_finite)

text \<open>The timetable an operator reads off the default policy, in milliseconds.\<close>

fun idle_timetable :: "int \<Rightarrow> warmth_state \<Rightarrow> warmth_state" where
  "idle_timetable ms HOT = (if 300000 \<le> ms then WARM else HOT)"
| "idle_timetable ms WARM = (if 1200000 \<le> ms then STALE else WARM)"
| "idle_timetable ms PARTIALLY_WARM = (if 3600000 \<le> ms then COLD else PARTIALLY_WARM)"
| "idle_timetable ms STALE = (if 600000 \<le> ms then INVALIDATED else STALE)"
| "idle_timetable ms s = s"

definition idle_baseline :: "warmth_object \<Rightarrow> timestamp" where
  "idle_baseline obj = (if wo_last_used obj \<noteq> 0 then wo_last_used obj else wo_last_prepared obj)"

lemma decay_idle_default:
  assumes "sint (now - b) < 2 ^ 53"
  shows "dr_state (decay_idle decay_policy_default (elapsed_seconds b now) s) = idle_timetable (sint (now - b)) s"
  by (cases s) (simp_all add: idle_reached_default[OF assms] default_partial_branch_dead decay_to_def decay_unchanged_def)

lemma decay_object_timetable:
  assumes "sint (now - idle_baseline obj) < 2 ^ 53"
  shows "dr_state (decay_object obj decay_policy_default now False False False False)
     = idle_timetable (sint (now - idle_baseline obj)) (wo_state obj)"
proof (cases "wo_state obj \<in> {COLD, DISCOVERED, EVICTED, FAILED, INVALIDATED}")
  case True
  then show ?thesis by (auto simp: decay_object_def Let_def decay_unchanged_def)
next
  case False
  then show ?thesis using decay_idle_default[OF assms]
    by (simp add: decay_object_def Let_def flip: idle_baseline_def)
qed

section \<open>Repeated decay\<close>

text \<open>One visit of the fabric's decay pass to one object, and a history of such visits under any
  clock readings and flags; \<open>decay_changes\<close> counts the visits that changed the state.\<close>

record decay_event =
  ev_now :: timestamp
  ev_pressure :: bool
  ev_dependency :: bool
  ev_reset :: bool
  ev_restart :: bool

definition decay_result_of :: "decay_policy \<Rightarrow> decay_event \<Rightarrow> warmth_object \<Rightarrow> decay_result" where
  "decay_result_of p e obj =
     decay_object obj p (ev_now e) (ev_pressure e) (ev_dependency e) (ev_reset e) (ev_restart e)"

definition decay_apply :: "decay_policy \<Rightarrow> decay_event \<Rightarrow> warmth_object \<Rightarrow> warmth_object" where
  "decay_apply p e obj =
     (let res = decay_result_of p e obj
      in if dr_changed res then try_transition (dr_state res) (decay_reason_name (dr_reason res)) obj else obj)"

fun decay_changes :: "decay_policy \<Rightarrow> decay_event list \<Rightarrow> warmth_object \<Rightarrow> nat" where
  "decay_changes p [] obj = 0"
| "decay_changes p (e # es) obj =
     (if dr_changed (decay_result_of p e obj) then 1 else 0) + decay_changes p es (decay_apply p e obj)"

lemma decay_result_sound: "decay_sound (wo_state obj) (decay_result_of p e obj)"
  unfolding decay_result_of_def by (rule decay_object_sound)

lemma wo_state_decay_apply: "wo_state (decay_apply p e obj) = dr_state (decay_result_of p e obj)"
  using decay_result_sound[of obj p e] by (auto simp: decay_apply_def Let_def decay_sound_def)

lemma decay_apply_rank:
  "decay_rank (wo_state (decay_apply p e obj)) + (if dr_changed (decay_result_of p e obj) then 1 else 0)
     \<le> decay_rank (wo_state obj)"
  using decay_result_sound[of obj p e] unfolding wo_state_decay_apply
  by (auto simp: decay_sound_def Suc_le_eq)

lemma decay_changes_bound: "decay_changes p es obj \<le> decay_rank (wo_state obj)"
proof (induction es arbitrary: obj)
  case (Cons e es)
  show ?case using Cons[of "decay_apply p e obj"] decay_apply_rank[of p e obj] by simp
qed simp

lemma decay_rank_le: "decay_rank s \<le> 4"
  by (cases s) simp_all

lemma decay_apply_level: "level_code (level (decay_apply p e obj)) \<le> level_code (level obj)"
  using decay_result_sound[of obj p e] unfolding level_def wo_state_decay_apply
  by (auto simp: decay_sound_def split: if_splits)

end
