(* ===== verification/Budget.thy ===== *)
theory Budget
  imports Warmth_State
begin

text \<open>
  \<open>include/warmth/budget.hpp\<close>: limits per resource kind and the tracker of outstanding
  reservations. The invariant ties the usage counters to the reservations they stand for; while
  the totals stay below \<open>2^64\<close> every counter is exactly the sum of the open reservations of its
  kind, a limited kind never exceeds its limit, and releasing what was reserved restores the
  tracker.
\<close>

section \<open>Kinds and limits\<close>

datatype budget_kind = BK_DEVICE_MEMORY
  | BK_PINNED_HOST_MEMORY
  | BK_HOST_MEMORY
  | BK_STORAGE_FOOTPRINT
  | BK_CONCURRENT_WARMING_OPS
  | BK_TRANSFER_BANDWIDTH
  | BK_ACTIVE_ENGINES
  | BK_WARM_REPLICAS

fun kind_code :: "budget_kind \<Rightarrow> u8" where
  "kind_code BK_DEVICE_MEMORY = 0"
| "kind_code BK_PINNED_HOST_MEMORY = 1"
| "kind_code BK_HOST_MEMORY = 2"
| "kind_code BK_STORAGE_FOOTPRINT = 3"
| "kind_code BK_CONCURRENT_WARMING_OPS = 4"
| "kind_code BK_TRANSFER_BANDWIDTH = 5"
| "kind_code BK_ACTIVE_ENGINES = 6"
| "kind_code BK_WARM_REPLICAS = 7"

fun budget_kind_name :: "budget_kind \<Rightarrow> string" where
  "budget_kind_name BK_DEVICE_MEMORY = ''device_memory''"
| "budget_kind_name BK_PINNED_HOST_MEMORY = ''pinned_host_memory''"
| "budget_kind_name BK_HOST_MEMORY = ''host_memory''"
| "budget_kind_name BK_STORAGE_FOOTPRINT = ''storage_footprint''"
| "budget_kind_name BK_CONCURRENT_WARMING_OPS = ''concurrent_warming_ops''"
| "budget_kind_name BK_TRANSFER_BANDWIDTH = ''transfer_bandwidth''"
| "budget_kind_name BK_ACTIVE_ENGINES = ''active_engines''"
| "budget_kind_name BK_WARM_REPLICAS = ''warm_replicas''"

definition budget_kind_list :: "budget_kind list" where
  "budget_kind_list = [BK_DEVICE_MEMORY, BK_PINNED_HOST_MEMORY, BK_HOST_MEMORY, BK_STORAGE_FOOTPRINT, BK_CONCURRENT_WARMING_OPS, BK_TRANSFER_BANDWIDTH, BK_ACTIVE_ENGINES, BK_WARM_REPLICAS]"

definition kind_of_code :: "u8 \<Rightarrow> budget_kind option" where
  "kind_of_code = enum_of budget_kind_list"

interpretation kind_enum: byte_enum kind_code kind_of_code
  unfolding kind_of_code_def
proof (rule byte_enum_enum_of)
  fix x show "unat (kind_code x) < length budget_kind_list \<and> budget_kind_list ! unat (kind_code x) = x"
    by (cases x) (simp_all add: budget_kind_list_def)
qed (simp add: budget_kind_list_def)

record budget_limits =
  device_memory_bytes :: u64
  pinned_host_memory_bytes :: u64
  host_memory_bytes :: u64
  storage_footprint_bytes :: u64
  concurrent_warming_ops :: u64
  transfer_bandwidth_bps :: u64
  active_engines :: u64
  warm_replicas :: u64

definition budget_limits_default :: budget_limits where
  "budget_limits_default = \<lparr>device_memory_bytes = 0, pinned_host_memory_bytes = 0, host_memory_bytes = 0, storage_footprint_bytes = 0,
     concurrent_warming_ops = 0, transfer_bandwidth_bps = 0, active_engines = 0, warm_replicas = 0\<rparr>"

fun limits_set :: "budget_kind \<Rightarrow> u64 \<Rightarrow> budget_limits \<Rightarrow> budget_limits" where
  "limits_set BK_DEVICE_MEMORY v l = l\<lparr>device_memory_bytes := v\<rparr>"
| "limits_set BK_PINNED_HOST_MEMORY v l = l\<lparr>pinned_host_memory_bytes := v\<rparr>"
| "limits_set BK_HOST_MEMORY v l = l\<lparr>host_memory_bytes := v\<rparr>"
| "limits_set BK_STORAGE_FOOTPRINT v l = l\<lparr>storage_footprint_bytes := v\<rparr>"
| "limits_set BK_CONCURRENT_WARMING_OPS v l = l\<lparr>concurrent_warming_ops := v\<rparr>"
| "limits_set BK_TRANSFER_BANDWIDTH v l = l\<lparr>transfer_bandwidth_bps := v\<rparr>"
| "limits_set BK_ACTIVE_ENGINES v l = l\<lparr>active_engines := v\<rparr>"
| "limits_set BK_WARM_REPLICAS v l = l\<lparr>warm_replicas := v\<rparr>"

fun limits_get :: "budget_kind \<Rightarrow> budget_limits \<Rightarrow> u64" where
  "limits_get BK_DEVICE_MEMORY l = device_memory_bytes l"
| "limits_get BK_PINNED_HOST_MEMORY l = pinned_host_memory_bytes l"
| "limits_get BK_HOST_MEMORY l = host_memory_bytes l"
| "limits_get BK_STORAGE_FOOTPRINT l = storage_footprint_bytes l"
| "limits_get BK_CONCURRENT_WARMING_OPS l = concurrent_warming_ops l"
| "limits_get BK_TRANSFER_BANDWIDTH l = transfer_bandwidth_bps l"
| "limits_get BK_ACTIVE_ENGINES l = active_engines l"
| "limits_get BK_WARM_REPLICAS l = warm_replicas l"

lemma limits_get_set [simp]: "limits_get k (limits_set k' v l) = (if k = k' then v else limits_get k l)"
  by (cases k; cases k') simp_all

datatype budget_error = BE_NONE | BE_LIMIT_EXCEEDED | BE_UNKNOWN_RESERVATION | BE_DOUBLE_RELEASE | BE_OVERFLOW

fun budget_error_name :: "budget_error \<Rightarrow> string" where
  "budget_error_name BE_NONE = ''NONE''"
| "budget_error_name BE_LIMIT_EXCEEDED = ''LIMIT_EXCEEDED''"
| "budget_error_name BE_UNKNOWN_RESERVATION = ''UNKNOWN_RESERVATION''"
| "budget_error_name BE_DOUBLE_RELEASE = ''DOUBLE_RELEASE''"
| "budget_error_name BE_OVERFLOW = ''OVERFLOW''"

section \<open>The tracker\<close>

record reservation =
  res_kind :: budget_kind
  res_amount :: u64
  res_tag :: string

record budget_tracker =
  bt_limits :: budget_limits
  bt_reservations :: "(u64, reservation) std_map"
  bt_usage :: "(u8, u64) std_map"
  bt_next_id :: u64

definition new_tracker :: "budget_limits \<Rightarrow> budget_tracker" where
  "new_tracker l = \<lparr>bt_limits = l, bt_reservations = [], bt_usage = [], bt_next_id = 1\<rparr>"

definition set_limit :: "budget_kind \<Rightarrow> u64 \<Rightarrow> budget_tracker \<Rightarrow> budget_tracker" where
  "set_limit k v b = b\<lparr>bt_limits := limits_set k v (bt_limits b)\<rparr>"

text \<open>\<open>usage_[key]\<close> default-constructs a missing counter.\<close>

definition usage_at :: "u8 \<Rightarrow> budget_tracker \<Rightarrow> u64" where
  "usage_at key b = (case map_find key (bt_usage b) of None \<Rightarrow> 0 | Some u \<Rightarrow> u)"

definition usage :: "budget_kind \<Rightarrow> budget_tracker \<Rightarrow> u64" where
  "usage k b = usage_at (kind_code k) b"

definition any_usage :: "budget_tracker \<Rightarrow> bool" where
  "any_usage b \<longleftrightarrow> bt_usage b \<noteq> []"

definition outstanding :: "budget_tracker \<Rightarrow> nat" where
  "outstanding b = length (bt_reservations b)"

definition balanced :: "budget_tracker \<Rightarrow> bool" where
  "balanced b \<longleftrightarrow> bt_reservations b = []"

definition fits :: "budget_kind \<Rightarrow> u64 \<Rightarrow> budget_tracker \<Rightarrow> bool" where
  "fits k amount b =
     (let u = usage k b; lim = limits_get k (bt_limits b)
      in if lim = 0 then True else amount \<le> lim \<and> u \<le> lim - amount)"

definition can_reserve :: "budget_kind \<Rightarrow> u64 \<Rightarrow> budget_tracker \<Rightarrow> bool" where
  "can_reserve k amount b = fits k amount b"

definition next_id :: "budget_tracker \<Rightarrow> u64 \<times> budget_tracker" where
  "next_id b =
     (let v = bt_next_id b; b1 = b\<lparr>bt_next_id := v + 1\<rparr>
      in if v = 0 then (bt_next_id b1, b1\<lparr>bt_next_id := bt_next_id b1 + 1\<rparr>) else (v, b1))"

definition reserve ::
  "budget_kind \<Rightarrow> u64 \<Rightarrow> string \<Rightarrow> budget_tracker \<Rightarrow> u64 \<times> budget_error \<times> budget_tracker" where
  "reserve k amount tag b =
    (if amount = 0 then (0, BE_NONE, b)
     else let lim = limits_get k (bt_limits b)
     in if lim \<noteq> 0 \<and> amount > lim then (0, BE_LIMIT_EXCEEDED, b)
     else if \<not> fits k amount b then (0, BE_LIMIT_EXCEEDED, b)
     else let (i, b1) = next_id b;
              b2 = b1\<lparr>bt_reservations := map_emplace i \<lparr>res_kind = k, res_amount = amount, res_tag = tag\<rparr> (bt_reservations b1)\<rparr>;
              b3 = b2\<lparr>bt_usage := map_set (kind_code k) (usage_at (kind_code k) b2 + amount) (bt_usage b2)\<rparr>
          in (i, BE_NONE, b3))"

definition release :: "u64 \<Rightarrow> budget_tracker \<Rightarrow> budget_error \<times> budget_tracker" where
  "release i b =
    (if i = 0 then (BE_UNKNOWN_RESERVATION, b)
     else case map_find i (bt_reservations b) of
       None \<Rightarrow> (BE_DOUBLE_RELEASE, b)
     | Some r \<Rightarrow>
        let amount = res_amount r; key = kind_code (res_kind r); u = usage_at key b
        in (BE_NONE, b\<lparr>bt_usage := map_set key (if amount \<ge> u then 0 else u - amount) (bt_usage b),
                      bt_reservations := map_erase i (bt_reservations b)\<rparr>))"

section \<open>Branches\<close>

lemma reserve_zero: "reserve k 0 t b = (0, BE_NONE, b)"
  by (simp add: reserve_def)

lemma reserve_refused:
  "amount \<noteq> 0 \<Longrightarrow> \<not> fits k amount b \<Longrightarrow> reserve k amount t b = (0, BE_LIMIT_EXCEEDED, b)"
  by (simp add: reserve_def Let_def)

lemma fits_within: "fits k amount b \<Longrightarrow> limits_get k (bt_limits b) \<noteq> 0 \<Longrightarrow> amount \<le> limits_get k (bt_limits b)"
  by (simp add: fits_def Let_def)

lemma reserve_granted:
  assumes "amount \<noteq> 0" "fits k amount b" "bt_next_id b \<noteq> 0" "map_find (bt_next_id b) (bt_reservations b) = None"
  shows "reserve k amount t b = (bt_next_id b, BE_NONE,
    b\<lparr>bt_next_id := bt_next_id b + 1,
      bt_reservations := map_set (bt_next_id b) \<lparr>res_kind = k, res_amount = amount, res_tag = t\<rparr> (bt_reservations b),
      bt_usage := map_set (kind_code k) (usage k b + amount) (bt_usage b)\<rparr>)"
proof -
  have "limits_get k (bt_limits b) = 0 \<or> amount \<le> limits_get k (bt_limits b)"
    using fits_within[OF assms(2)] by blast
  then show ?thesis using assms
    by (auto simp: reserve_def next_id_def Let_def map_emplace_def usage_def usage_at_def)
qed

lemma release_absent: "i \<noteq> 0 \<Longrightarrow> map_find i (bt_reservations b) = None \<Longrightarrow> release i b = (BE_DOUBLE_RELEASE, b)"
  by (simp add: release_def)

lemma release_zero: "release 0 b = (BE_UNKNOWN_RESERVATION, b)"
  by (simp add: release_def)

lemma release_present:
  "i \<noteq> 0 \<Longrightarrow> map_find i (bt_reservations b) = Some r \<Longrightarrow>
   release i b = (BE_NONE, b\<lparr>bt_usage := map_set (kind_code (res_kind r)) (usage (res_kind r) b - min (res_amount r) (usage (res_kind r) b)) (bt_usage b),
                      bt_reservations := map_erase i (bt_reservations b)\<rparr>)"
  by (auto simp: release_def Let_def usage_def min_def)

lemma usage_map_set:
  "usage k (b\<lparr>bt_usage := map_set (kind_code k') v (bt_usage b'), bt_reservations := rs, bt_next_id := n\<rparr>)
     = (if k = k' then v else usage k b')"
  by (simp add: usage_def usage_at_def kind_enum.code_inject)

section \<open>The invariant\<close>

text \<open>What is open of a kind.\<close>

definition amount_of :: "budget_kind \<Rightarrow> reservation \<Rightarrow> nat" where
  "amount_of k r = (if res_kind r = k then unat (res_amount r) else 0)"

definition open_sum :: "budget_kind \<Rightarrow> budget_tracker \<Rightarrow> nat" where
  "open_sum k b = (\<Sum>ir \<leftarrow> bt_reservations b. amount_of k (snd ir))"

text \<open>\<open>tracker_ok n b\<close>: both maps are well formed, every open id is below the id counter, and the
  counter has room for \<open>n\<close> more ids before it wraps.\<close>

definition tracker_ok :: "nat \<Rightarrow> budget_tracker \<Rightarrow> bool" where
  "tracker_ok n b \<longleftrightarrow> map_wf (bt_reservations b) \<and> map_wf (bt_usage b) \<and> bt_next_id b \<noteq> 0
     \<and> (\<forall>i \<in> fst ` set (bt_reservations b). i \<noteq> 0 \<and> i < bt_next_id b)
     \<and> unat (bt_next_id b) + n < 2 ^ 64"

definition kind_exact :: "budget_kind \<Rightarrow> budget_tracker \<Rightarrow> bool" where
  "kind_exact k b \<longleftrightarrow> unat (usage k b) = open_sum k b"

lemma tracker_ok_new: "n < 2 ^ 64 - 1 \<Longrightarrow> tracker_ok n (new_tracker l)"
  by (simp add: tracker_ok_def new_tracker_def)

lemma kind_exact_new: "kind_exact k (new_tracker l)"
  by (simp add: kind_exact_def new_tracker_def usage_def usage_at_def open_sum_def)

lemma tracker_ok_mono: "tracker_ok n b \<Longrightarrow> m \<le> n \<Longrightarrow> tracker_ok m b"
  by (auto simp: tracker_ok_def)

lemma tracker_ok_fresh: "tracker_ok n b \<Longrightarrow> map_find (bt_next_id b) (bt_reservations b) = None"
  by (auto simp: tracker_ok_def map_find_None_iff)

lemma tracker_ok_key: "tracker_ok n b \<Longrightarrow> map_find i (bt_reservations b) = Some r \<Longrightarrow> i \<noteq> 0"
  by (auto simp: tracker_ok_def dest!: map_find_SomeD)

lemma unat_succ_u64: "unat (x :: u64) + 1 < 2 ^ 64 \<Longrightarrow> unat (x + 1) = unat x + 1"
  by (subst unat_word_ariths(1)) simp

text \<open>The two outcomes of \<open>reserve\<close> and of \<open>release\<close>, for case analysis by their clients.\<close>

lemma reserve_cases:
  assumes "tracker_ok n b" "reserve k amount t b = (i, e, b')"
  obtains (refused) "i = 0" "b' = b" "amount = 0 \<and> e = BE_NONE \<or> \<not> fits k amount b \<and> e = BE_LIMIT_EXCEEDED"
  | (granted) "i = bt_next_id b" "i \<noteq> 0" "e = BE_NONE" "amount \<noteq> 0" "fits k amount b" "map_find i (bt_reservations b) = None"
      "b' = b\<lparr>bt_next_id := bt_next_id b + 1,
        bt_reservations := map_set i \<lparr>res_kind = k, res_amount = amount, res_tag = t\<rparr> (bt_reservations b),
        bt_usage := map_set (kind_code k) (usage k b + amount) (bt_usage b)\<rparr>"
proof (cases "amount = 0 \<or> \<not> fits k amount b")
  case True
  then show ?thesis using assms(2) reserve_zero[of k t b] reserve_refused[of amount k b t]
    by (intro refused) (cases "amount = 0"; auto)+
next
  case False
  have "bt_next_id b \<noteq> 0" using assms(1) by (simp add: tracker_ok_def)
  with False show ?thesis
    using assms(2) reserve_granted[of amount k b t] tracker_ok_fresh[OF assms(1)] by (intro granted) auto
qed

lemma release_cases:
  assumes "tracker_ok n b" "release i b = (e, b')"
  obtains (unknown) "b' = b" "map_find i (bt_reservations b) = None" "e \<noteq> BE_NONE"
  | (closed) r where "map_find i (bt_reservations b) = Some r" "i \<noteq> 0" "e = BE_NONE"
      "b' = b\<lparr>bt_usage := map_set (kind_code (res_kind r)) (usage (res_kind r) b - min (res_amount r) (usage (res_kind r) b)) (bt_usage b),
          bt_reservations := map_erase i (bt_reservations b)\<rparr>"
proof (cases "map_find i (bt_reservations b)")
  case None
  then show ?thesis using assms(2) release_zero[of b] release_absent[OF _ None]
    by (intro unknown) (cases "i = 0"; auto)+
next
  case (Some r)
  then show ?thesis using assms(2) tracker_ok_key[OF assms(1) Some] release_present[OF _ Some] closed
    by auto
qed

lemma reserve_ok:
  assumes "tracker_ok (Suc n) b" "reserve k amount t b = (i, e, b')"
  shows "tracker_ok n b'"
  using assms
proof (cases rule: reserve_cases)
  case refused
  then show ?thesis using tracker_ok_mono[OF assms(1), of n] by simp
next
  case granted
  have u: "unat (bt_next_id b + 1) = unat (bt_next_id b) + 1"
    using assms(1) by (intro unat_succ_u64) (simp add: tracker_ok_def)
  have "i' < bt_next_id b + 1" if "i' \<in> insert i (fst ` set (bt_reservations b))" for i'
    using that granted(1) assms(1) by (auto simp: tracker_ok_def word_less_nat_alt u)
  moreover have "bt_next_id b + 1 \<noteq> 0" using u by (metis add_is_0 unat_0 zero_neq_one)
  ultimately show ?thesis using assms(1) granted(2) u
    by (auto simp: granted(7) tracker_ok_def keys_map_set)
qed

lemma release_ok:
  assumes "tracker_ok n b" "release i b = (e, b')"
  shows "tracker_ok n b'"
  using assms
proof (cases rule: release_cases)
  case unknown
  then show ?thesis using assms(1) by simp
next
  case closed
  then show ?thesis using assms(1) by (auto simp: tracker_ok_def keys_map_erase)
qed

section \<open>Usage is the sum of the open reservations\<close>

lemma sum_list_add_mset:
  "mset xs = add_mset x (mset ys) \<Longrightarrow> sum_list (map f xs) = f x + sum_list (map f ys :: nat list)"
  using sum_list_mset_cong[of xs "x # ys" f] by simp

lemma open_sum_insert:
  "map_find i (bt_reservations b) = None \<Longrightarrow> bt_reservations b' = map_set i r (bt_reservations b) \<Longrightarrow>
     open_sum k b' = amount_of k r + open_sum k b"
  using sum_list_add_mset[OF mset_map_set_fresh, of i "bt_reservations b" "\<lambda>ir. amount_of k (snd ir)" r]
  by (simp add: open_sum_def)

lemma open_sum_erase:
  "map_find i (bt_reservations b) = Some r \<Longrightarrow>
     bt_reservations b' = map_erase i (bt_reservations b) \<Longrightarrow> open_sum k b = amount_of k r + open_sum k b'"
  using sum_list_add_mset[OF mset_map_erase, of i "bt_reservations b" r "\<lambda>ir. amount_of k (snd ir)"]
  by (simp add: open_sum_def)

lemma reserve_open_sum:
  assumes "tracker_ok n b" "reserve k amount t b = (i, e, b')" "i \<noteq> 0"
  shows "open_sum k' b' = (if k' = k then unat amount else 0) + open_sum k' b"
  using assms(1,2)
proof (cases rule: reserve_cases)
  case granted
  then show ?thesis using open_sum_insert[OF granted(6), of b'] by (simp add: amount_of_def)
qed (use assms(3) in simp)

lemma reserve_usage:
  assumes "tracker_ok n b" "reserve k amount t b = (i, e, b')" "i \<noteq> 0"
  shows "usage k' b' = (if k' = k then usage k b + amount else usage k' b)"
  using assms(1,2)
proof (cases rule: reserve_cases)
  case granted
  then show ?thesis by (simp add: usage_def usage_at_def kind_enum.code_inject)
qed (use assms(3) in simp)

text \<open>A kind with a limit cannot overflow: the admission test leaves room.\<close>

lemma fits_no_overflow:
  assumes "fits k amount b" "limits_get k (bt_limits b) \<noteq> 0"
  shows "unat (usage k b) + unat amount \<le> unat (limits_get k (bt_limits b))"
proof -
  let ?l = "limits_get k (bt_limits b)"
  have le: "amount \<le> ?l" "usage k b \<le> ?l - amount" using assms by (simp_all add: fits_def Let_def)
  then have "unat (usage k b) \<le> unat (?l - amount)" by (simp add: word_le_nat_alt)
  then show ?thesis using le(1) by (simp add: unat_sub word_le_nat_alt)
qed

lemma fits_iff:
  assumes "kind_exact k b"
  shows "fits k amount b \<longleftrightarrow>
    limits_get k (bt_limits b) = 0 \<or> open_sum k b + unat amount \<le> unat (limits_get k (bt_limits b))"
proof (cases "limits_get k (bt_limits b) = 0")
  case False
  let ?l = "limits_get k (bt_limits b)"
  have "fits k amount b" if "unat (usage k b) + unat amount \<le> unat ?l"
  proof -
    have "amount \<le> ?l" using that by (simp add: word_le_nat_alt)
    moreover have "unat (usage k b) \<le> unat ?l - unat amount" using that by linarith
    ultimately show ?thesis by (simp add: fits_def Let_def word_le_nat_alt unat_sub)
  qed
  then show ?thesis using fits_no_overflow[OF _ False] assms False by (auto simp: kind_exact_def)
qed (simp add: fits_def Let_def)

lemma unat_add_u64: "unat (x :: u64) + unat y < 2 ^ 64 \<Longrightarrow> unat (x + y) = unat x + unat y"
  by (subst unat_word_ariths(1)) simp

lemma reserve_exact:
  assumes "tracker_ok n b" "reserve k amount t b = (i, e, b')" "kind_exact k' b"
    and room: "limits_get k (bt_limits b) = 0 \<Longrightarrow> unat (usage k b) + unat amount < 2 ^ 64 \<or> k \<noteq> k'"
  shows "kind_exact k' b'"
  using assms(1,2)
proof (cases rule: reserve_cases)
  case granted
  have "unat (usage k b) + unat amount < 2 ^ 64 \<or> k \<noteq> k'"
  proof (cases "limits_get k (bt_limits b) = 0")
    case False
    have "unat (limits_get k (bt_limits b)) < 2 ^ 64"
      using unsigned_less[of "limits_get k (bt_limits b)", where ?'a = nat] by simp
    then show ?thesis using fits_no_overflow[OF granted(5) False] by linarith
  qed (use room in blast)
  then show ?thesis
    using assms(3) reserve_open_sum[OF assms(1,2)] reserve_usage[OF assms(1,2)] granted(2)
    by (auto simp: kind_exact_def unat_add_u64)
qed (use assms(3) in simp)

lemma release_exact:
  assumes "tracker_ok n b" "release i b = (e, b')" "kind_exact k b"
  shows "kind_exact k b'"
  using assms(1,2)
proof (cases rule: release_cases)
  case (closed r)
  have os: "open_sum k b = amount_of k r + open_sum k b'"
    using open_sum_erase[OF closed(1), of b' k] by (simp add: closed(4))
  show ?thesis
  proof (cases "res_kind r = k")
    case True
    have "unat (res_amount r) \<le> unat (usage k b)" using os assms(3) True by (simp add: kind_exact_def amount_of_def)
    then have le: "res_amount r \<le> usage k b" by (simp add: word_le_nat_alt)
    then have "usage k b' = usage k b - res_amount r"
      by (simp add: closed(4) True usage_def usage_at_def min_def)
    then show ?thesis using os assms(3) True le by (simp add: kind_exact_def amount_of_def unat_sub)
  next
    case False
    then have "usage k b' = usage k b" by (simp add: closed(4) usage_def usage_at_def kind_enum.code_inject)
    then show ?thesis using os assms(3) False by (simp add: kind_exact_def amount_of_def)
  qed
qed (use assms(3) in simp)

lemma bt_limits_frame [simp, frame]:
  "bt_limits (snd (snd (reserve k amount t b))) = bt_limits b"
  "bt_limits (snd (release i b)) = bt_limits b"
  by (auto simp: reserve_def release_def next_id_def Let_def split: option.splits)

section \<open>Histories\<close>

text \<open>Any sequence of calls on one tracker, ids chosen freely, so double and unknown releases included.\<close>

datatype budget_op = Reserve budget_kind u64 string | Release u64

fun budget_step :: "budget_op \<Rightarrow> budget_tracker \<Rightarrow> budget_tracker" where
  "budget_step (Reserve k a t) b = snd (snd (reserve k a t b))"
| "budget_step (Release i) b = snd (release i b)"

definition budget_run :: "budget_op list \<Rightarrow> budget_tracker \<Rightarrow> budget_tracker" where
  "budget_run ops b = fold budget_step ops b"

definition kind_limited_inv :: "budget_kind \<Rightarrow> budget_tracker \<Rightarrow> bool" where
  "kind_limited_inv k b \<longleftrightarrow> limits_get k (bt_limits b) \<noteq> 0 \<and> kind_exact k b
     \<and> open_sum k b \<le> unat (limits_get k (bt_limits b))"

lemma budget_step_inv:
  assumes "tracker_ok (Suc n) b" "kind_limited_inv k b"
  shows "tracker_ok n (budget_step op b) \<and> kind_limited_inv k (budget_step op b)"
proof (cases op)
  case (Reserve k' a t)
  obtain i e b' where r: "reserve k' a t b = (i, e, b')" by (cases "reserve k' a t b") auto
  have lim: "bt_limits b' = bt_limits b" using bt_limits_frame(1)[of k' a t b] by (simp add: r)
  have ex: "kind_exact k b'" using assms(2) by (intro reserve_exact[OF assms(1) r]) (auto simp: kind_limited_inv_def)
  have "open_sum k b' \<le> unat (limits_get k (bt_limits b))"
    using assms(1) r
  proof (cases rule: reserve_cases)
    case granted
    then show ?thesis using assms(2) reserve_open_sum[OF assms(1) r] fits_no_overflow[of k a b]
      by (auto simp: kind_limited_inv_def kind_exact_def)
  qed (use assms(2) in \<open>simp add: kind_limited_inv_def\<close>)
  then show ?thesis using assms(2) ex lim reserve_ok[OF assms(1) r] by (simp add: Reserve r kind_limited_inv_def)
next
  case (Release i)
  obtain e b' where r: "release i b = (e, b')" by (cases "release i b")
  have lim: "bt_limits b' = bt_limits b" using bt_limits_frame(2)[of i b] by (simp add: r)
  have ex: "kind_exact k b'" using assms(2) by (intro release_exact[OF assms(1) r]) (auto simp: kind_limited_inv_def)
  have "open_sum k b' \<le> open_sum k b"
    using assms(1) r
  proof (cases rule: release_cases)
    case (closed rr)
    show ?thesis using open_sum_erase[OF closed(1), of b' k] by (simp add: closed(4))
  qed simp
  then show ?thesis using assms ex lim release_ok[OF assms(1) r] tracker_ok_mono[of "Suc n" b' n]
    by (simp add: Release r kind_limited_inv_def)
qed

lemma budget_run_inv:
  assumes "tracker_ok (length ops + n) b" "kind_limited_inv k b"
  shows "tracker_ok n (budget_run ops b) \<and> kind_limited_inv k (budget_run ops b)"
  using assms unfolding budget_run_def
proof (induction ops arbitrary: b)
  case (Cons op ops)
  have "tracker_ok (length ops + n) (budget_step op b) \<and> kind_limited_inv k (budget_step op b)"
    using Cons.prems by (intro budget_step_inv) simp_all
  then show ?case using Cons.IH by simp
qed simp

lemma bt_limits_run: "bt_limits (budget_run ops b) = bt_limits b"
proof -
  have step: "bt_limits (budget_step op c) = bt_limits c" for op c by (cases op) simp_all
  show ?thesis unfolding budget_run_def by (induction ops arbitrary: b) (simp_all add: step)
qed

section \<open>The interface the fabric and the coordinator use\<close>

text \<open>
  The contract of a ledger of reservations: \<open>opens s\<close> is the abstract state (which ids are open and
  what for), \<open>ok n s\<close> says that \<open>s\<close> is consistent and can still issue \<open>n\<close> ids. The client lemmas
  say what a pair of reservations costs, and that a pair taken and given back leaves nothing open.
\<close>

text \<open>A multiset of pairs of reservation ids (the second zero when it was refused) owns a ledger when
  the open ids are exactly those of the pairs, each held once.\<close>

definition pair_ids :: "(u64 \<times> u64) multiset \<Rightarrow> u64 multiset" where
  "pair_ids M = (\<Sum>(i, j) \<in># M. {#i#} + (if j \<noteq> 0 then {#j#} else {#}))"

definition owns :: "(u64 \<times> u64) multiset \<Rightarrow> (u64 \<Rightarrow> 'r option) \<Rightarrow> bool" where
  "owns M op \<longleftrightarrow> (\<forall>i. count (pair_ids M) i = (if op i = None then 0 else 1)) \<and> 0 \<notin># image_mset fst M"

lemma pair_ids_simps [simp]:
  "pair_ids {#} = {#}"
  "pair_ids (add_mset (i, j) M) = {#i#} + (if j \<noteq> 0 then {#j#} else {#}) + pair_ids M"
  by (simp_all add: pair_ids_def)

lemma owns_empty_iff: "owns {#} op \<longleftrightarrow> op = Map.empty"
  by (auto simp: owns_def fun_eq_iff split: if_splits)

lemma owns_empty_ledger: "owns M Map.empty \<Longrightarrow> M = {#}"
proof (rule ccontr)
  assume own: "owns M Map.empty" and "M \<noteq> {#}"
  then obtain i j N where "M = add_mset (i, j) N" by (metis multiset_cases surj_pair)
  then have "i \<in># pair_ids M" by simp
  moreover have "i \<notin># pair_ids M" using own by (simp add: owns_def not_in_iff)
  ultimately show False by simp
qed

locale reservation_ledger =
  fixes acquire :: "'k \<Rightarrow> u64 \<Rightarrow> string \<Rightarrow> 's \<Rightarrow> u64 \<times> 'e \<times> 's"
    and giveback :: "u64 \<Rightarrow> 's \<Rightarrow> 'e \<times> 's"
    and opens :: "'s \<Rightarrow> u64 \<Rightarrow> 'r option"
    and entry :: "'k \<Rightarrow> u64 \<Rightarrow> string \<Rightarrow> 'r"
    and ok :: "nat \<Rightarrow> 's \<Rightarrow> bool"
  assumes acquire_ok: "ok (Suc n) s \<Longrightarrow> acquire k a t s = (i, e, s') \<Longrightarrow> ok n s'"
    and acquire_refused: "ok n s \<Longrightarrow> acquire k a t s = (0, e, s') \<Longrightarrow> s' = s"
    and acquire_opens: "ok n s \<Longrightarrow> acquire k a t s = (i, e, s') \<Longrightarrow> i \<noteq> 0 \<Longrightarrow>
      opens s i = None \<and> opens s' = (opens s)(i \<mapsto> entry k a t)"
    and giveback_ok: "ok n s \<Longrightarrow> giveback i s = (e, s') \<Longrightarrow> ok n s'"
    and giveback_opens: "ok n s \<Longrightarrow> giveback i s = (e, s') \<Longrightarrow> opens s' = (opens s)(i := None)"
begin

text \<open>The id zero is never given back: clients test their second reservation for it.\<close>

lemma giveback_nz:
  assumes "ok n s"
  shows "opens (if i \<noteq> 0 then snd (giveback i s) else s) = (if i \<noteq> 0 then (opens s)(i := None) else opens s)"
    "ok n (if i \<noteq> 0 then snd (giveback i s) else s)"
  using giveback_opens[OF assms, of i] giveback_ok[OF assms, of i] assms by (cases "giveback i s"; simp)+

lemma pair_neutral:
  assumes "ok (Suc (Suc n)) s" "acquire k a t s = (i, e, s1)" "i \<noteq> 0" "acquire k' a' t' s1 = (j, e', s2)"
    and "s3 = snd (giveback i s2)" "s4 = (if j \<noteq> 0 then snd (giveback j s3) else s3)"
  shows "opens s4 = opens s" "ok n s4"
proof -
  have ok1: "ok (Suc n) s1" by (rule acquire_ok[OF assms(1,2)])
  have ok2: "ok n s2" by (rule acquire_ok[OF ok1 assms(4)])
  have i: "opens s i = None" "opens s1 = (opens s)(i \<mapsto> entry k a t)"
    using acquire_opens[OF assms(1,2,3)] by auto
  have ok3: "ok n s3" and o3: "opens s3 = (opens s2)(i := None)"
    using giveback_ok[OF ok2, of i] giveback_opens[OF ok2, of i] by (cases "giveback i s2"; simp add: assms(5))+
  show "ok n s4" unfolding assms(6) by (rule giveback_nz(2)[OF ok3])
  show "opens s4 = opens s"
  proof (cases "j = 0")
    case True
    then have "s2 = s1" using acquire_refused[OF ok1] assms(4) by simp
    then show ?thesis using giveback_nz(1)[OF ok3, of j] True assms(6) o3 i by auto
  next
    case False
    then have "opens s1 j = None" "opens s2 = (opens s1)(j \<mapsto> entry k' a' t')"
      using acquire_opens[OF ok1 assms(4)] by auto
    then show ?thesis using giveback_nz(1)[OF ok3, of j] False assms(6) o3 i by (auto simp: fun_eq_iff)
  qed
qed

lemma acquire_pair_owns:
  assumes "ok (Suc (Suc n)) s" "owns M (opens s)" "acquire k a t s = (i, e, s1)" "i \<noteq> 0"
    "acquire k' a' t' s1 = (j, e', s2)"
  shows "owns (add_mset (i, j) M) (opens s2)" "ok n s2"
proof -
  have ok1: "ok (Suc n) s1" by (rule acquire_ok[OF assms(1,3)])
  show "ok n s2" by (rule acquire_ok[OF ok1 assms(5)])
  have i: "opens s i = None" "opens s1 = (opens s)(i \<mapsto> entry k a t)"
    using acquire_opens[OF assms(1,3,4)] by auto
  show "owns (add_mset (i, j) M) (opens s2)"
  proof (cases "j = 0")
    case True
    then have "s2 = s1" using acquire_refused[OF ok1] assms(5) by simp
    then show ?thesis using assms(2,4) i True by (auto simp: owns_def)
  next
    case False
    then have "opens s1 j = None" "opens s2 = (opens s1)(j \<mapsto> entry k' a' t')"
      using acquire_opens[OF ok1 assms(5)] by auto
    then show ?thesis using assms(2,4) i False by (auto simp: owns_def)
  qed
qed

lemma giveback_pair_owns:
  assumes "ok n s" "owns (add_mset (i, j) M) (opens s)"
    and "s3 = snd (giveback i s)" "s4 = (if j \<noteq> 0 then snd (giveback j s3) else s3)"
  shows "owns M (opens s4)" "ok n s4"
proof -
  have ok3: "ok n s3" and o3: "opens s3 = (opens s)(i := None)"
    using giveback_ok[OF assms(1), of i] giveback_opens[OF assms(1), of i] by (cases "giveback i s"; simp add: assms(3))+
  have o4: "opens s4 = (if j \<noteq> 0 then (opens s3)(j := None) else opens s3)"
    unfolding assms(4) by (rule giveback_nz(1)[OF ok3])
  show "ok n s4" unfolding assms(4) by (rule giveback_nz(2)[OF ok3])
  have cnt: "count (pair_ids (add_mset (i, j) M)) x = (if opens s x = None then 0 else 1)" for x
    using assms(2) by (simp add: owns_def)
  have "count (pair_ids M) x = (if opens s4 x = None then 0 else 1)" for x
    using cnt[of x] cnt[of i] cnt[of j] unfolding o4 o3 by (auto split: if_splits)
  then show "owns M (opens s4)" using assms(2) by (simp add: owns_def)
qed

end

definition opens_of :: "budget_tracker \<Rightarrow> u64 \<Rightarrow> reservation option" where
  "opens_of b i = map_find i (bt_reservations b)"

definition entry_of :: "budget_kind \<Rightarrow> u64 \<Rightarrow> string \<Rightarrow> reservation" where
  "entry_of k a t = \<lparr>res_kind = k, res_amount = a, res_tag = t\<rparr>"

interpretation ledger: reservation_ledger reserve release opens_of entry_of tracker_ok
proof unfold_locales
  fix n b k a t i e b'
  show "tracker_ok (Suc n) b \<Longrightarrow> reserve k a t b = (i, e, b') \<Longrightarrow> tracker_ok n b'" by (rule reserve_ok)
next
  fix n b k a t e b'
  assume "tracker_ok n b" "reserve k a t b = (0, e, b')"
  then show "b' = b" by (cases rule: reserve_cases) auto
next
  fix n b k a t i e b'
  assume *: "tracker_ok n b" "reserve k a t b = (i, e, b')" "i \<noteq> 0"
  from *(1,2) show "opens_of b i = None \<and> opens_of b' = (opens_of b)(i \<mapsto> entry_of k a t)"
    by (cases rule: reserve_cases) (use *(3) in \<open>auto simp: opens_of_def entry_of_def fun_eq_iff\<close>)
next
  fix n b i e b'
  show "tracker_ok n b \<Longrightarrow> release i b = (e, b') \<Longrightarrow> tracker_ok n b'" by (rule release_ok)
next
  fix n b i e b'
  assume *: "tracker_ok n b" "release i b = (e, b')"
  then show "opens_of b' = (opens_of b)(i := None)"
    by (cases rule: release_cases) (use *(1) in \<open>auto simp: opens_of_def fun_eq_iff tracker_ok_def\<close>)
qed

lemma opens_of_eqD:
  "tracker_ok n b \<Longrightarrow> tracker_ok m b' \<Longrightarrow> opens_of b = opens_of b' \<Longrightarrow> bt_reservations b = bt_reservations b'"
  by (rule map_ext) (auto simp: tracker_ok_def opens_of_def fun_eq_iff)

lemma balanced_iff_opens: "balanced b \<longleftrightarrow> opens_of b = Map.empty"
proof
  assume "opens_of b = Map.empty"
  then have "map_find i (bt_reservations b) = None" for i by (simp add: opens_of_def fun_eq_iff)
  then have "fst ` set (bt_reservations b) = {}" unfolding keys_eq_find by simp
  then show "balanced b" by (simp add: balanced_def)
qed (simp add: balanced_def opens_of_def fun_eq_iff)

lemma open_sum_balanced: "balanced b \<Longrightarrow> open_sum k b = 0"
  by (simp add: balanced_def open_sum_def)

end
