(* ===== verification/Policy.thy ===== *)
theory Policy
  imports Decay Budget
begin

text \<open>\<open>include/warmth/policy.hpp\<close>: one versioned bundle of decay thresholds, budget limits and
  scheduling weights.\<close>

record warmth_policy =
  pol_generation :: generation
  pol_decay :: decay_policy
  pol_budgets :: budget_limits
  weight_predicted_reuse :: double
  weight_arrival_probability :: double
  weight_latency_class :: double
  weight_priority :: double
  weight_tenant_fairness :: double
  weight_warming_cost :: double
  weight_memory_cost :: double
  weight_transfer_cost :: double
  weight_eviction_risk :: double
  weight_dependency_availability :: double
  weight_current_partial_warmth :: double
  weight_expected_benefit :: double

definition policy_defaults :: "generation \<Rightarrow> warmth_policy" where
  "policy_defaults gen = \<lparr>pol_generation = gen, pol_decay = decay_policy_default,
     pol_budgets = budget_limits_default,
     weight_predicted_reuse = dbl_lit 1, weight_arrival_probability = dbl_lit 2,
     weight_latency_class = dbl_lit (3 / 2), weight_priority = dbl_lit 3,
     weight_tenant_fairness = dbl_lit 1, weight_warming_cost = dbl_lit (- 1),
     weight_memory_cost = dbl_lit (- 1), weight_transfer_cost = dbl_lit (- 3 / 2),
     weight_eviction_risk = dbl_lit (- 1), weight_dependency_availability = dbl_lit 2,
     weight_current_partial_warmth = dbl_lit 2, weight_expected_benefit = dbl_lit (5 / 2)\<rparr>"

end
