(* ===== verification/Cost_Model.thy ===== *)
theory Cost_Model
  imports Warmth_Object
begin

text \<open>
  \<open>include/warmth/cost_model.hpp\<close>: the readiness estimate. The double additions follow the order of
  the source, so the estimate is the one the compiled code computes. The lemmas show that the
  estimate is never negative or NaN, is zero for an object that is ready and live, and is at least
  three seconds for a cold one.
\<close>

section \<open>Breakdown\<close>

datatype cost_kind = CK_UNKNOWN
  | CK_ESTIMATED
  | CK_MEASURED
  | CK_REPORTED
  | CK_DERIVED

fun cost_kind_code :: "cost_kind \<Rightarrow> u8" where
  "cost_kind_code CK_UNKNOWN = 0"
| "cost_kind_code CK_ESTIMATED = 1"
| "cost_kind_code CK_MEASURED = 2"
| "cost_kind_code CK_REPORTED = 3"
| "cost_kind_code CK_DERIVED = 4"

fun cost_kind_name :: "cost_kind \<Rightarrow> string" where
  "cost_kind_name CK_UNKNOWN = ''UNKNOWN''"
| "cost_kind_name CK_ESTIMATED = ''ESTIMATED''"
| "cost_kind_name CK_MEASURED = ''MEASURED''"
| "cost_kind_name CK_REPORTED = ''REPORTED''"
| "cost_kind_name CK_DERIVED = ''DERIVED''"

record cost_breakdown =
  bytes_to_transfer :: u64
  bytes_resident :: u64
  artifacts_to_validate :: u64
  kernels_to_prepare :: u64
  graphs_to_prepare :: u64
  context_init_steps :: u64
  adapter_activation_bytes :: u64
  tokenizer_init_steps :: u64
  prefix_kv_bytes :: u64
  allocator_init_steps :: u64
  engine_startup_ms :: u64
  sync_cost_ms :: u64
  dependency_checks :: u64

definition breakdown_zero :: cost_breakdown where
  "breakdown_zero = \<lparr>bytes_to_transfer = 0,
     bytes_resident = 0,
     artifacts_to_validate = 0,
     kernels_to_prepare = 0,
     graphs_to_prepare = 0,
     context_init_steps = 0,
     adapter_activation_bytes = 0,
     tokenizer_init_steps = 0,
     prefix_kv_bytes = 0,
     allocator_init_steps = 0,
     engine_startup_ms = 0,
     sync_cost_ms = 0,
     dependency_checks = 0\<rparr>"

definition total_bytes :: "cost_breakdown \<Rightarrow> u64" where
  "total_bytes c = bytes_to_transfer c + bytes_resident c + adapter_activation_bytes c + prefix_kv_bytes c"

definition is_zero :: "cost_breakdown \<Rightarrow> bool" where
  "is_zero c \<longleftrightarrow> bytes_to_transfer c = 0 \<and> bytes_resident c = 0 \<and> artifacts_to_validate c = 0 \<and>
     kernels_to_prepare c = 0 \<and> graphs_to_prepare c = 0 \<and> context_init_steps c = 0 \<and>
     adapter_activation_bytes c = 0 \<and> tokenizer_init_steps c = 0 \<and> prefix_kv_bytes c = 0 \<and>
     allocator_init_steps c = 0 \<and> engine_startup_ms c = 0 \<and> sync_cost_ms c = 0 \<and>
     dependency_checks c = 0"

record readiness_cost =
  rc_kind :: cost_kind
  rc_estimated :: cost_breakdown
  rc_measured :: cost_breakdown
  rc_expected_ttfu_ms :: double
  rc_observed_ttfu_ms :: double

definition readiness_cost_default :: readiness_cost where
  "readiness_cost_default = \<lparr>rc_kind = CK_ESTIMATED, rc_estimated = breakdown_zero,
     rc_measured = breakdown_zero, rc_expected_ttfu_ms = dbl_zero, rc_observed_ttfu_ms = dbl_zero\<rparr>"

definition has_measurement :: "readiness_cost \<Rightarrow> bool" where
  "has_measurement c \<longleftrightarrow> \<not> is_zero (rc_measured c) \<or> dbl_lt dbl_zero (rc_observed_ttfu_ms c)"

section \<open>The estimate\<close>

definition is_cold_state :: "warmth_state \<Rightarrow> bool" where
  "is_cold_state st \<longleftrightarrow> st = COLD \<or> st = DISCOVERED \<or> st = EVICTED \<or> st = INVALIDATED"

definition cold_or_discovered :: "dimension_status \<Rightarrow> bool" where
  "cold_or_discovered s \<longleftrightarrow> s = D_COLD \<or> s = D_DISCOVERED"

text \<open>The integer part of the estimate, field by field.\<close>

definition estimate_breakdown :: "warmth_object \<Rightarrow> u64 \<Rightarrow> cost_breakdown" where
  "estimate_breakdown obj model_bytes =
    (let d = wo_dims obj; st = wo_state obj;
         partial = (st = PARTIALLY_WARM); warm = (st = WARM \<or> st = HOT);
         mb = (if model_bytes = 0 then 2 ^ 30 else model_bytes);
         deps = (if \<not> all_ready d then 1 else 0) + (if any_suspect d then 1 else 0)
     in \<lparr>bytes_to_transfer =
            (if cold_or_discovered (artifact_availability d) then mb else 0) + (if model_residency d = D_COLD then mb else 0),
         bytes_resident = 0,
         artifacts_to_validate =
            (if cold_or_discovered (artifact_validation d) \<or> artifact_validation d = D_PARTIAL then 1 else 0),
         kernels_to_prepare = (if cold_or_discovered (kernel_readiness d) then 1 else 0),
         graphs_to_prepare = (if cold_or_discovered (graph_readiness d) then 1 else 0),
         context_init_steps = (if cold_or_discovered (cuda_context_readiness d) then 1 else 0),
         adapter_activation_bytes = (if cold_or_discovered (adapter_residency d) then 2 ^ 28 else 0),
         tokenizer_init_steps = (if tokenizer_readiness d = D_COLD then 1 else 0),
         prefix_kv_bytes = (if prefix_kv_reuse d = D_PARTIAL then 2 ^ 26 else 0),
         allocator_init_steps = (if allocator_readiness d = D_COLD then 1 else 0),
         engine_startup_ms =
            (if cold_or_discovered (engine_readiness d) then (if is_cold_state st then 900 else 200) else 0),
         sync_cost_ms = (if deps > 0 then (if warm then 2 else if partial then 60 else 250) else 0),
         dependency_checks = deps\<rparr>)"

text \<open>\<open>if (c) ttf += x\<close>.\<close>

definition add_if :: "bool \<Rightarrow> double \<Rightarrow> double \<Rightarrow> double" where
  "add_if c x ttf = (if c then dbl_add ttf x else ttf)"

definition transfer_term :: "u64 \<Rightarrow> double" where
  "transfer_term b = dbl_div (dbl_of_u64 b) (dbl_mul (dbl_lit 40000000000) (dbl_lit (9 / 10)))"

text \<open>The additions of the source in its order.\<close>

definition ttf_terms :: "warmth_state \<Rightarrow> cost_breakdown \<Rightarrow> (bool \<times> double) list" where
  "ttf_terms st e =
     [(bytes_to_transfer e > 0, transfer_term (bytes_to_transfer e)),
      (context_init_steps e > 0, dbl_lit 1200),
      (kernels_to_prepare e > 0, dbl_lit 600),
      (graphs_to_prepare e > 0, dbl_lit 400),
      (adapter_activation_bytes e > 0, dbl_lit 300),
      (tokenizer_init_steps e > 0, dbl_lit 30),
      (allocator_init_steps e > 0, dbl_lit 150),
      (prefix_kv_bytes e > 0, dbl_lit 200),
      (True, dbl_of_u64 (engine_startup_ms e)),
      (True, dbl_of_u64 (sync_cost_ms e)),
      (is_cold_state st, dbl_lit 3000)]"

definition ttf_total :: "warmth_state \<Rightarrow> cost_breakdown \<Rightarrow> double" where
  "ttf_total st e = fold (\<lambda>(c, x). add_if c x) (ttf_terms st e) dbl_zero"

definition estimate :: "warmth_object \<Rightarrow> u64 \<Rightarrow> readiness_cost" where
  "estimate obj model_bytes =
     (let e = estimate_breakdown obj model_bytes
      in readiness_cost_default\<lparr>rc_kind := CK_ESTIMATED, rc_estimated := e,
           rc_expected_ttfu_ms := ttf_total (wo_state obj) e\<rparr>)"

section \<open>Facts\<close>

lemma add_if_nonneg:
  "dbl_nonneg t \<Longrightarrow> dbl_nonneg x \<Longrightarrow> dbl_nonneg (add_if c x t) \<and> dbl_le t (add_if c x t) \<and> (c \<longrightarrow> dbl_le x (add_if c x t))"
  using dbl_add_nonneg[of t x] by (auto simp: add_if_def dbl_nonneg_def)

lemma fold_add_if:
  "dbl_nonneg t \<Longrightarrow> \<forall>(c, x) \<in> set ts. dbl_nonneg x \<Longrightarrow>
     dbl_nonneg (fold (\<lambda>(c, x). add_if c x) ts t) \<and> dbl_le t (fold (\<lambda>(c, x). add_if c x) ts t)
     \<and> (\<forall>(c, x) \<in> set ts. c \<longrightarrow> dbl_le x (fold (\<lambda>(c, x). add_if c x) ts t))"
proof (induction ts arbitrary: t)
  case (Cons cx ts)
  obtain c x where cx: "cx = (c, x)" by (cases cx)
  note step = add_if_nonneg[of t x c]
  from Cons.prems cx have "dbl_nonneg x" by simp
  note step = step[OF Cons.prems(1) this]
  note IH = Cons.IH[of "add_if c x t"]
  show ?case using step IH Cons.prems(2) by (auto simp: cx intro: dbl_le_trans)
qed (simp add: dbl_nonneg_def)


lemma bandwidth_pos:
  defines "bw \<equiv> dbl_mul (dbl_lit 40000000000) (dbl_lit (9 / 10))"
  shows "dbl_nonneg bw" "dbl_mag bw \<noteq> 0"
proof -
  have a: "isfinite (dbl_lit 40000000000)" "dbl_val (dbl_lit 40000000000) = 40000000000"
    by (rule dbl_lit_numeral; simp)+
  have l: "dbl_lit (9 / 10) = dbl_rnd False (9 / 10)" by (simp add: dbl_lit_def)
  note b = dbl_rnd_between[of 1 1 1 0 "9 / 10"]
  have b: "isfinite (dbl_lit (9 / 10))" "1 / 2 \<le> dbl_val (dbl_lit (9 / 10))" "dbl_val (dbl_lit (9 / 10)) \<le> 1"
    unfolding l using b by simp_all
  have bw: "bw = dbl_rnd False (40000000000 * dbl_val (dbl_lit (9 / 10)))"
    unfolding bw_def using dbl_mul_pos[OF _ _ a(1) b(1)] by (simp add: a(2))
  show "dbl_nonneg bw" by (simp add: bw dbl_nonneg_def)
  have "1 \<le> dbl_val bw"
    unfolding bw using dbl_rnd_between(2)[of 1 40000000000 0 0 "40000000000 * dbl_val (dbl_lit (9 / 10))"] b by simp
  then show "dbl_mag bw \<noteq> 0" by (intro dbl_mag_pos) linarith
qed

lemma transfer_term_nonneg: "dbl_nonneg (transfer_term b)"
  unfolding transfer_term_def by (intro dbl_nonneg_div bandwidth_pos isfinite_of_u64) simp

lemma ttf_terms_nonneg: "\<forall>(c, x) \<in> set (ttf_terms st e). dbl_nonneg x"
  by (simp add: ttf_terms_def transfer_term_nonneg)

lemma ttf_total_nonneg: "dbl_nonneg (ttf_total st e)"
  unfolding ttf_total_def using fold_add_if[OF _ ttf_terms_nonneg] by simp

lemma ttf_total_term:
  assumes "(True, x) \<in> set (ttf_terms st e)"
  shows "dbl_le x (ttf_total st e)"
proof -
  have "\<forall>(c, x) \<in> set (ttf_terms st e). c \<longrightarrow> dbl_le x (ttf_total st e)"
    unfolding ttf_total_def by (intro conjunct2[OF conjunct2[OF fold_add_if]] ttf_terms_nonneg dbl_nonneg_zero)
  from bspec[OF this assms] show ?thesis by simp
qed

lemma estimate_simps [simp]:
  "rc_estimated (estimate obj mb) = estimate_breakdown obj mb"
  "rc_expected_ttfu_ms (estimate obj mb) = ttf_total (wo_state obj) (estimate_breakdown obj mb)"
  by (simp_all add: estimate_def Let_def)

lemma all_ready_dims:
  "all_ready d \<Longrightarrow> dims_get i d \<noteq> D_COLD \<and> dims_get i d \<noteq> D_DISCOVERED \<and> dims_get i d \<noteq> D_PARTIAL \<and> dims_get i d \<noteq> D_SUSPECT"
  by (cases "dims_get i d") (auto simp: all_ready_iff dest!: spec[of _ i])

lemma estimate_breakdown_ready:
  assumes "all_ready (wo_dims obj)"
  shows "estimate_breakdown obj mb = breakdown_zero"
proof -
  note r = all_ready_dims[OF assms]
  have "\<not> any_suspect (wo_dims obj)" using r by (simp add: any_suspect_iff)
  then show ?thesis
    using assms r[of ArtifactAvailability] r[of ArtifactValidation] r[of ModelResidency] r[of AdapterResidency]
      r[of TokenizerReadiness] r[of CudaContextReadiness] r[of KernelReadiness] r[of GraphReadiness]
      r[of AllocatorReadiness] r[of PrefixKvReuse] r[of EngineReadiness]
    by (simp add: estimate_breakdown_def breakdown_zero_def Let_def cold_or_discovered_def)
qed

lemma ttf_total_zero: "\<not> is_cold_state st \<Longrightarrow> ttf_total st breakdown_zero = dbl_zero"
  by (simp add: ttf_total_def ttf_terms_def breakdown_zero_def add_if_def)

section \<open>The estimate is zero or a normal number\<close>

lemma fold_add_if_tidy:
  assumes "\<forall>(c, x) \<in> set ts. c \<longrightarrow> dbl_tidy n x" "dbl_tidy m t" "m + length ts * n < 2 ^ 53"
  shows "dbl_tidy (m + length ts * n) (fold (\<lambda>(c, x). add_if c x) ts t)"
  using assms
proof (induction ts arbitrary: m t)
  case (Cons cx ts)
  obtain c x where cx: "cx = (c, x)" by (cases cx)
  have "dbl_tidy (m + n) (add_if c x t)"
  proof (cases c)
    case True
    then show ?thesis using Cons.prems dbl_tidy_add[of m t n x] by (simp add: add_if_def cx)
  next
    case False
    then show ?thesis using Cons.prems by (auto simp: add_if_def dbl_tidy_def elim: dbl_within_mono)
  qed
  then show ?case using Cons.IH[of "m + n" "add_if c x t"] Cons.prems by (simp add: cx add.assoc)
qed simp

lemma transfer_term_tidy: "dbl_tidy (10 ^ 9) (transfer_term b)"
proof -
  define bw where "bw = dbl_mul (dbl_lit 40000000000) (dbl_lit (9 / 10))"
  have t: "transfer_term b = dbl_div (dbl_of_u64 b) bw" by (simp add: transfer_term_def bw_def)
  have a: "isfinite (dbl_lit 40000000000)" "dbl_val (dbl_lit 40000000000) = 40000000000" by (rule dbl_lit_numeral; simp)+
  have "dbl_lit (9 / 10) = dbl_rnd False (9 / 10)" by (simp add: dbl_lit_def)
  then have c: "isfinite (dbl_lit (9 / 10))" "1 / 2 \<le> dbl_val (dbl_lit (9 / 10))" "dbl_val (dbl_lit (9 / 10)) \<le> 1"
    using dbl_rnd_between[of 1 1 1 0 "9 / 10"] by simp_all
  have "bw = dbl_rnd False (40000000000 * dbl_val (dbl_lit (9 / 10)))"
    unfolding bw_def using dbl_mul_pos[OF _ _ a(1) c(1)] by (simp add: a(2))
  then have bw: "isfinite bw" "20000000000 \<le> dbl_val bw" "dbl_val bw \<le> 40000000000" "\<not> dbl_neg bw"
    using dbl_rnd_between[of 20000000000 40000000000 0 0 "40000000000 * dbl_val (dbl_lit (9 / 10))"] c by simp_all
  define v where "v = dbl_val (dbl_of_u64 b)"
  have neg: "\<not> dbl_neg (dbl_of_u64 b)" using dbl_nonneg_of_u64[of b] by (simp add: dbl_nonneg_def)
  have d: "transfer_term b = dbl_rnd False (v / dbl_val bw)"
    unfolding t v_def using dbl_div_pos[OF isfinite_of_u64 bw(1) neg bw(4)] bw(2) by simp
  show ?thesis
  proof (cases "b = 0")
    case True
    have "dbl_rnd False 0 = dbl_zero" using dbl_rnd_exact[of dbl_zero] by (simp add: dbl_neg_def)
    then show ?thesis using d True by (simp add: v_def)
  next
    case False
    have v1: "1 \<le> v" and v2: "v \<le> 2 ^ 64" using dbl_of_u64_bounds False by (simp_all add: v_def)
    have "1 / 2 ^ 36 \<le> v / dbl_val bw" using v1 bw(2,3) by (simp add: field_simps)
    moreover have "v / dbl_val bw \<le> 10 ^ 9" using v2 bw(2) by (simp add: field_simps)
    ultimately have r: "isfinite (transfer_term b)" "1 / 2 ^ 36 \<le> dbl_val (transfer_term b)" "dbl_val (transfer_term b) \<le> 10 ^ 9"
      unfolding d using dbl_rnd_between[of 1 "10 ^ 9" 36 0 "v / dbl_val bw"] by simp_all
    have "2 ^ 52 \<le> dbl_mag (transfer_term b)" using r(2) by (intro dbl_mag_normal[of 36]) (simp_all add: d)
    then show ?thesis using r transfer_term_nonneg[of b] by (simp add: dbl_tidy_def dbl_within_def dbl_val_nonneg)
  qed
qed
text \<open>Eleven terms of at most \<open>10 ^ 9\<close> each.\<close>

lemma ttf_total_tidy: "dbl_tidy (11 * 10 ^ 9) (ttf_total (wo_state obj) (estimate_breakdown obj mb))"
proof -
  let ?e = "estimate_breakdown obj mb"
  have "unat (engine_startup_ms ?e) \<le> 10 ^ 9" "unat (sync_cost_ms ?e) \<le> 10 ^ 9"
    by (simp_all add: estimate_breakdown_def Let_def)
  then have "dbl_tidy (10 ^ 9) (dbl_of_u64 (engine_startup_ms ?e))" "dbl_tidy (10 ^ 9) (dbl_of_u64 (sync_cost_ms ?e))"
    by (intro dbl_tidy_of_u64; simp)+
  moreover have "dbl_tidy (10 ^ 9) (dbl_lit (numeral w))" if "numeral w \<le> (10 ^ 9 :: nat)" for w
    using that by (intro dbl_tidy_lit) simp_all
  ultimately have "\<forall>(c, x) \<in> set (ttf_terms (wo_state obj) ?e). c \<longrightarrow> dbl_tidy (10 ^ 9) x"
    using transfer_term_tidy by (simp add: ttf_terms_def)
  from fold_add_if_tidy[OF this dbl_tidy_zero[of 0]] show ?thesis
    by (simp add: ttf_total_def ttf_terms_def)
qed

end
