(* ===== verification/Scheduler.thy ===== *)
theory Scheduler
  imports Policy Cost_Model
begin

text \<open>
  \<open>include/warmth/scheduler.hpp\<close>: preferences, their weighted score and the deterministic plan. A
  plan is a permutation of its candidates in descending score with ascending ids among equal
  scores, and as long as no score is NaN and ids are distinct it is the only such list, so the
  plan does not depend on the sorting algorithm of the standard library or on the input order.
\<close>

section \<open>Actions\<close>

datatype warmth_action = VALIDATE_ARTIFACT
  | LOAD_MODEL
  | TRANSFER_HOST_DEVICE
  | ACTIVATE_ADAPTER
  | INIT_TOKENIZER
  | INIT_CUDA_CONTEXT
  | LOAD_MODULE
  | PREPARE_KERNEL
  | CAPTURE_GRAPH
  | INSTANTIATE_GRAPH
  | PREPARE_ALLOCATOR
  | WARMUP_EXECUTION
  | ACQUIRE_PREFIX_KV
  | INIT_ENGINE

fun action_code :: "warmth_action \<Rightarrow> u8" where
  "action_code VALIDATE_ARTIFACT = 0"
| "action_code LOAD_MODEL = 1"
| "action_code TRANSFER_HOST_DEVICE = 2"
| "action_code ACTIVATE_ADAPTER = 3"
| "action_code INIT_TOKENIZER = 4"
| "action_code INIT_CUDA_CONTEXT = 5"
| "action_code LOAD_MODULE = 6"
| "action_code PREPARE_KERNEL = 7"
| "action_code CAPTURE_GRAPH = 8"
| "action_code INSTANTIATE_GRAPH = 9"
| "action_code PREPARE_ALLOCATOR = 10"
| "action_code WARMUP_EXECUTION = 11"
| "action_code ACQUIRE_PREFIX_KV = 12"
| "action_code INIT_ENGINE = 13"

fun action_name :: "warmth_action \<Rightarrow> string" where
  "action_name VALIDATE_ARTIFACT = ''VALIDATE_ARTIFACT''"
| "action_name LOAD_MODEL = ''LOAD_MODEL''"
| "action_name TRANSFER_HOST_DEVICE = ''TRANSFER_HOST_DEVICE''"
| "action_name ACTIVATE_ADAPTER = ''ACTIVATE_ADAPTER''"
| "action_name INIT_TOKENIZER = ''INIT_TOKENIZER''"
| "action_name INIT_CUDA_CONTEXT = ''INIT_CUDA_CONTEXT''"
| "action_name LOAD_MODULE = ''LOAD_MODULE''"
| "action_name PREPARE_KERNEL = ''PREPARE_KERNEL''"
| "action_name CAPTURE_GRAPH = ''CAPTURE_GRAPH''"
| "action_name INSTANTIATE_GRAPH = ''INSTANTIATE_GRAPH''"
| "action_name PREPARE_ALLOCATOR = ''PREPARE_ALLOCATOR''"
| "action_name WARMUP_EXECUTION = ''WARMUP_EXECUTION''"
| "action_name ACQUIRE_PREFIX_KV = ''ACQUIRE_PREFIX_KV''"
| "action_name INIT_ENGINE = ''INIT_ENGINE''"

definition action_list :: "warmth_action list" where
  "action_list = [VALIDATE_ARTIFACT, LOAD_MODEL, TRANSFER_HOST_DEVICE, ACTIVATE_ADAPTER, INIT_TOKENIZER, INIT_CUDA_CONTEXT, LOAD_MODULE, PREPARE_KERNEL, CAPTURE_GRAPH, INSTANTIATE_GRAPH, PREPARE_ALLOCATOR, WARMUP_EXECUTION, ACQUIRE_PREFIX_KV, INIT_ENGINE]"

definition action_of_code :: "u8 \<Rightarrow> warmth_action option" where
  "action_of_code = enum_of action_list"

interpretation action_enum: byte_enum action_code action_of_code
  unfolding action_of_code_def
proof (rule byte_enum_enum_of)
  fix x show "unat (action_code x) < length action_list \<and> action_list ! unat (action_code x) = x"
    by (cases x) (simp_all add: action_list_def)
qed (simp add: action_list_def)

section \<open>Preferences\<close>

record warmth_preference =
  pref_predicted_reuse :: double
  pref_arrival_probability :: double
  pref_latency_class :: double
  pref_priority :: double
  pref_tenant_fairness :: double
  pref_warming_cost_normalized :: double
  pref_memory_cost_normalized :: double
  pref_transfer_cost_normalized :: double
  pref_eviction_risk :: double
  pref_dependency_availability :: double
  pref_current_partial_warmth :: double
  pref_expected_benefit :: double
  pref_available_capacity :: double
  pref_id :: id128

definition preference_default :: warmth_preference where
  "preference_default = \<lparr>pref_predicted_reuse = dbl_zero,
     pref_arrival_probability = dbl_zero,
     pref_latency_class = dbl_zero,
     pref_priority = dbl_zero,
     pref_tenant_fairness = dbl_zero,
     pref_warming_cost_normalized = dbl_lit (1 / 2),
     pref_memory_cost_normalized = dbl_lit (1 / 2),
     pref_transfer_cost_normalized = dbl_lit (1 / 2),
     pref_eviction_risk = dbl_zero,
     pref_dependency_availability = dbl_lit 1,
     pref_current_partial_warmth = dbl_zero,
     pref_expected_benefit = dbl_zero,
     pref_available_capacity = dbl_lit 1, pref_id = id_default\<rparr>"

definition clamp01 :: "double \<Rightarrow> double" where
  "clamp01 v = (if dbl_lt v dbl_zero then dbl_zero else if dbl_lt (dbl_lit 1) v then dbl_lit 1 else v)"

text \<open>The components in the order of the weights.\<close>

definition preference_components :: "warmth_preference \<Rightarrow> double list" where
  "preference_components p =
     [pref_predicted_reuse p,
      pref_arrival_probability p,
      pref_latency_class p,
      pref_priority p,
      pref_tenant_fairness p,
      pref_warming_cost_normalized p,
      pref_memory_cost_normalized p,
      pref_transfer_cost_normalized p,
      pref_eviction_risk p,
      pref_dependency_availability p,
      pref_current_partial_warmth p,
      pref_expected_benefit p]"

definition preference_score :: "warmth_preference \<Rightarrow> double list \<Rightarrow> double" where
  "preference_score p w =
     fold (\<lambda>(wi, c) s. dbl_add s (dbl_mul wi (clamp01 c))) (zip w (preference_components p)) dbl_zero"

definition policy_weights :: "warmth_policy \<Rightarrow> double list" where
  "policy_weights pol =
     [weight_predicted_reuse pol,
      weight_arrival_probability pol,
      weight_latency_class pol,
      weight_priority pol,
      weight_tenant_fairness pol,
      weight_warming_cost pol,
      weight_memory_cost pol,
      weight_transfer_cost pol,
      weight_eviction_risk pol,
      weight_dependency_availability pol,
      weight_current_partial_warmth pol,
      weight_expected_benefit pol]"

section \<open>Plans\<close>

record plan_step =
  ps_object :: id128
  ps_action :: warmth_action
  ps_score :: double
  ps_estimated_cost_ms :: double
  ps_rationale :: string

record warmth_plan =
  plan_workload :: id128
  plan_replica :: id128
  plan_steps :: "plan_step list"
  plan_policy_generation :: generation
  plan_tie_break :: string

record candidate =
  cd_id :: id128
  cd_preference :: warmth_preference
  cd_estimated_cost_ms :: double
  cd_suggested_action :: warmth_action

definition cand_less :: "double list \<Rightarrow> candidate \<Rightarrow> candidate \<Rightarrow> bool" where
  "cand_less w a b =
     (let sa = preference_score (cd_preference a) w; sb = preference_score (cd_preference b) w
      in if \<not> dbl_eq sa sb then dbl_lt sb sa else cd_id a < cd_id b)"

definition sort_candidates :: "warmth_policy \<Rightarrow> candidate list \<Rightarrow> candidate list" where
  "sort_candidates pol cs = sort_by (cand_less (policy_weights pol)) cs"

definition rationale :: "warmth_preference \<Rightarrow> string" where
  "rationale p = ''reuse='' @ dbl_to_string (pref_predicted_reuse p) @
     '' prob='' @ dbl_to_string (pref_arrival_probability p) @
     '' priority='' @ dbl_to_string (pref_priority p) @
     '' benefit='' @ dbl_to_string (pref_expected_benefit p)"

definition plan_step_of :: "double list \<Rightarrow> candidate \<Rightarrow> plan_step" where
  "plan_step_of w c = \<lparr>ps_object = cd_id c, ps_action = cd_suggested_action c,
     ps_score = preference_score (cd_preference c) w,
     ps_estimated_cost_ms = cd_estimated_cost_ms c, ps_rationale = rationale (cd_preference c)\<rparr>"

definition build :: "warmth_policy \<Rightarrow> id128 \<Rightarrow> id128 \<Rightarrow> candidate list \<Rightarrow> warmth_plan" where
  "build pol workload replica cs =
     \<lparr>plan_workload = workload, plan_replica = replica,
      plan_steps = map (plan_step_of (policy_weights pol)) (sort_candidates pol cs),
      plan_policy_generation = pol_generation pol,
      plan_tie_break = ''score_desc_then_id_asc''\<rparr>"

section \<open>The order of a plan\<close>

lemma cand_less_iff:
  assumes "\<not> isnan (preference_score (cd_preference a) w)" "\<not> isnan (preference_score (cd_preference b) w)"
  shows "cand_less w a b \<longleftrightarrow>
    dbl_key (preference_score (cd_preference b) w) < dbl_key (preference_score (cd_preference a) w)
    \<or> dbl_key (preference_score (cd_preference a) w) = dbl_key (preference_score (cd_preference b) w) \<and> cd_id a < cd_id b"
  using assms by (auto simp: cand_less_def Let_def dbl_eq_def dbl_lt_def)

interpretation plan_order: tie_broken_order "cand_less w" cd_id "\<lambda>c :: candidate. \<not> isnan (preference_score (cd_preference c) w)"
  for w
proof unfold_locales
  fix a :: candidate show "\<not> cand_less w a a" by (auto simp: cand_less_def Let_def dbl_lt_def)
next
  fix a b c :: candidate
  assume "\<not> isnan (preference_score (cd_preference a) w)" "\<not> isnan (preference_score (cd_preference b) w)"
    "\<not> isnan (preference_score (cd_preference c) w)" "cand_less w a b" "cand_less w b c"
  then show "cand_less w a c" by (auto simp: cand_less_iff)
next
  fix a b :: candidate
  assume "\<not> isnan (preference_score (cd_preference a) w)" "\<not> isnan (preference_score (cd_preference b) w)" "cd_id a \<noteq> cd_id b"
  then show "cand_less w a b \<or> cand_less w b a" by (auto simp: cand_less_iff)
qed

text \<open>What a reader of the plan sees: scores never rise, and ids rise where scores tie.\<close>

definition step_before :: "plan_step \<Rightarrow> plan_step \<Rightarrow> bool" where
  "step_before a b \<longleftrightarrow> dbl_lt (ps_score b) (ps_score a) \<or> dbl_eq (ps_score a) (ps_score b) \<and> ps_object a < ps_object b"

lemma build_sorted:
  assumes "\<forall>c \<in> set cs. \<not> isnan (preference_score (cd_preference c) (policy_weights pol))" "distinct (map cd_id cs)"
  shows "sorted_wrt step_before (plan_steps (build pol wl rp cs))"
proof -
  let ?w = "policy_weights pol"
  have "sorted_wrt (cand_less ?w) (sort_candidates pol cs)"
    unfolding sort_candidates_def using assms by (rule plan_order.sorted_sort_by)
  then have "sorted_wrt (\<lambda>a b. step_before (plan_step_of ?w a) (plan_step_of ?w b)) (sort_candidates pol cs)"
    by (rule sorted_wrt_mono_rel[rotated]) (auto simp: step_before_def plan_step_of_def cand_less_def Let_def split: if_splits)
  then show ?thesis by (simp add: build_def sorted_wrt_map)
qed

lemma build_steps_perm: "mset (map ps_object (plan_steps (build pol wl rp cs))) = mset (map cd_id cs)"
proof -
  have "map ps_object (plan_steps (build pol wl rp cs)) = map cd_id (sort_candidates pol cs)"
    by (simp add: build_def plan_step_of_def)
  then show ?thesis by (simp add: sort_candidates_def)
qed

lemma build_perm_invariant:
  assumes "\<forall>c \<in> set cs. \<not> isnan (preference_score (cd_preference c) (policy_weights pol))" "distinct (map cd_id cs)"
    "mset cs' = mset cs"
  shows "build pol wl rp cs' = build pol wl rp cs"
proof -
  have d: "distinct (map cd_id cs')" using assms(2,3) by (metis mset_map mset_eq_imp_distinct_iff)
  have "set cs' = set cs" using assms(3) by (rule mset_eq_setD)
  then have "sort_candidates pol cs' = sort_candidates pol cs"
    unfolding sort_candidates_def using assms d
    by (intro plan_order.sort_by_unique plan_order.sorted_sort_by) simp_all
  then show ?thesis by (simp add: build_def)
qed

section \<open>Scores are numbers\<close>

lemma clamp01_within:
  assumes "\<not> isnan v"
  shows "dbl_within 1 (clamp01 v)"
proof -
  have one: "dbl_within 1 (dbl_lit 1)" by (rule dbl_within_lit) simp_all
  show ?thesis
  proof (cases "dbl_lt v dbl_zero \<or> dbl_lt (dbl_lit 1) v")
    case True
    then show ?thesis using one by (auto simp: clamp01_def)
  next
    case False
    then have le: "dbl_le dbl_zero v" "dbl_le v (dbl_lit 1)" using assms by (auto simp: dbl_not_lt)
    have "dbl_key v \<le> dbl_key (dbl_lit 1)" "0 \<le> dbl_key v" using le by (simp_all add: dbl_le_def)
    then have "dbl_mag v \<le> dbl_mag (dbl_lit 1)" using dbl_lit_one(3) by (auto simp: dbl_key_def split: if_splits)
    then have fin: "isfinite v" using dbl_lit_one(1) unfolding isfinite_def by linarith
    then have "0 \<le> dbl_val v" "dbl_val v \<le> 1" using le dbl_lit_one by (simp_all add: dbl_le_finite)
    then show ?thesis using False fin by (simp add: clamp01_def dbl_within_def)
  qed
qed

lemma fold_score_within:
  assumes "\<forall>(w, c) \<in> set ts. dbl_within B w \<and> \<not> isnan c" "dbl_within A s" "A + B * length ts < 2 ^ 53"
  shows "dbl_within (A + B * length ts) (fold (\<lambda>(w, c) s. dbl_add s (dbl_mul w (clamp01 c))) ts s)"
  using assms
proof (induction ts arbitrary: A s)
  case (Cons t ts)
  obtain w c where t: "t = (w, c)" by (cases t)
  have "dbl_within (B * 1) (dbl_mul w (clamp01 c))"
    using Cons.prems by (intro dbl_within_mul clamp01_within) (auto simp: t)
  then have "dbl_within (A + B) (dbl_add s (dbl_mul w (clamp01 c)))"
    using Cons.prems by (intro dbl_within_add) (auto simp: t)
  with Cons.IH[of "A + B"] Cons.prems show ?case by (simp add: t algebra_simps)
qed simp

lemma score_not_nan:
  assumes "\<forall>w \<in> set ws. dbl_within B w" "B < 2 ^ 49" "\<forall>c \<in> set (preference_components p). \<not> isnan c"
  shows "\<not> isnan (preference_score p ws)"
proof -
  let ?ts = "zip ws (preference_components p)"
  have len: "length ?ts \<le> 12" by (simp add: preference_components_def)
  have "B * length ?ts \<le> B * 12" using len by (rule mult_le_mono2)
  moreover have "B * 12 < 2 ^ 53" using assms(2) by simp
  ultimately have "0 + B * length ?ts < 2 ^ 53" by (simp only: add_0)
  then have "dbl_within (0 + B * length ?ts) (preference_score p ws)"
    unfolding preference_score_def using assms(1,3)
    by (intro fold_score_within) (auto dest: set_zip_leftD set_zip_rightD)
  then show ?thesis by (rule dbl_within_not_nan)
qed

lemma default_weights_within: "w \<in> set (policy_weights (policy_defaults g)) \<Longrightarrow> dbl_within 3 w"
  by (auto simp: policy_weights_def policy_defaults_def intro!: dbl_within_lit)

end
