(* ===== verification/Invalidation.thy ===== *)
theory Invalidation
  imports Warmth_Object
begin

text \<open>
  \<open>include/warmth/invalidation.hpp\<close>: why an object may be invalidated, how severely, and the
  pure evaluation of an invalidation trigger.
\<close>

datatype invalidation_reason = IR_MODEL_REVISION_CHANGE
  | IR_ADAPTER_SET_CHANGE
  | IR_TOKENIZER_CHANGE
  | IR_KERNEL_GENERATION_CHANGE
  | IR_GRAPH_GENERATION_CHANGE
  | IR_RUNTIME_COMPILER_CHANGE
  | IR_COMPUTE_CAPABILITY_CHANGE
  | IR_CUDA_DRIVER_RUNTIME_CHANGE
  | IR_DEVICE_CHANGE
  | IR_POLICY_GENERATION_CHANGE
  | IR_REPLICA_GENERATION_CHANGE
  | IR_PROCESS_BOOT_CHANGE
  | IR_DEPENDENCY_CORRUPTION
  | IR_INTEGRITY_FAILURE

fun invalidation_reason_code :: "invalidation_reason \<Rightarrow> u8" where
  "invalidation_reason_code IR_MODEL_REVISION_CHANGE = 0"
| "invalidation_reason_code IR_ADAPTER_SET_CHANGE = 1"
| "invalidation_reason_code IR_TOKENIZER_CHANGE = 2"
| "invalidation_reason_code IR_KERNEL_GENERATION_CHANGE = 3"
| "invalidation_reason_code IR_GRAPH_GENERATION_CHANGE = 4"
| "invalidation_reason_code IR_RUNTIME_COMPILER_CHANGE = 5"
| "invalidation_reason_code IR_COMPUTE_CAPABILITY_CHANGE = 6"
| "invalidation_reason_code IR_CUDA_DRIVER_RUNTIME_CHANGE = 7"
| "invalidation_reason_code IR_DEVICE_CHANGE = 8"
| "invalidation_reason_code IR_POLICY_GENERATION_CHANGE = 9"
| "invalidation_reason_code IR_REPLICA_GENERATION_CHANGE = 10"
| "invalidation_reason_code IR_PROCESS_BOOT_CHANGE = 11"
| "invalidation_reason_code IR_DEPENDENCY_CORRUPTION = 12"
| "invalidation_reason_code IR_INTEGRITY_FAILURE = 13"

fun invalidation_reason_name :: "invalidation_reason \<Rightarrow> string" where
  "invalidation_reason_name IR_MODEL_REVISION_CHANGE = ''MODEL_REVISION_CHANGE''"
| "invalidation_reason_name IR_ADAPTER_SET_CHANGE = ''ADAPTER_SET_CHANGE''"
| "invalidation_reason_name IR_TOKENIZER_CHANGE = ''TOKENIZER_CHANGE''"
| "invalidation_reason_name IR_KERNEL_GENERATION_CHANGE = ''KERNEL_GENERATION_CHANGE''"
| "invalidation_reason_name IR_GRAPH_GENERATION_CHANGE = ''GRAPH_GENERATION_CHANGE''"
| "invalidation_reason_name IR_RUNTIME_COMPILER_CHANGE = ''RUNTIME_COMPILER_CHANGE''"
| "invalidation_reason_name IR_COMPUTE_CAPABILITY_CHANGE = ''COMPUTE_CAPABILITY_CHANGE''"
| "invalidation_reason_name IR_CUDA_DRIVER_RUNTIME_CHANGE = ''CUDA_DRIVER_RUNTIME_CHANGE''"
| "invalidation_reason_name IR_DEVICE_CHANGE = ''DEVICE_CHANGE''"
| "invalidation_reason_name IR_POLICY_GENERATION_CHANGE = ''POLICY_GENERATION_CHANGE''"
| "invalidation_reason_name IR_REPLICA_GENERATION_CHANGE = ''REPLICA_GENERATION_CHANGE''"
| "invalidation_reason_name IR_PROCESS_BOOT_CHANGE = ''PROCESS_BOOT_CHANGE''"
| "invalidation_reason_name IR_DEPENDENCY_CORRUPTION = ''DEPENDENCY_CORRUPTION''"
| "invalidation_reason_name IR_INTEGRITY_FAILURE = ''INTEGRITY_FAILURE''"

datatype invalidation_severity = SOFT | HARD

fun invalidation_severity_name :: "invalidation_severity \<Rightarrow> string" where
  "invalidation_severity_name SOFT = ''SOFT''"
| "invalidation_severity_name HARD = ''HARD''"

record invalidate_result =
  ir_changed :: bool
  ir_state :: warmth_state
  ir_reason :: invalidation_reason
  ir_severity :: invalidation_severity

definition invalidate_result_default :: invalidate_result where
  "invalidate_result_default = \<lparr>ir_changed = False, ir_state = COLD,
     ir_reason = IR_MODEL_REVISION_CHANGE, ir_severity = HARD\<rparr>"

definition evaluate_invalidation :: "warmth_state \<Rightarrow> invalidate_result" where
  "evaluate_invalidation s =
     (if s = INVALIDATED then invalidate_result_default\<lparr>ir_state := INVALIDATED, ir_changed := False\<rparr>
      else invalidate_result_default\<lparr>ir_changed := True, ir_state := INVALIDATED,
             ir_reason := IR_INTEGRITY_FAILURE\<rparr>)"

text \<open>Every state but \<open>EVICTED\<close> has the edge to \<open>INVALIDATED\<close>; the evaluation promises it for all.\<close>

lemma invalidate_allowed_iff: "transition_allowed s INVALIDATED \<longleftrightarrow> s \<noteq> EVICTED"
  by (cases s) (simp_all add: transition_allowed_def)

lemma evaluate_invalidation_simps [simp]:
  "ir_state (evaluate_invalidation s) = INVALIDATED"
  "ir_changed (evaluate_invalidation s) \<longleftrightarrow> s \<noteq> INVALIDATED"
  "ir_severity (evaluate_invalidation s) = HARD"
  by (simp_all add: evaluate_invalidation_def invalidate_result_default_def)

end
