(* ===== verification/Explanation.thy ===== *)
theory Explanation
  imports Scheduler
begin

text \<open>
  \<open>include/warmth/explanation.hpp\<close>: the structured explanation of one object and of a plan, and
  their text forms.
\<close>

record dimension_readiness =
  dr_index :: dimension_index
  dr_status :: dimension_status

record readiness_explanation =
  re_object :: id128
  re_category :: warmth_category
  re_state :: warmth_state
  re_composite :: composite_level
  re_dimensions :: "dimension_readiness list"
  re_cost :: readiness_cost
  re_execution_ready :: bool
  re_invalidation_reason :: string
  re_decay_reason :: string
  re_policy_generation :: generation
  re_residency :: string
  re_chosen_action :: string
  re_alternatives :: "string list"
  re_tie_break :: string
  re_priority :: string
  re_deadline :: string
  re_fairness :: string
  re_budget_constraints :: string
  re_missing_preparation :: string
  re_measured_warm_start_ms :: double
  re_measured_cold_start_ms :: double

definition nl :: string where
  "nl = [CHR 0x0A]"

definition readiness_to_text :: "readiness_explanation \<Rightarrow> string" where
  "readiness_to_text e =
     ''object: '' @ id_to_string (re_object e) @ nl @
     ''state: '' @ state_to_string (re_state e) @ nl @
     ''composite: '' @ composite_name (re_composite e) @ nl @
     ''execution_ready: '' @ (if re_execution_ready e then ''true'' else ''false'') @ nl @
     concat (map (\<lambda>d. ''  dimension '' @ dimension_name (dr_index d) @ '' = '' @ status_name (dr_status d) @ nl) (re_dimensions e)) @
     ''expected_ttfu_ms: '' @ dbl_to_string (rc_expected_ttfu_ms (re_cost e)) @ nl @
     ''bytes_to_transfer: '' @ nat_digits (unat (bytes_to_transfer (rc_estimated (re_cost e)))) @ nl @
     (if re_invalidation_reason e \<noteq> [] then ''invalidation_reason: '' @ re_invalidation_reason e @ nl else []) @
     (if re_decay_reason e \<noteq> [] then ''decay_reason: '' @ re_decay_reason e @ nl else []) @
     (if re_chosen_action e \<noteq> [] then ''chosen_action: '' @ re_chosen_action e @ nl else []) @
     (if re_missing_preparation e \<noteq> [] then ''missing_preparation: '' @ re_missing_preparation e @ nl else [])"

record plan_explanation =
  pe_workload :: id128
  pe_replica :: id128
  pe_policy_generation :: generation
  pe_tie_break :: string
  pe_steps :: "plan_step list"

definition plan_to_text :: "plan_explanation \<Rightarrow> string" where
  "plan_to_text p =
     ''workload: '' @ id_to_string (pe_workload p) @ nl @
     ''replica: '' @ id_to_string (pe_replica p) @ nl @
     ''policy_generation: '' @ nat_digits (unat (pe_policy_generation p)) @ nl @
     ''tie_break: '' @ pe_tie_break p @ nl @
     concat (map (\<lambda>st. ''  '' @ id_to_string (ps_object st) @ '' '' @ action_name (ps_action st) @
        '' score='' @ dbl_to_string (ps_score st) @ '' cost_ms='' @ dbl_to_string (ps_estimated_cost_ms st) @
        '' ('' @ ps_rationale st @ '')'' @ nl) (pe_steps p))"

end
