(* ===== verification/Byte_Codec.thy ===== *)
theory Byte_Codec
  imports Warmth_Object
begin

text \<open>
  The big-endian primitives shared by the snapshot format (\<open>ByteWriter\<close> and \<open>ByteReader\<close> of
  \<open>src/persistence.cpp\<close>) and the wire format (\<open>WireEncoder\<close> and \<open>WireDecoder\<close> of
  \<open>include/warmth/protocol.hpp\<close>). A reader consumes a prefix of the remaining bytes or fails. The
  locale \<open>codec\<close> is the contract between an encoder and its decoder; repetition preserves it.
\<close>

section \<open>Readers\<close>

type_synonym ('e, 'a) reader = "bytes \<Rightarrow> 'e + ('a \<times> bytes)"

definition rret :: "'a \<Rightarrow> ('e, 'a) reader" where
  "rret x s = Inr (x, s)"

definition rfail :: "'e \<Rightarrow> ('e, 'a) reader" where
  "rfail e s = Inl e"

definition rbind :: "('e, 'a) reader \<Rightarrow> ('a \<Rightarrow> ('e, 'b) reader) \<Rightarrow> ('e, 'b) reader" where
  "rbind r f s = (case r s of Inl e \<Rightarrow> Inl e | Inr (x, s') \<Rightarrow> f x s')"

text \<open>A test that makes the whole read fail.\<close>

definition rguard :: "bool \<Rightarrow> 'e \<Rightarrow> ('e, 'a) reader \<Rightarrow> ('e, 'a) reader" where
  "rguard c e r = (if c then r else rfail e)"

text \<open>The caller's error text for a primitive that failed.\<close>

definition label :: "'e \<Rightarrow> ('d, 'a) reader \<Rightarrow> ('e, 'a) reader" where
  "label e r s = (case r s of Inl _ \<Rightarrow> Inl e | Inr xs \<Rightarrow> Inr xs)"

text \<open>An enumeration byte: the validity switch, then the cast.\<close>

definition renum :: "'e \<Rightarrow> 'a option \<Rightarrow> ('a \<Rightarrow> ('e, 'b) reader) \<Rightarrow> ('e, 'b) reader" where
  "renum e x f = (case x of None \<Rightarrow> rfail e | Some y \<Rightarrow> f y)"

text \<open>The counted loop that appends one item per turn, and a loop that updates an accumulator.\<close>

fun rtimes :: "nat \<Rightarrow> ('e, 'a) reader \<Rightarrow> ('e, 'a list) reader" where
  "rtimes 0 r = rret []"
| "rtimes (Suc n) r = rbind r (\<lambda>x. rbind (rtimes n r) (\<lambda>xs. rret (x # xs)))"

fun rfold :: "('i \<Rightarrow> 'a \<Rightarrow> ('e, 'a) reader) \<Rightarrow> 'i list \<Rightarrow> 'a \<Rightarrow> ('e, 'a) reader" where
  "rfold f [] a = rret a"
| "rfold f (i # is) a = rbind (f i a) (rfold f is)"

section \<open>Primitives\<close>

definition take_n :: "nat \<Rightarrow> (unit, bytes) reader" where
  "take_n n s = (if n > length s then Inl () else Inr (take n s, drop n s))"

definition put_u8 :: "u8 \<Rightarrow> bytes" where
  "put_u8 v = [v]"

definition put_u16 :: "u16 \<Rightarrow> bytes" where
  "put_u16 v = be_bytes 2 v"

definition put_u32 :: "u32 \<Rightarrow> bytes" where
  "put_u32 v = be_bytes 4 v"

definition put_u64 :: "u64 \<Rightarrow> bytes" where
  "put_u64 v = be_bytes 8 v"

definition put_id :: "id128 \<Rightarrow> bytes" where
  "put_id i = to_bytes i"

definition put_str :: "string \<Rightarrow> bytes" where
  "put_str s = put_u32 (of_nat (length s)) @ map byte_of_char s"

definition get_u8 :: "(unit, u8) reader" where
  "get_u8 = rbind (take_n 1) (\<lambda>b. rret (hd b))"

definition get_u16 :: "(unit, u16) reader" where
  "get_u16 = rbind get_u8 (\<lambda>a. rbind get_u8 (\<lambda>b. rret (be_val [a, b])))"

definition get_u32 :: "(unit, u32) reader" where
  "get_u32 = rbind (take_n 4) (\<lambda>b. rret (be_val b))"

definition get_u64 :: "(unit, u64) reader" where
  "get_u64 = rbind (take_n 8) (\<lambda>b. rret (be_val b))"

definition get_id :: "(unit, id128) reader" where
  "get_id = rbind (take_n 16) (\<lambda>b. rret (from_bytes b))"

definition get_str :: "(unit, string) reader" where
  "get_str = rbind get_u32 (\<lambda>len s.
     if unat len > length s then Inl ()
     else Inr (map char_of_byte (take (unat len) s), drop (unat len) s))"

section \<open>Running a reader on what the writer wrote\<close>

lemma rbind_Inr: "r s = Inr (x, s') \<Longrightarrow> rbind r f s = f x s'"
  by (simp add: rbind_def)

lemma rbind_simps [simp]: "rbind (rret x) f = f x" "rbind (rfail e) f = rfail e"
  by (simp_all add: fun_eq_iff rbind_def rret_def rfail_def)

lemma rret_apply [simp]: "rret x s = Inr (x, s)"
  by (simp add: rret_def)

lemma rfail_apply [simp]: "rfail e s = Inl e"
  by (simp add: rfail_def)

lemma rguard_simps [simp]: "c \<Longrightarrow> rguard c e r = r" "\<not> c \<Longrightarrow> rguard c e r = rfail e"
  by (simp_all add: rguard_def)

lemma renum_simps [simp]: "renum e (Some y) f = f y" "renum e None f = rfail e"
  by (simp_all add: renum_def)

lemma label_Inr: "r s = Inr xs \<Longrightarrow> label e r s = Inr xs"
  by (simp add: label_def)

lemma take_n_append: "length b = n \<Longrightarrow> take_n n (b @ s) = Inr (b, s)"
  by (simp add: take_n_def)

lemma be_val_be_bytes_u16: "be_val (be_bytes 2 v) = (v :: u16)"
  by (rule be_val_be_bytes) simp

lemma be_val_be_bytes_u32: "be_val (be_bytes 4 v) = (v :: u32)"
  by (rule be_val_be_bytes) simp

lemma get_u8_put [codec]: "get_u8 (put_u8 v @ s) = Inr (v, s)"
  by (simp add: get_u8_def put_u8_def rbind_def take_n_def)

lemma get_u16_put [codec]: "get_u16 (put_u16 v @ s) = Inr (v, s)"
proof -
  have "length (be_bytes 2 v) = Suc (Suc 0)" by simp
  then obtain a b where ab: "be_bytes 2 v = [a, b]" by (auto simp: length_Suc_conv simp del: length_be_bytes)
  then have "be_val [a, b] = v" by (metis be_val_be_bytes_u16)
  then show ?thesis by (simp add: get_u16_def put_u16_def ab get_u8_def rbind_def take_n_def)
qed

lemma get_u32_put [codec]: "get_u32 (put_u32 v @ s) = Inr (v, s)"
  by (simp add: get_u32_def put_u32_def rbind_def take_n_append be_val_be_bytes_u32)

lemma get_u64_put [codec]: "get_u64 (put_u64 v @ s) = Inr (v, s)"
  by (simp add: get_u64_def put_u64_def rbind_def take_n_append)

lemma get_id_put [codec]: "get_id (put_id i @ s) = Inr (i, s)"
proof -
  have "length (to_bytes i) = 16" by (simp add: to_bytes_def)
  then show ?thesis by (simp add: get_id_def put_id_def rbind_def take_n_append from_to_bytes)
qed

lemma get_str_put [codec]: "length t < 2 ^ 32 \<Longrightarrow> get_str (put_str t @ s) = Inr (t, s)"
  by (simp add: get_str_def put_str_def rbind_def get_u32_put unat_of_nat comp_def)

text \<open>With the collection \<open>codec\<close>, the rules that run a decoder symbolically.\<close>

lemmas run_codec = rbind_Inr label_Inr append_assoc

section \<open>The contract of an encoder and its decoder\<close>

text \<open>Decoding what was encoded, in front of any further bytes, gives the value back in its normal
  form and leaves the further bytes.\<close>

locale codec =
  fixes enc :: "'a \<Rightarrow> bytes" and dec :: "('e, 'a) reader" and wf :: "'a \<Rightarrow> bool" and nf :: "'a \<Rightarrow> 'a"
  assumes dec_enc: "wf x \<Longrightarrow> dec (enc x @ s) = Inr (nf x, s)"
begin

lemma rtimes_enc:
  "\<forall>x \<in> set xs. wf x \<Longrightarrow> rtimes (length xs) dec (concat (map enc xs) @ s) = Inr (map nf xs, s)"
  by (induction xs) (simp_all add: dec_enc rbind_Inr)

text \<open>A length-prefixed vector, as every message writes it.\<close>

lemma counted_enc:
  assumes "\<forall>x \<in> set xs. wf x" "length xs < 2 ^ 32"
  shows "rbind (label e get_u32) (\<lambda>n. rtimes (unat n) dec) (put_u32 (of_nat (length xs)) @ concat (map enc xs) @ s)
    = Inr (map nf xs, s)"
proof -
  have "unat (of_nat (length xs) :: u32) = length xs" using assms(2) by (simp add: unat_of_nat)
  then show ?thesis using rtimes_enc[OF assms(1)] by (simp add: rbind_Inr label_Inr get_u32_put)
qed

text \<open>Two values with the same encoding have the same normal form.\<close>

lemma enc_inject: "wf x \<Longrightarrow> wf y \<Longrightarrow> enc x = enc y \<Longrightarrow> nf x = nf y"
  using dec_enc[of x "[]"] dec_enc[of y "[]"] by simp

end

interpretation u8_codec: codec put_u8 get_u8 "\<lambda>_. True" "\<lambda>x. x"
  by unfold_locales (rule get_u8_put)

interpretation u64_codec: codec put_u64 get_u64 "\<lambda>_. True" "\<lambda>x. x"
  by unfold_locales (rule get_u64_put)

interpretation id_codec: codec put_id get_id "\<lambda>_. True" "\<lambda>x. x"
  by unfold_locales (rule get_id_put)

interpretation str_codec: codec put_str get_str "\<lambda>t. length t < 2 ^ 32" "\<lambda>x. x"
  by unfold_locales (rule get_str_put)

end
