(* ===== verification/Wire.thy ===== *)
theory Wire
  imports Byte_Codec
begin

text \<open>
  \<open>include/warmth/wire.hpp\<close>: a warmth object on the wire. The loops over optional ids, dimensions
  and dependency generations are those of the snapshot reader as well, which only names its
  errors differently, so they take the error values as arguments. Decoding an encoded object
  gives the object back up to \<open>obj_nf\<close>: invalid optional ids and an empty invalidation reason are
  written as absent, and confidence and freshness pass through their clamping setters.
\<close>

section \<open>Shared loops\<close>

definition put_opt :: "id128 option \<Rightarrow> bytes" where
  "put_opt i = (case i of Some v \<Rightarrow> if is_valid v then put_u8 1 @ put_id v else put_u8 0 | None \<Rightarrow> put_u8 0)"

definition read_opt :: "'e \<Rightarrow> 'e \<Rightarrow> 'e \<Rightarrow> ('e, id128 option) reader" where
  "read_opt e_trunc e_flag e_id = rbind (label e_trunc get_u8) (\<lambda>present.
     if present = 0 then rret None
     else rguard (present = 1) e_flag (rbind (label e_id get_id) (\<lambda>v. rret (Some v))))"

definition put_dims :: "warmth_object \<Rightarrow> bytes" where
  "put_dims o' = concat (map (\<lambda>i. put_u8 (dim_code (dimension i o'))) dimension_indices)"

definition read_dims :: "'e \<Rightarrow> 'e \<Rightarrow> warmth_object \<Rightarrow> ('e, warmth_object) reader" where
  "read_dims e_trunc e_enum o' = rfold (\<lambda>i a. rbind (label e_trunc get_u8) (\<lambda>d.
     renum e_enum (dim_of_code d) (\<lambda>st. rret (set_dimension i st a)))) dimension_indices o'"

text \<open>Dependency generations in ascending order of kind, preceded by their number.\<close>

definition put_deps :: "(dependency_kind, generation) std_map \<Rightarrow> bytes" where
  "put_deps m = put_u32 (of_nat (length m)) @ concat (map (\<lambda>(k, g). put_u8 (dep_code k) @ put_u64 g) m)"

fun read_deps :: "'e \<Rightarrow> 'e \<Rightarrow> 'e \<Rightarrow> 'e \<Rightarrow> nat \<Rightarrow> u8 list \<Rightarrow> warmth_object \<Rightarrow> ('e, warmth_object) reader" where
  "read_deps e_trunc e_enum e_dup e_gen 0 seen o' = rret o'"
| "read_deps e_trunc e_enum e_dup e_gen (Suc n) seen o' = rbind (label e_trunc get_u8) (\<lambda>dk.
     renum e_enum (dep_of_code dk) (\<lambda>k.
     rguard (dk \<notin> set seen) e_dup (
     rbind (label e_gen get_u64) (\<lambda>g.
     read_deps e_trunc e_enum e_dup e_gen n (dk # seen) (set_dependency_generation k g o')))))"

definition put_invalidation :: "string option \<Rightarrow> bytes" where
  "put_invalidation r = (case r of Some t \<Rightarrow> if t \<noteq> [] then put_u8 1 @ put_str t else put_u8 0 | None \<Rightarrow> put_u8 0)"

section \<open>Encoding and decoding\<close>

definition encode_object :: "warmth_object \<Rightarrow> bytes" where
  "encode_object o' =
     put_id (wo_id o') @ put_u8 (category_code (wo_category o')) @
     put_id (wo_workload o') @ put_id (wo_node o') @
     put_str (wo_device o') @ put_str (wo_backend o') @ put_str (wo_logical_owner o') @
     put_opt (wo_model o') @ put_opt (wo_artifact o') @ put_opt (wo_replica o') @ put_opt (wo_engine o') @
     put_u8 (state_code (wo_state o')) @ put_str (wo_state_change_reason o') @
     put_dims o' @
     put_u64 (wo_last_prepared o') @ put_u64 (wo_last_used o') @
     put_u64 (wo_estimated_cost_bytes o') @ put_u64 (wo_measured_cost_bytes o') @
     put_u64 (wo_estimated_ttr_ms o') @ put_u64 (wo_observed_ttr_ms o') @
     put_u8 (residency_code (wo_residency o')) @ put_u8 (lifecycle_code (wo_lifecycle o')) @
     put_u64 (wo_confidence o') @ put_u64 (wo_freshness o') @
     put_u64 (wo_warmth_gen o') @
     put_deps (wo_dep_gens o') @
     put_invalidation (wo_invalidation_reason o') @
     put_u8 (provenance_code (wo_provenance o'))"

definition decode_object :: "(unit, warmth_object) reader" where
  "decode_object =
     rbind get_id (\<lambda>id. rbind get_u8 (\<lambda>cat. rbind get_id (\<lambda>workload. rbind get_id (\<lambda>node.
     renum () (category_of_code cat) (\<lambda>category.
     rbind get_str (\<lambda>device. rbind get_str (\<lambda>backend. rbind get_str (\<lambda>owner.
     rbind (read_opt () () ()) (\<lambda>model. rbind (read_opt () () ()) (\<lambda>artifact.
     rbind (read_opt () () ()) (\<lambda>replica. rbind (read_opt () () ()) (\<lambda>engine.
     rbind get_u8 (\<lambda>st. renum () (state_of_code st) (\<lambda>state.
     rbind get_str (\<lambda>reason.
     let obj = restore_state state reason ((new_object id category workload node device backend)
           \<lparr>wo_logical_owner := owner, wo_model := model, wo_artifact := artifact,
            wo_replica := replica, wo_engine := engine\<rparr>) in
     rbind (read_dims () () obj) (\<lambda>obj.
     rbind get_u64 (\<lambda>lp. rbind get_u64 (\<lambda>lu.
     rbind get_u64 (\<lambda>ecb. rbind get_u64 (\<lambda>mcb. rbind get_u64 (\<lambda>ettr. rbind get_u64 (\<lambda>ottr.
     rbind get_u8 (\<lambda>res. renum () (residency_of_code res) (\<lambda>residency.
     rbind get_u8 (\<lambda>lc. renum () (lifecycle_of_code lc) (\<lambda>lifecycle.
     rbind get_u64 (\<lambda>conf. rbind get_u64 (\<lambda>fresh.
     rbind get_u64 (\<lambda>wg.
     rbind get_u32 (\<lambda>nd. rguard (unat nd \<le> 64) () (
     let obj = (set_freshness fresh (set_confidence conf (obj
           \<lparr>wo_last_prepared := lp, wo_last_used := lu,
            wo_estimated_cost_bytes := ecb, wo_measured_cost_bytes := mcb,
            wo_estimated_ttr_ms := ettr, wo_observed_ttr_ms := ottr,
            wo_residency := residency, wo_lifecycle := lifecycle\<rparr>)))\<lparr>wo_warmth_gen := wg\<rparr> in
     rbind (read_deps () () () () (unat nd) [] obj) (\<lambda>obj.
     rbind get_u8 (\<lambda>hasInv.
     rbind (if hasInv = 1 then rbind get_str (\<lambda>inv. rret (obj\<lparr>wo_invalidation_reason := Some inv\<rparr>))
            else rguard (hasInv = 0) () (rret obj)) (\<lambda>obj.
     rbind get_u8 (\<lambda>prov. renum () (provenance_of_code prov) (\<lambda>provenance.
     rret (obj\<lparr>wo_provenance := provenance\<rparr>)
     ))))))))))))))))))))))))))))))))))))"

section \<open>Round trip\<close>

definition opt_nf :: "id128 option \<Rightarrow> id128 option" where
  "opt_nf i = (case i of Some v \<Rightarrow> if is_valid v then Some v else None | None \<Rightarrow> None)"

definition inv_nf :: "string option \<Rightarrow> string option" where
  "inv_nf r = (if r = Some [] then None else r)"

definition obj_nf :: "warmth_object \<Rightarrow> warmth_object" where
  "obj_nf o' = o'\<lparr>wo_model := opt_nf (wo_model o'), wo_artifact := opt_nf (wo_artifact o'),
     wo_replica := opt_nf (wo_replica o'), wo_engine := opt_nf (wo_engine o'),
     wo_confidence := clamp_unit (wo_confidence o'), wo_freshness := clamp_unit (wo_freshness o'),
     wo_invalidation_reason := inv_nf (wo_invalidation_reason o')\<rparr>"

text \<open>Strings fit their length prefix; the dependency map is a map.\<close>

definition obj_wire_ok :: "warmth_object \<Rightarrow> bool" where
  "obj_wire_ok o' \<longleftrightarrow> length (wo_device o') < 2 ^ 32 \<and> length (wo_backend o') < 2 ^ 32 \<and>
     length (wo_logical_owner o') < 2 ^ 32 \<and> length (wo_state_change_reason o') < 2 ^ 32 \<and>
     (case wo_invalidation_reason o' of Some t \<Rightarrow> length t < 2 ^ 32 | None \<Rightarrow> True) \<and>
     map_wf (wo_dep_gens o')"

lemma read_opt_put [codec]: "read_opt e1 e2 e3 (put_opt i @ s) = Inr (opt_nf i, s)"
  by (cases i) (simp_all add: read_opt_def put_opt_def opt_nf_def codec run_codec)

lemma rfold_dims:
  "rfold (\<lambda>i a. rbind (label e1 get_u8) (\<lambda>d. renum e2 (dim_of_code d) (\<lambda>st. rret (set_dimension i st a)))) is a
     (concat (map (\<lambda>i. put_u8 (dim_code (dimension i o'))) is) @ s)
   = Inr (fold (\<lambda>i. set_dimension i (dimension i o')) is a, s)"
  by (induction "is" arbitrary: a) (simp_all add: codec run_codec dim_enum.of_code_code)

lemma fold_set_dimension:
  "fold (\<lambda>i. set_dimension i (dimension i o')) is a
     = a\<lparr>wo_dims := fold (\<lambda>i. dims_set i (dims_get i (wo_dims o'))) is (wo_dims a)\<rparr>"
  by (induction "is" arbitrary: a) (simp_all add: set_dimension_def dimension_def)

lemma dims_get_fold:
  "dims_get j (fold (\<lambda>i. dims_set i (dims_get i d)) is d') = (if j \<in> set is then dims_get j d else dims_get j d')"
  by (induction "is" arbitrary: d') auto

lemma read_dims_put [codec]: "read_dims e1 e2 a (put_dims o' @ s) = Inr (a\<lparr>wo_dims := wo_dims o'\<rparr>, s)"
proof -
  have "fold (\<lambda>i. dims_set i (dims_get i (wo_dims o'))) dimension_indices (wo_dims a) = wo_dims o'"
    by (rule dims_eqI) (simp add: dims_get_fold)
  then show ?thesis by (simp add: read_dims_def put_dims_def rfold_dims fold_set_dimension)
qed

lemma read_deps_entries:
  "distinct (map fst m) \<Longrightarrow> \<forall>k \<in> fst ` set m. dep_code k \<notin> set seen \<Longrightarrow>
   read_deps e1 e2 e3 e4 (length m) seen a (concat (map (\<lambda>(k, g). put_u8 (dep_code k) @ put_u64 g) m) @ s)
     = Inr (a\<lparr>wo_dep_gens := fold (\<lambda>(k, g). map_set k g) m (wo_dep_gens a)\<rparr>, s)"
proof (induction m arbitrary: seen a)
  case (Cons kg m)
  obtain k g where kg: "kg = (k, g)" by (cases kg)
  have "\<forall>k' \<in> fst ` set m. dep_code k' \<notin> set (dep_code k # seen)"
    using Cons.prems by (auto simp: kg dep_enum.code_inject image_iff)
  from Cons.IH[OF _ this] show ?case using Cons.prems
    by (simp add: kg codec run_codec dep_enum.of_code_code set_dependency_generation_def)
qed simp

lemma length_deps_le: "map_wf (m :: (dependency_kind, 'g) std_map) \<Longrightarrow> length m \<le> 12"
proof -
  assume "map_wf m"
  then have "length m = card (fst ` set m)" by (metis distinct_card length_map list.set_map map_wf_distinct)
  also have "\<dots> \<le> card (set dep_list)"
  proof (rule card_mono)
    have "k \<in> set dep_list" for k by (cases k) (simp_all add: dep_list_def)
    then show "fst ` set m \<subseteq> set dep_list" by blast
  qed simp
  also have "\<dots> \<le> 12" using card_length[of dep_list] by (simp add: dep_list_def)
  finally show ?thesis .
qed

lemma deps_count:
  "map_wf (m :: (dependency_kind, 'g) std_map) \<Longrightarrow> unat (of_nat (length m) :: u32) = length m \<and> length m \<le> 64"
  using length_deps_le[of m] by (simp add: unat_of_nat)

lemma read_deps_put:
  assumes "map_wf m" "wo_dep_gens a = []"
  shows "read_deps e1 e2 e3 e4 (length m) [] a (concat (map (\<lambda>(k, g). put_u8 (dep_code k) @ put_u64 g) m) @ s)
     = Inr (a\<lparr>wo_dep_gens := m\<rparr>, s)"
  using fold_map_set_append[of "[]" m] by (simp add: read_deps_entries map_wf_distinct assms)

lemmas enum_codes =
  category_enum.of_code_code state_enum.of_code_code residency_enum.of_code_code
  lifecycle_enum.of_code_code provenance_enum.of_code_code dep_enum.of_code_code dim_enum.of_code_code

lemmas obj_setters = restore_state_def set_confidence_def set_freshness_def new_object_def

text \<open>The tail shared by both object formats: the invalidation flag and its text.\<close>

lemma read_invalidation_put:
  assumes "case r of Some t \<Rightarrow> length t < 2 ^ 32 | None \<Rightarrow> True" "wo_invalidation_reason obj = None"
  shows "rbind (label e1 get_u8) (\<lambda>hasInv.
       rbind (if hasInv = 1 then rbind (label e2 get_str) (\<lambda>inv. rret (obj\<lparr>wo_invalidation_reason := Some inv\<rparr>))
              else rguard (hasInv = 0) e3 (rret obj)) f) (put_invalidation r @ s)
     = f (obj\<lparr>wo_invalidation_reason := inv_nf r\<rparr>) s"
proof -
  have noop: "obj\<lparr>wo_invalidation_reason := None\<rparr> = obj" using assms(2) by (cases obj) simp
  show ?thesis using assms(1) by (cases r) (auto simp: put_invalidation_def inv_nf_def codec run_codec noop)
qed

lemma label_unit [simp]: "label () r = r"
  by (auto simp: label_def fun_eq_iff split: sum.splits)

lemma decode_object_encode:
  assumes "obj_wire_ok o'"
  shows "decode_object (encode_object o' @ s) = Inr (obj_nf o', s)"
proof -
  note ok = assms[unfolded obj_wire_ok_def]
  note inv = read_invalidation_put[where r = "wo_invalidation_reason o'" and ?e1.0 = "()" and ?e2.0 = "()" and ?e3.0 = "()", unfolded label_unit]
  show ?thesis
    using ok deps_count[of "wo_dep_gens o'"]
    by (simp add: decode_object_def encode_object_def put_deps_def Let_def codec run_codec enum_codes obj_setters
        read_deps_put inv obj_nf_def)
qed

interpretation object_codec: codec encode_object decode_object obj_wire_ok obj_nf
  by unfold_locales (rule decode_object_encode)

end
