(* ===== verification/Persistence.thy ===== *)
theory Persistence
  imports Wire Policy Hash
begin

text \<open>
  \<open>include/warmth/persistence.hpp\<close> and \<open>src/persistence.cpp\<close>: the versioned, checksummed snapshot.
  A writer is a sum because the source throws on NaN and infinity; a reader carries the source's
  error texts. The lemmas give the round trip, the rejection of truncated, extended and corrupted
  files, and that the object layout is the one of the wire.
\<close>

section \<open>Writers\<close>

definition kMagic :: u32 where
  "kMagic = 0x57465442"

definition kVersion :: u32 where
  "kVersion = 1"

definition persist_nan :: string where
  "persist_nan = ''persist: NaN/Inf not allowed''"

definition write_f64 :: "double \<Rightarrow> string + bytes" where
  "write_f64 d = (if isnan d \<or> isinf d then Inl persist_nan else Inr (put_u64 d))"

text \<open>Writing one piece after the other; an exception ends it.\<close>

fun wcat :: "('e + bytes) list \<Rightarrow> 'e + bytes" where
  "wcat [] = Inr []"
| "wcat (Inl e # ws) = Inl e"
| "wcat (Inr b # ws) = (case wcat ws of Inl e \<Rightarrow> Inl e | Inr bs \<Rightarrow> Inr (b @ bs))"

definition write_object :: "warmth_object \<Rightarrow> string + bytes" where
  "write_object o' = wcat
     [Inr (put_id (wo_id o')), Inr (put_u8 (category_code (wo_category o'))),
      Inr (put_id (wo_workload o')), Inr (put_id (wo_node o')),
      Inr (put_str (wo_device o')), Inr (put_str (wo_backend o')), Inr (put_str (wo_logical_owner o')),
      Inr (put_opt (wo_model o')), Inr (put_opt (wo_artifact o')), Inr (put_opt (wo_replica o')), Inr (put_opt (wo_engine o')),
      Inr (put_u8 (state_code (wo_state o'))), Inr (put_str (wo_state_change_reason o')),
      Inr (put_dims o'),
      Inr (put_u64 (wo_last_prepared o')), Inr (put_u64 (wo_last_used o')),
      Inr (put_u64 (wo_estimated_cost_bytes o')), Inr (put_u64 (wo_measured_cost_bytes o')),
      write_f64 (wo_estimated_ttr_ms o'), write_f64 (wo_observed_ttr_ms o'),
      Inr (put_u8 (residency_code (wo_residency o'))), Inr (put_u8 (lifecycle_code (wo_lifecycle o'))),
      write_f64 (wo_confidence o'), write_f64 (wo_freshness o'),
      Inr (put_u64 (wo_warmth_gen o')),
      Inr (put_deps (wo_dep_gens o')),
      Inr (put_invalidation (wo_invalidation_reason o')),
      Inr (put_u8 (provenance_code (wo_provenance o')))]"

definition put_bool :: "bool \<Rightarrow> bytes" where
  "put_bool b = put_u8 (if b then 1 else 0)"

definition write_policy :: "warmth_policy \<Rightarrow> string + bytes" where
  "write_policy p = (let d = pol_decay p; b = pol_budgets p in wcat
     [Inr (put_u64 (pol_generation p)),
      write_f64 (hot_to_warm_idle_seconds d),
      write_f64 (warm_to_stale_idle_seconds d),
      write_f64 (stale_to_invalidated_seconds d),
      write_f64 (warm_to_partial_idle_seconds d),
      write_f64 (partial_to_cold_idle_seconds d),
      Inr (put_bool (decay_on_memory_pressure d)),
      Inr (put_bool (decay_on_process_restart d)),
      Inr (put_bool (decay_on_device_reset d)),
      Inr (put_bool (decay_on_dependency_change d)),
      Inr (put_bool (decay_on_policy_change d)),
      Inr (put_u64 (device_memory_bytes b)),
      Inr (put_u64 (pinned_host_memory_bytes b)),
      Inr (put_u64 (host_memory_bytes b)),
      Inr (put_u64 (storage_footprint_bytes b)),
      Inr (put_u64 (concurrent_warming_ops b)),
      Inr (put_u64 (transfer_bandwidth_bps b)),
      Inr (put_u64 (active_engines b)),
      Inr (put_u64 (warm_replicas b)),
      write_f64 (weight_predicted_reuse p),
      write_f64 (weight_arrival_probability p),
      write_f64 (weight_latency_class p),
      write_f64 (weight_priority p),
      write_f64 (weight_tenant_fairness p),
      write_f64 (weight_warming_cost p),
      write_f64 (weight_memory_cost p),
      write_f64 (weight_transfer_cost p),
      write_f64 (weight_eviction_risk p),
      write_f64 (weight_dependency_availability p),
      write_f64 (weight_current_partial_warmth p),
      write_f64 (weight_expected_benefit p)])"

section \<open>Readers\<close>

definition get_f64 :: "(unit, double) reader" where
  "get_f64 = rbind get_u64 (\<lambda>d. rguard (\<not> isnan d \<and> \<not> isinf d) () (rret d))"

definition read_object :: "generation \<Rightarrow> (string, warmth_object) reader" where
  "read_object snap_wgen =
     rbind (label ''truncated object id'' get_id) (\<lambda>id.
     rbind (label ''truncated category'' get_u8) (\<lambda>cat.
     renum ''invalid category enum'' (category_of_code cat) (\<lambda>category.
     rbind (label ''truncated workload'' get_id) (\<lambda>workload.
     rbind (label ''truncated node'' get_id) (\<lambda>node.
     rbind (label ''truncated string'' get_str) (\<lambda>device.
     rbind (label ''truncated string'' get_str) (\<lambda>backend.
     rbind (label ''truncated string'' get_str) (\<lambda>owner.
     rbind (read_opt ''truncated optional'' ''invalid optional flag'' ''truncated optional id'') (\<lambda>model.
     rbind (read_opt ''truncated optional'' ''invalid optional flag'' ''truncated optional id'') (\<lambda>artifact.
     rbind (read_opt ''truncated optional'' ''invalid optional flag'' ''truncated optional id'') (\<lambda>replica.
     rbind (read_opt ''truncated optional'' ''invalid optional flag'' ''truncated optional id'') (\<lambda>engine.
     rbind (label ''truncated state'' get_u8) (\<lambda>st.
     renum ''invalid state enum'' (state_of_code st) (\<lambda>state.
     rbind (label ''truncated state reason'' get_str) (\<lambda>reason.
     let obj = restore_state state reason ((new_object id category workload node device backend)
           \<lparr>wo_logical_owner := owner, wo_model := model, wo_artifact := artifact,
            wo_replica := replica, wo_engine := engine\<rparr>) in
     rbind (read_dims ''truncated dimension'' ''invalid dimension enum'' obj) (\<lambda>obj.
     rbind (label ''truncated last_prepared'' get_u64) (\<lambda>lp.
     rbind (label ''truncated last_used'' get_u64) (\<lambda>lu.
     rbind (label ''truncated cost'' get_u64) (\<lambda>ecb.
     rbind (label ''truncated cost'' get_u64) (\<lambda>mcb.
     rbind (label ''truncated cost'' get_f64) (\<lambda>ettr.
     rbind (label ''truncated cost'' get_f64) (\<lambda>ottr.
     rbind (label ''truncated residency'' get_u8) (\<lambda>res.
     renum ''invalid residency enum'' (residency_of_code res) (\<lambda>residency.
     rbind (label ''truncated lifecycle'' get_u8) (\<lambda>lc.
     renum ''invalid lifecycle enum'' (lifecycle_of_code lc) (\<lambda>lifecycle.
     rbind (label ''truncated confidence'' get_f64) (\<lambda>conf.
     rbind (label ''truncated confidence'' get_f64) (\<lambda>fresh.
     rbind (label ''truncated warmth generation'' get_u64) (\<lambda>wgen.
     rbind (label ''truncated dependency count'' get_u32) (\<lambda>nd.
     rguard (unat nd \<le> 64) ''dependency count too large'' (
     let obj = (set_freshness fresh (set_confidence conf (obj
           \<lparr>wo_last_prepared := lp, wo_last_used := lu,
            wo_estimated_cost_bytes := ecb, wo_measured_cost_bytes := mcb,
            wo_estimated_ttr_ms := ettr, wo_observed_ttr_ms := ottr,
            wo_residency := residency, wo_lifecycle := lifecycle\<rparr>)))\<lparr>wo_warmth_gen := wgen\<rparr> in
     rbind (read_deps ''truncated dep kind'' ''invalid dependency kind'' ''duplicate dependency kind''
              ''truncated dep generation'' (unat nd) [] obj) (\<lambda>obj.
     rbind (label ''truncated invalidation flag'' get_u8) (\<lambda>hasInv.
     rbind (if hasInv = 1 then rbind (label ''truncated invalidation'' get_str)
                (\<lambda>inv. rret (obj\<lparr>wo_invalidation_reason := Some inv\<rparr>))
            else rguard (hasInv = 0) ''invalid invalidation flag'' (rret obj)) (\<lambda>obj.
     rbind (label ''truncated provenance'' get_u8) (\<lambda>prov.
     renum ''invalid provenance enum'' (provenance_of_code prov) (\<lambda>provenance.
     rguard (wgen \<le> snap_wgen) ''invalid generation relation'' (
     rret (obj\<lparr>wo_provenance := provenance\<rparr>)
     )))))))))))))))))))))))))))))))))))))"

definition get_flag :: "(string, bool) reader" where
  "get_flag = rbind (label [] get_u8) (\<lambda>f. rguard (f \<le> 1) ''invalid policy flag'' (rret (f \<noteq> 0)))"

definition read_policy :: "(string, warmth_policy) reader" where
  "read_policy =
     rbind (label ''truncated policy gen'' get_u64) (\<lambda>gen.
     rbind (rtimes 5 (label ''truncated decay'' get_f64)) (\<lambda>v.
     rbind (rtimes 5 get_flag) (\<lambda>flags.
     rbind (rtimes 8 (label ''truncated budgets'' get_u64)) (\<lambda>b.
     rbind (rtimes 12 (label ''truncated weights'' get_f64)) (\<lambda>w.
     rret \<lparr>pol_generation = gen,
       pol_decay = \<lparr>hot_to_warm_idle_seconds = v ! 0, warm_to_stale_idle_seconds = v ! 1,
         stale_to_invalidated_seconds = v ! 2, warm_to_partial_idle_seconds = v ! 3,
         partial_to_cold_idle_seconds = v ! 4,
         decay_on_memory_pressure = flags ! 0, decay_on_process_restart = flags ! 1, decay_on_device_reset = flags ! 2,
         decay_on_dependency_change = flags ! 3, decay_on_policy_change = flags ! 4\<rparr>,
       pol_budgets = \<lparr>device_memory_bytes = b ! 0, pinned_host_memory_bytes = b ! 1,
         host_memory_bytes = b ! 2, storage_footprint_bytes = b ! 3,
         concurrent_warming_ops = b ! 4, transfer_bandwidth_bps = b ! 5,
         active_engines = b ! 6, warm_replicas = b ! 7\<rparr>,
       weight_predicted_reuse = w ! 0, weight_arrival_probability = w ! 1,
       weight_latency_class = w ! 2, weight_priority = w ! 3,
       weight_tenant_fairness = w ! 4, weight_warming_cost = w ! 5,
       weight_memory_cost = w ! 6, weight_transfer_cost = w ! 7,
       weight_eviction_risk = w ! 8, weight_dependency_availability = w ! 9,
       weight_current_partial_warmth = w ! 10, weight_expected_benefit = w ! 11\<rparr>)))))"

section \<open>Snapshots\<close>

record snapshot =
  sn_format_version :: u32
  sn_epoch :: generation
  sn_warmth_generation :: generation
  sn_dependency_generation :: generation
  sn_policy_generation :: generation
  sn_policy :: warmth_policy
  sn_objects :: "warmth_object list"

definition snapshot_payload :: "snapshot \<Rightarrow> string + bytes" where
  "snapshot_payload s = wcat
     ([Inr (put_u64 (sn_epoch s)), Inr (put_u64 (sn_warmth_generation s)),
       Inr (put_u64 (sn_dependency_generation s)), Inr (put_u64 (sn_policy_generation s)),
       write_policy (sn_policy s), Inr (put_u32 (of_nat (length (sn_objects s))))]
      @ map write_object (sn_objects s))"

definition encode_snapshot :: "snapshot \<Rightarrow> string + bytes" where
  "encode_snapshot s = (case snapshot_payload s of Inl e \<Rightarrow> Inl e | Inr payload \<Rightarrow>
     Inr (put_u32 kMagic @ put_u32 kVersion @ put_u32 (of_nat (length payload)) @ put_u32 (crc32 payload) @ payload))"

text \<open>The error of an inner reader with the caller's text in front.\<close>

definition prefix_err :: "string \<Rightarrow> (string, 'a) reader \<Rightarrow> (string, 'a) reader" where
  "prefix_err p r s = (case r s of Inl e \<Rightarrow> Inl (p @ e) | Inr xs \<Rightarrow> Inr xs)"

text \<open>The loop over the objects, from index \<open>i\<close>, with \<open>n\<close> left and the id strings seen so far.\<close>

fun read_objects :: "generation \<Rightarrow> nat \<Rightarrow> nat \<Rightarrow> string list \<Rightarrow> (string, warmth_object list) reader" where
  "read_objects wg i 0 ids = rret []"
| "read_objects wg i (Suc n) ids =
     rbind (prefix_err (''object '' @ nat_digits i @ '': '') (read_object wg)) (\<lambda>o'.
     let idstr = id_to_string (wo_id o') in
     rguard (idstr \<notin> set ids) ''duplicate object id'' (
     rbind (read_objects wg (Suc i) n (idstr # ids)) (\<lambda>os. rret (o' # os))))"

definition read_payload :: "(string, snapshot) reader" where
  "read_payload =
     rbind (rtimes 4 (label ''truncated authority'' get_u64)) (\<lambda>a.
     rbind (prefix_err ''policy: '' read_policy) (\<lambda>policy.
     rguard (pol_generation policy = a ! 3) ''invalid generation relation (policy)'' (
     rbind (label ''truncated object count'' get_u32) (\<lambda>n.
     rguard (unat n \<le> 1000000) ''object count too large'' (
     rbind (read_objects (a ! 1) 0 (unat n) []) (\<lambda>objs.
     rret \<lparr>sn_format_version = 1, sn_epoch = a ! 0, sn_warmth_generation = a ! 1,
       sn_dependency_generation = a ! 2, sn_policy_generation = a ! 3,
       sn_policy = policy, sn_objects = objs\<rparr>))))))"

definition read_header :: "(string, u32 \<times> u32) reader" where
  "read_header =
     rbind (label ''bad magic'' get_u32) (\<lambda>magic. rguard (magic = kMagic) ''bad magic'' (
     rbind (label ''incompatible version'' get_u32) (\<lambda>version. rguard (version = kVersion) ''incompatible version'' (
     rbind (label ''truncated payload size'' get_u32) (\<lambda>payload_size.
     rbind (label ''truncated checksum'' get_u32) (\<lambda>checksum.
     rret (payload_size, checksum)))))))"

definition decode_snapshot :: "bytes \<Rightarrow> string + snapshot" where
  "decode_snapshot bs =
    (if length bs < 16 then Inl ''truncated header''
     else case read_header bs of Inl e \<Rightarrow> Inl e
     | Inr ((payload_size, checksum), payload) \<Rightarrow>
       if unat payload_size \<noteq> length bs - 16 then
         Inl (if unat payload_size > length bs - 16 then ''truncated payload'' else ''trailing garbage'')
       else if crc32 payload \<noteq> checksum then Inl ''checksum mismatch''
       else case read_payload payload of Inl e \<Rightarrow> Inl e
       | Inr (snap, rest) \<Rightarrow> if rest \<noteq> [] then Inl ''trailing garbage'' else Inr snap)"

section \<open>Files\<close>

text \<open>A file system as a map from paths to contents, and what the stream operations of one call
  report; \<open>io_partial\<close> is what a failed write left behind.\<close>

type_synonym file_system = "string \<Rightarrow> bytes option"

record file_io =
  io_open_ok :: bool
  io_write_ok :: bool
  io_partial :: bytes
  io_tell_ok :: bool
  io_read_ok :: bool

definition save_snapshot_file :: "file_io \<Rightarrow> string \<Rightarrow> snapshot \<Rightarrow> file_system \<Rightarrow> (string + unit) \<times> file_system" where
  "save_snapshot_file io path snap fs =
    (case encode_snapshot snap of Inl e \<Rightarrow> (Inl e, fs)
     | Inr bs \<Rightarrow>
       if \<not> io_open_ok io then (Inl (''cannot open '' @ path), fs)
       else if \<not> io_write_ok io then (Inl ''write failed'', fs(path \<mapsto> io_partial io))
       else (Inr (), fs(path \<mapsto> bs)))"

definition load_snapshot_file :: "file_io \<Rightarrow> string \<Rightarrow> file_system \<Rightarrow> string + snapshot" where
  "load_snapshot_file io path fs =
    (case fs path of None \<Rightarrow> Inl (''cannot open '' @ path)
     | Some bs \<Rightarrow>
       if \<not> io_open_ok io then Inl (''cannot open '' @ path)
       else if \<not> io_tell_ok io then Inl ''tell failed''
       else if \<not> io_read_ok io \<and> bs \<noteq> [] then Inl ''read failed''
       else decode_snapshot bs)"

section \<open>What a writer produces\<close>

definition obj_finite :: "warmth_object \<Rightarrow> bool" where
  "obj_finite o' \<longleftrightarrow> isfinite (wo_estimated_ttr_ms o') \<and> isfinite (wo_observed_ttr_ms o') \<and>
     isfinite (wo_confidence o') \<and> isfinite (wo_freshness o')"

lemma write_f64_iff: "write_f64 d = (if isfinite d then Inr (put_u64 d) else Inl persist_nan)"
  by (auto simp: write_f64_def isfinite_iff)

lemma get_f64_put [codec]: "isfinite d \<Longrightarrow> get_f64 (put_u64 d @ s) = Inr (d, s)"
  by (simp add: get_f64_def isfinite_iff codec run_codec)

text \<open>The snapshot's object layout is the wire's; the writer refuses exactly the objects with a
  non-finite measurement.\<close>

lemma write_object_encode:
  "write_object o' = (if obj_finite o' then Inr (encode_object o') else Inl persist_nan)"
  by (simp add: write_object_def write_f64_iff obj_finite_def encode_object_def)

lemma isfinite_clamp_unit: "isfinite (clamp_unit v) \<longleftrightarrow> isfinite v \<or> dbl_lt v dbl_zero \<or> dbl_lt (dbl_lit 1) v"
  by (auto simp: clamp_unit_def dbl_lit_one)

lemma read_object_encode:
  assumes "obj_wire_ok o'" "obj_finite o'" "wo_warmth_gen o' \<le> wg"
  shows "read_object wg (encode_object o' @ s) = Inr (obj_nf o', s)"
proof -
  note ok = assms[unfolded obj_wire_ok_def obj_finite_def]
  show ?thesis
    using ok deps_count[of "wo_dep_gens o'"]
    by (simp add: read_object_def encode_object_def put_deps_def Let_def codec run_codec enum_codes obj_setters
        read_deps_put read_invalidation_put[where r = "wo_invalidation_reason o'"] obj_nf_def)
qed

interpretation stored_object: codec encode_object "read_object wg"
  "\<lambda>o'. obj_wire_ok o' \<and> obj_finite o' \<and> wo_warmth_gen o' \<le> wg" obj_nf for wg
  by unfold_locales (simp add: read_object_encode)

section \<open>The policy\<close>

lemma get_flag_put [codec]: "get_flag (put_bool b @ s) = Inr (b, s)"
  by (simp add: get_flag_def put_bool_def codec run_codec)

definition policy_finite :: "warmth_policy \<Rightarrow> bool" where
  "policy_finite p \<longleftrightarrow> (let d = pol_decay p in
     isfinite (hot_to_warm_idle_seconds d) \<and>
     isfinite (warm_to_stale_idle_seconds d) \<and>
     isfinite (stale_to_invalidated_seconds d) \<and>
     isfinite (warm_to_partial_idle_seconds d) \<and>
     isfinite (partial_to_cold_idle_seconds d)) \<and>
     isfinite (weight_predicted_reuse p) \<and>
     isfinite (weight_arrival_probability p) \<and>
     isfinite (weight_latency_class p) \<and>
     isfinite (weight_priority p) \<and>
     isfinite (weight_tenant_fairness p) \<and>
     isfinite (weight_warming_cost p) \<and>
     isfinite (weight_memory_cost p) \<and>
     isfinite (weight_transfer_cost p) \<and>
     isfinite (weight_eviction_risk p) \<and>
     isfinite (weight_dependency_availability p) \<and>
     isfinite (weight_current_partial_warmth p) \<and>
     isfinite (weight_expected_benefit p)"

definition encode_policy :: "warmth_policy \<Rightarrow> bytes" where
  "encode_policy p = (let d = pol_decay p; b = pol_budgets p in
     put_u64 (pol_generation p) @
     concat (map put_u64 [hot_to_warm_idle_seconds d, warm_to_stale_idle_seconds d, stale_to_invalidated_seconds d, warm_to_partial_idle_seconds d, partial_to_cold_idle_seconds d]) @
     concat (map put_bool [decay_on_memory_pressure d, decay_on_process_restart d, decay_on_device_reset d, decay_on_dependency_change d, decay_on_policy_change d]) @
     concat (map put_u64 [device_memory_bytes b, pinned_host_memory_bytes b, host_memory_bytes b, storage_footprint_bytes b, concurrent_warming_ops b, transfer_bandwidth_bps b, active_engines b, warm_replicas b]) @
     concat (map put_u64 [weight_predicted_reuse p, weight_arrival_probability p, weight_latency_class p, weight_priority p, weight_tenant_fairness p, weight_warming_cost p, weight_memory_cost p, weight_transfer_cost p, weight_eviction_risk p, weight_dependency_availability p, weight_current_partial_warmth p, weight_expected_benefit p]))"

lemma policy_finite_defaults: "policy_finite (policy_defaults g)"
  unfolding policy_finite_def policy_defaults_def decay_policy_default_def Let_def
  by (simp add: isfinite_dbl_lit[of _ 4096])

lemma write_policy_encode:
  "write_policy p = (if policy_finite p then Inr (encode_policy p) else Inl persist_nan)"
  by (simp add: write_policy_def write_f64_iff policy_finite_def encode_policy_def Let_def)

interpretation f64_codec: codec put_u64 "label e get_f64" isfinite "\<lambda>x. x" for e
  by unfold_locales (simp add: codec run_codec)

interpretation limit_codec: codec put_u64 "label e get_u64" "\<lambda>_. True" "\<lambda>x. x" for e
  by unfold_locales (simp add: codec run_codec)

interpretation flag_codec: codec put_bool get_flag "\<lambda>_. True" "\<lambda>x. x"
  by unfold_locales (simp add: codec)

text \<open>A fixed-size array read in a loop.\<close>

lemma f64_array:
  "length xs = n \<Longrightarrow> \<forall>x \<in> set xs. isfinite x \<Longrightarrow> rtimes n (label e get_f64) (concat (map put_u64 xs) @ s) = Inr (xs, s)"
  using f64_codec.rtimes_enc[of xs e s] by simp

lemma u64_array: "length xs = n \<Longrightarrow> rtimes n (label e get_u64) (concat (map put_u64 xs) @ s) = Inr (xs, s)"
  using limit_codec.rtimes_enc[of xs e s] by simp

lemma flag_array: "length xs = n \<Longrightarrow> rtimes n get_flag (concat (map put_bool xs) @ s) = Inr (xs, s)"
  using flag_codec.rtimes_enc[of xs s] by simp

lemma read_policy_encode:
  assumes "policy_finite p"
  shows "read_policy (encode_policy p @ s) = Inr (p, s)"
  using assms
  by (simp add: read_policy_def encode_policy_def policy_finite_def Let_def run_codec get_u64_put
      f64_array u64_array flag_array del: concat.simps list.map)

section \<open>The payload\<close>

lemma wcat_append:
  "wcat (xs @ ys) = (case wcat xs of Inl e \<Rightarrow> Inl e | Inr b \<Rightarrow> (case wcat ys of Inl e \<Rightarrow> Inl e | Inr c \<Rightarrow> Inr (b @ c)))"
  by (induction xs rule: wcat.induct) (auto split: sum.splits)

lemma wcat_objects:
  "wcat (map write_object os) =
     (if \<forall>o' \<in> set os. obj_finite o' then Inr (concat (map encode_object os)) else Inl persist_nan)"
  by (induction os) (simp_all add: write_object_encode)

definition snap_finite :: "snapshot \<Rightarrow> bool" where
  "snap_finite s \<longleftrightarrow> policy_finite (sn_policy s) \<and> (\<forall>o' \<in> set (sn_objects s). obj_finite o')"

definition payload_of :: "snapshot \<Rightarrow> bytes" where
  "payload_of s = concat (map put_u64 [sn_epoch s, sn_warmth_generation s, sn_dependency_generation s, sn_policy_generation s]) @
     encode_policy (sn_policy s) @ put_u32 (of_nat (length (sn_objects s))) @ concat (map encode_object (sn_objects s))"

lemma snapshot_payload_iff:
  "snapshot_payload s = (if snap_finite s then Inr (payload_of s) else Inl persist_nan)"
  by (auto simp: snapshot_payload_def wcat_objects write_policy_encode snap_finite_def payload_of_def)

definition frame_of :: "bytes \<Rightarrow> bytes" where
  "frame_of payload = put_u32 kMagic @ put_u32 kVersion @ put_u32 (of_nat (length payload)) @ put_u32 (crc32 payload) @ payload"

lemma encode_snapshot_iff:
  "encode_snapshot s = (if snap_finite s then Inr (frame_of (payload_of s)) else Inl persist_nan)"
  by (simp add: encode_snapshot_def snapshot_payload_iff frame_of_def)

text \<open>What a fabric's snapshot satisfies: authority numbers agree, ids are distinct, sizes fit.\<close>

definition snap_ok :: "snapshot \<Rightarrow> bool" where
  "snap_ok s \<longleftrightarrow> sn_format_version s = 1 \<and> pol_generation (sn_policy s) = sn_policy_generation s \<and>
     (\<forall>o' \<in> set (sn_objects s). obj_wire_ok o' \<and> wo_warmth_gen o' \<le> sn_warmth_generation s) \<and>
     distinct (map wo_id (sn_objects s)) \<and> length (sn_objects s) \<le> 1000000 \<and> length (payload_of s) < 2 ^ 32"

definition snap_nf :: "snapshot \<Rightarrow> snapshot" where
  "snap_nf s = s\<lparr>sn_objects := map obj_nf (sn_objects s)\<rparr>"

lemma wo_id_obj_nf [simp]: "wo_id (obj_nf o') = wo_id o'"
  by (simp add: obj_nf_def)

lemma prefix_err_Inr: "r s = Inr xs \<Longrightarrow> prefix_err p r s = Inr xs"
  by (simp add: prefix_err_def)

lemma read_objects_encode:
  "\<forall>o' \<in> set os. obj_wire_ok o' \<and> obj_finite o' \<and> wo_warmth_gen o' \<le> wg \<Longrightarrow> distinct (map wo_id os) \<Longrightarrow>
   \<forall>o' \<in> set os. id_to_string (wo_id o') \<notin> set ids \<Longrightarrow>
   read_objects wg i (length os) ids (concat (map encode_object os) @ s) = Inr (map obj_nf os, s)"
proof (induction os arbitrary: i ids)
  case (Cons o' os)
  have "\<forall>x \<in> set os. id_to_string (wo_id x) \<notin> set (id_to_string (wo_id o') # ids)"
    using Cons.prems by (auto simp: id_to_string_inject image_iff)
  from Cons.IH[OF _ _ this, of "Suc i"] show ?case using Cons.prems
    by (simp add: rbind_Inr prefix_err_Inr read_object_encode Let_def)
qed simp

lemma read_payload_encode:
  assumes "snap_ok s" "snap_finite s"
  shows "read_payload (payload_of s) = Inr (snap_nf s, [])"
proof -
  note ok = assms[unfolded snap_ok_def snap_finite_def]
  have n: "unat (of_nat (length (sn_objects s)) :: u32) = length (sn_objects s)"
    using ok by (simp add: unat_of_nat)
  have objs: "read_objects (sn_warmth_generation s) 0 (length (sn_objects s)) [] (concat (map encode_object (sn_objects s)))
      = Inr (map obj_nf (sn_objects s), [])"
    using read_objects_encode[of "sn_objects s" "sn_warmth_generation s" "[]" 0 "[]"] ok by simp
  show ?thesis using ok n objs
    by (simp add: read_payload_def payload_of_def snap_nf_def run_codec u64_array prefix_err_Inr
        read_policy_encode get_u32_put del: concat.simps list.map)
qed

section \<open>The file format\<close>

lemma length_put_u32 [simp]: "length (put_u32 v) = 4"
  by (simp add: put_u32_def)

lemma read_header_frame:
  "read_header (put_u32 kMagic @ put_u32 kVersion @ put_u32 n @ put_u32 c @ s) = Inr ((n, c), s)"
  by (simp add: read_header_def codec run_codec)

lemma decode_framed:
  "decode_snapshot (put_u32 kMagic @ put_u32 kVersion @ put_u32 n @ put_u32 c @ payload) =
    (if unat n \<noteq> length payload then Inl (if unat n > length payload then ''truncated payload'' else ''trailing garbage'')
     else if crc32 payload \<noteq> c then Inl ''checksum mismatch''
     else case read_payload payload of Inl e \<Rightarrow> Inl e
       | Inr (snap, rest) \<Rightarrow> if rest \<noteq> [] then Inl ''trailing garbage'' else Inr snap)"
  by (simp add: decode_snapshot_def read_header_frame)

lemma unat_length_u32: "length p < 2 ^ 32 \<Longrightarrow> unat (of_nat (length p) :: u32) = length p"
  by (simp add: unat_of_nat)

lemma decode_encode:
  assumes "snap_ok s" "encode_snapshot s = Inr bs"
  shows "decode_snapshot bs = Inr (snap_nf s)"
proof -
  have fin: "snap_finite s" and bs: "bs = frame_of (payload_of s)"
    using assms(2) by (auto simp: encode_snapshot_iff split: if_splits)
  have "length (payload_of s) < 2 ^ 32" using assms(1) by (simp add: snap_ok_def)
  then show ?thesis using read_payload_encode[OF assms(1) fin]
    by (simp add: bs frame_of_def decode_framed unat_length_u32)
qed

text \<open>A snapshot whose policy generation disagrees with its policy can be written but not read.\<close>

lemma decode_policy_mismatch:
  assumes "encode_snapshot s = Inr bs" "pol_generation (sn_policy s) \<noteq> sn_policy_generation s" "length (payload_of s) < 2 ^ 32"
  shows "decode_snapshot bs = Inl ''invalid generation relation (policy)''"
proof -
  have fin: "snap_finite s" and bs: "bs = frame_of (payload_of s)"
    using assms(1) by (auto simp: encode_snapshot_iff split: if_splits)
  have "read_payload (payload_of s) = Inl ''invalid generation relation (policy)''"
    using assms(2) fin by (simp add: read_payload_def payload_of_def run_codec u64_array prefix_err_Inr
        read_policy_encode snap_finite_def del: concat.simps list.map)
  then show ?thesis using assms(3) by (simp add: bs frame_of_def decode_framed unat_length_u32)
qed

lemma frame_extended:
  assumes "length p < 2 ^ 32" "xs \<noteq> []"
  shows "decode_snapshot (frame_of p @ xs) = Inl ''trailing garbage''"
  using assms decode_framed[of "of_nat (length p)" "crc32 p" "p @ xs"]
  by (simp add: frame_of_def unat_length_u32)

lemma take_frame:
  assumes "16 \<le> n"
  shows "take n (frame_of p) = put_u32 kMagic @ put_u32 kVersion @ put_u32 (of_nat (length p)) @ put_u32 (crc32 p) @ take (n - 16) p"
  using assms by (simp add: frame_of_def take_append)

lemma frame_truncated:
  assumes "length p < 2 ^ 32" "n < length (frame_of p)"
  shows "decode_snapshot (take n (frame_of p)) = Inl (if n < 16 then ''truncated header'' else ''truncated payload'')"
proof (cases "n < 16")
  case True
  then show ?thesis by (simp add: decode_snapshot_def min_def)
next
  case False
  have "length (take (n - 16) p) < length p" using assms(2) False by (simp add: frame_of_def min_def)
  then show ?thesis using False assms(1)
    by (simp add: take_frame decode_framed unat_length_u32 del: length_take)
qed

lemma frame_corrupted:
  assumes "length (x @ w @ y) < 2 ^ 32" "length w = length w'" "length w \<le> 4" "w \<noteq> w'"
  shows "decode_snapshot (put_u32 kMagic @ put_u32 kVersion @ put_u32 (of_nat (length (x @ w @ y))) @
     put_u32 (crc32 (x @ w @ y)) @ x @ w' @ y) = Inl ''checksum mismatch''"
proof -
  have "crc32 (x @ w' @ y) \<noteq> crc32 (x @ w @ y)" using crc32_burst_differs[of w w' x y] assms by metis
  then show ?thesis using assms unat_length_u32[OF assms(1)] by (simp add: decode_framed del: of_nat_add)
qed

end
