(* ===== verification/Fabric.thy ===== *)
theory Fabric
  imports Explanation Invalidation Persistence
begin

text \<open>
  The in-process fabric of \<open>include/warmth/fabric.hpp\<close> and \<open>src/fabric.cpp\<close>. An operation that holds
  \<open>mutex_\<close> for its whole body is a function of the fabric's state. \<open>warm\<close> releases the lock around
  the backend call, so it is two atomic phases and whatever other threads do in between is a
  parameter. \<open>snapshot\<close> and \<open>objects\<close> are given with the lock they take, because the first calls
  the second while holding it.
\<close>

section \<open>State\<close>

type_synonym warm_operation = "warmth_action \<Rightarrow> bool \<times> double \<times> u64"

record fabric =
  fb_workload :: id128
  fb_node :: id128
  fb_device :: string
  fb_backend :: string
  fb_policy :: warmth_policy
  fb_default_model_bytes :: u64
  fb_objects :: "(id128, warmth_object) std_map"
  fb_budget :: budget_tracker
  fb_warmth_gen :: generation
  fb_dep_gen :: generation
  fb_policy_gen :: generation
  fb_op :: "warm_operation option"

definition new_fabric :: "id128 \<Rightarrow> id128 \<Rightarrow> string \<Rightarrow> string \<Rightarrow> warmth_policy \<Rightarrow> u64 \<Rightarrow> fabric" where
  "new_fabric workload node device backend policy model_bytes =
     \<lparr>fb_workload = workload, fb_node = node, fb_device = device, fb_backend = backend,
      fb_policy = policy, fb_default_model_bytes = model_bytes, fb_objects = [],
      fb_budget = new_tracker (pol_budgets policy),
      fb_warmth_gen = 1, fb_dep_gen = 1, fb_policy_gen = pol_generation policy, fb_op = None\<rparr>"

definition kDefaultWarmBytes :: u64 where
  "kDefaultWarmBytes = 2 ^ 30"

definition synthetic_warm :: warm_operation where
  "synthetic_warm action =
     (True, dbl_add (dbl_lit (1 / 2)) (dbl_mul (dbl_lit (1 / 4)) (dbl_of_int (uint (action_code action)))), 2 ^ 28)"

definition make_warm :: "string \<Rightarrow> warmth_object \<Rightarrow> warmth_object" where
  "make_warm why o' =
    (if wo_state o' = WARM \<or> wo_state o' = HOT then o'
     else let (ok, o1) = transition PREPARING why o';
              o2 = (if ok then o1 else try_transition PREPARING why (try_transition COLD why o1));
              o3 = try_transition WARM why o2
          in o3\<lparr>wo_invalidation_reason := None\<rparr>)"

section \<open>Registration and look-up\<close>

definition register_object ::
  "warmth_category \<Rightarrow> string \<Rightarrow> id128 option \<Rightarrow> id128 option \<Rightarrow> id128 option \<Rightarrow> id128 option \<Rightarrow> fabric \<Rightarrow> id128 \<times> fabric" where
  "register_object category owner model artifact replica engine f =
    (let i = derive (owner @ ''|'' @ category_name category);
         o' = (new_object i category (fb_workload f) (fb_node f) (fb_device f) (fb_backend f))
           \<lparr>wo_logical_owner := owner, wo_model := model, wo_artifact := artifact,
            wo_replica := replica, wo_engine := engine, wo_warmth_gen := fb_warmth_gen f\<rparr>
     in (i, f\<lparr>fb_objects := map_set i o' (fb_objects f)\<rparr>))"

definition upsert :: "warmth_object \<Rightarrow> fabric \<Rightarrow> bool \<times> fabric" where
  "upsert o' f = (True, f\<lparr>fb_objects := map_set (wo_id o') o' (fb_objects f)\<rparr>)"

definition fabric_get :: "id128 \<Rightarrow> fabric \<Rightarrow> warmth_object option" where
  "fabric_get i f = map_find i (fb_objects f)"

definition object_count :: "fabric \<Rightarrow> nat" where
  "object_count f = length (fb_objects f)"

definition object_ids :: "fabric \<Rightarrow> id128 list" where
  "object_ids f = map fst (fb_objects f)"

text \<open>\<open>auto* o = find_locked(id); if (!o) return false;\<close> followed by an update in place.\<close>

definition on_object :: "id128 \<Rightarrow> (warmth_object \<Rightarrow> bool \<times> warmth_object) \<Rightarrow> fabric \<Rightarrow> bool \<times> fabric" where
  "on_object i op f = (case map_find i (fb_objects f) of None \<Rightarrow> (False, f)
     | Some o' \<Rightarrow> (case op o' of (r, o1) \<Rightarrow> (r, f\<lparr>fb_objects := map_set i o1 (fb_objects f)\<rparr>)))"

section \<open>Updates of one object\<close>

definition fabric_transition :: "id128 \<Rightarrow> warmth_state \<Rightarrow> string \<Rightarrow> fabric \<Rightarrow> bool \<times> fabric" where
  "fabric_transition i to reason = on_object i (transition to reason)"

definition fabric_set_dimension :: "id128 \<Rightarrow> dimension_index \<Rightarrow> dimension_status \<Rightarrow> fabric \<Rightarrow> bool \<times> fabric" where
  "fabric_set_dimension i idx status = on_object i (\<lambda>o'. (True, set_dimension idx status o'))"

definition fabric_set_dimensions :: "id128 \<Rightarrow> warmth_dimensions \<Rightarrow> fabric \<Rightarrow> bool \<times> fabric" where
  "fabric_set_dimensions i d = on_object i (\<lambda>o'. (True, o'\<lparr>wo_dims := d\<rparr>))"

definition fabric_mark_used :: "timestamp \<Rightarrow> id128 \<Rightarrow> fabric \<Rightarrow> bool \<times> fabric" where
  "fabric_mark_used now i = on_object i (\<lambda>o'. (True, o'\<lparr>wo_last_used := now\<rparr>))"

text \<open>The device-local dimensions an operation resets.\<close>

definition drop_dims :: "dimension_index list \<Rightarrow> dimension_status \<Rightarrow> warmth_object \<Rightarrow> warmth_object" where
  "drop_dims is v o' = fold (\<lambda>i. set_dimension i v) is o'"

definition invalidate :: "id128 \<Rightarrow> invalidation_reason \<Rightarrow> fabric \<Rightarrow> bool \<times> fabric" where
  "invalidate i reason = on_object i (\<lambda>o'.
     if \<not> transition_allowed (wo_state o') INVALIDATED then (False, o')
     else (True, drop_dims [CudaContextReadiness, KernelReadiness, GraphReadiness] D_COLD
            (try_transition INVALIDATED ''invalidation''
              (o'\<lparr>wo_invalidation_reason := Some (invalidation_reason_name reason)\<rparr>))))"

definition demote :: "id128 \<Rightarrow> fabric \<Rightarrow> bool \<times> fabric" where
  "demote i = on_object i (\<lambda>o'. case wo_state o' of
       HOT \<Rightarrow> transition WARM ''demote'' o'
     | WARM \<Rightarrow> transition PARTIALLY_WARM ''demote'' o'
     | PARTIALLY_WARM \<Rightarrow> transition COLD ''demote'' o'
     | _ \<Rightarrow> (False, o'))"

definition evict :: "id128 \<Rightarrow> fabric \<Rightarrow> bool \<times> fabric" where
  "evict i = on_object i (\<lambda>o'. case transition EVICTED ''evict'' o' of (ok, o1) \<Rightarrow>
     if \<not> ok then (False, o1)
     else let o2 = (if wo_residency o1 = R_DEVICE_RESIDENT \<or> wo_residency o1 = R_MIRRORED
                    then o1\<lparr>wo_residency := R_HOST_ONLY\<rparr> else o1)
          in (True, drop_dims [CudaContextReadiness, KernelReadiness, GraphReadiness, AllocatorReadiness] D_COLD o2))"

definition dims_all_valid :: warmth_dimensions where
  "dims_all_valid = \<lparr>artifact_availability = D_VALID, artifact_validation = D_VALID, model_residency = D_VALID,
     adapter_residency = D_VALID, tokenizer_readiness = D_VALID, cuda_context_readiness = D_VALID,
     kernel_readiness = D_VALID, graph_readiness = D_VALID, allocator_readiness = D_VALID,
     prefix_kv_reuse = D_VALID, engine_readiness = D_VALID, local_dependency_readiness = D_VALID\<rparr>"

definition warm_to_ready :: "id128 \<Rightarrow> fabric \<Rightarrow> bool \<times> fabric" where
  "warm_to_ready i = on_object i (\<lambda>o'.
     let o1 = make_warm ''warm_to_ready'' (o'\<lparr>wo_dims := dims_all_valid\<rparr>);
         o2 = o1\<lparr>wo_residency := R_DEVICE_RESIDENT, wo_provenance := P_MEASURED\<rparr>
     in (execution_ready o2, o2))"

section \<open>Warming\<close>

text \<open>Releasing a device reservation and, if there is one, the operation slot taken with it.\<close>

definition release_pair :: "u64 \<Rightarrow> u64 \<Rightarrow> budget_tracker \<Rightarrow> budget_tracker" where
  "release_pair r op b = (let b1 = snd (release r b) in if op \<noteq> 0 then snd (release op b1) else b1)"

text \<open>Phase 1, under the lock: reserve and enter \<open>PREPARING\<close>.\<close>

definition warm_begin :: "id128 \<Rightarrow> fabric \<Rightarrow> (u64 \<times> u64) option \<times> fabric" where
  "warm_begin i f =
    (case map_find i (fb_objects f) of None \<Rightarrow> (None, f)
     | Some o' \<Rightarrow>
       case reserve BK_DEVICE_MEMORY kDefaultWarmBytes ''warm'' (fb_budget f) of (r, e1, b1) \<Rightarrow>
       if r = 0 then (None, f\<lparr>fb_budget := b1\<rparr>)
       else case reserve BK_CONCURRENT_WARMING_OPS 1 ''warm'' b1 of (op, e2, b2) \<Rightarrow>
       if \<not> transition_allowed (wo_state o') PREPARING then (None, f\<lparr>fb_budget := release_pair r op b2\<rparr>)
       else (Some (r, op), f\<lparr>fb_budget := b2,
               fb_objects := map_set i (try_transition PREPARING ''warming'' o') (fb_objects f)\<rparr>))"

text \<open>What a completed warming records, with the two clock readings of the source.\<close>

definition record_warm :: "double \<Rightarrow> u64 \<Rightarrow> timestamp \<Rightarrow> timestamp \<Rightarrow> warmth_object \<Rightarrow> warmth_object" where
  "record_warm duration bs now now' o' = o'\<lparr>wo_measured_cost_bytes := bs, wo_observed_ttr_ms := duration,
     wo_last_prepared := now, wo_last_used := now', wo_provenance := P_MEASURED,
     wo_residency := R_DEVICE_RESIDENT\<rparr>"

text \<open>Phase 3, under the lock again: release and apply the outcome.\<close>

definition warm_finish ::
  "id128 \<Rightarrow> u64 \<times> u64 \<Rightarrow> bool \<times> double \<times> u64 \<Rightarrow> timestamp \<Rightarrow> timestamp \<Rightarrow> fabric \<Rightarrow> bool \<times> fabric" where
  "warm_finish i res outcome now now' f =
    (let f1 = f\<lparr>fb_budget := release_pair (fst res) (snd res) (fb_budget f)\<rparr>
     in on_object i (\<lambda>o'. case outcome of (success, duration, bs) \<Rightarrow>
          if success then (True, record_warm duration bs now now'
              ((try_transition WARM ''warm_completed'' o')\<lparr>wo_invalidation_reason := None\<rparr>))
          else (False, try_transition FAILED ''warming_hook_failed'' o')) f1)"

text \<open>The whole call; \<open>env\<close> is what other threads do to the fabric during phase 2.\<close>

definition warm ::
  "(fabric \<Rightarrow> fabric) \<Rightarrow> timestamp \<Rightarrow> timestamp \<Rightarrow> id128 \<Rightarrow> warmth_action \<Rightarrow> fabric \<Rightarrow> bool \<times> fabric" where
  "warm env now now' i action f =
    (case warm_begin i f of (None, f1) \<Rightarrow> (False, f1)
     | (Some res, f1) \<Rightarrow>
       let fn = (case fb_op f1 of Some op \<Rightarrow> op | None \<Rightarrow> synthetic_warm)
       in warm_finish i res (fn action) now now' (env f1))"

definition budgets_balanced :: "fabric \<Rightarrow> bool" where
  "budgets_balanced f = balanced (fb_budget f)"

definition budget_usage :: "budget_kind \<Rightarrow> fabric \<Rightarrow> u64" where
  "budget_usage k f = usage k (fb_budget f)"

definition outstanding_reservations :: "fabric \<Rightarrow> nat" where
  "outstanding_reservations f = outstanding (fb_budget f)"

section \<open>Generations and decay\<close>

definition bump_dependency_generation :: "fabric \<Rightarrow> fabric" where
  "bump_dependency_generation f = f\<lparr>fb_dep_gen := gen_next (fb_dep_gen f)\<rparr>"

definition bump_warmth_generation :: "fabric \<Rightarrow> fabric" where
  "bump_warmth_generation f = f\<lparr>fb_warmth_gen := gen_next (fb_warmth_gen f)\<rparr>"

definition fabric_decay :: "decay_event \<Rightarrow> fabric \<Rightarrow> fabric" where
  "fabric_decay e f = f\<lparr>fb_objects := map_update_all (decay_apply (pol_decay (fb_policy f)) e) (fb_objects f)\<rparr>"

section \<open>Planning and explanation\<close>

definition default_action_for :: "warmth_object \<Rightarrow> readiness_cost \<Rightarrow> warmth_action" where
  "default_action_for o' cost =
    (if dimension ModelResidency o' = D_COLD \<and> bytes_to_transfer (rc_estimated cost) > 0 then TRANSFER_HOST_DEVICE
     else if dimension KernelReadiness o' = D_COLD then PREPARE_KERNEL
     else if dimension GraphReadiness o' = D_COLD then INSTANTIATE_GRAPH
     else if dimension CudaContextReadiness o' = D_COLD then INIT_CUDA_CONTEXT
     else if dimension EngineReadiness o' = D_COLD then INIT_ENGINE
     else if dimension AllocatorReadiness o' = D_COLD then PREPARE_ALLOCATOR
     else INIT_ENGINE)"

definition fabric_preference :: "warmth_object \<Rightarrow> warmth_preference" where
  "fabric_preference o' = preference_default
     \<lparr>pref_id := wo_id o',
      pref_predicted_reuse := dbl_lit (1 / 2),
      pref_arrival_probability := (if execution_ready o' then dbl_lit (8 / 10) else dbl_lit (3 / 10)),
      pref_latency_class := (if wo_category o' = EXECUTION_GRAPHS then dbl_lit (9 / 10) else dbl_lit (1 / 2)),
      pref_priority := (if wo_category o' = MODEL_WEIGHTS then dbl_lit (8 / 10) else dbl_lit (1 / 2)),
      pref_tenant_fairness := dbl_lit (1 / 2),
      pref_warming_cost_normalized := dbl_lit (1 / 2),
      pref_memory_cost_normalized := dbl_lit (1 / 2),
      pref_transfer_cost_normalized := (if dimension ModelResidency o' = D_COLD then dbl_lit (7 / 10) else dbl_lit (2 / 10)),
      pref_eviction_risk := (if wo_state o' = PARTIALLY_WARM then dbl_lit (4 / 10) else dbl_lit (2 / 10)),
      pref_dependency_availability := (if dimension LocalDependencyReadiness o' = D_VALID then dbl_lit 1 else dbl_lit (1 / 2)),
      pref_current_partial_warmth := (if level o' = L_PARTIAL then dbl_lit (6 / 10) else dbl_zero),
      pref_expected_benefit := (if execution_ready o' then dbl_lit (9 / 10)
         else if wo_state o' = PARTIALLY_WARM then dbl_lit (1 / 2) else dbl_lit (3 / 10))\<rparr>"

definition fabric_candidate :: "fabric \<Rightarrow> warmth_object \<Rightarrow> candidate" where
  "fabric_candidate f o' = (let cost = estimate o' (fb_default_model_bytes f) in
     \<lparr>cd_id = wo_id o', cd_preference = fabric_preference o',
      cd_estimated_cost_ms = rc_expected_ttfu_ms cost, cd_suggested_action = default_action_for o' cost\<rparr>)"

definition plan :: "fabric \<Rightarrow> warmth_plan" where
  "plan f = build (fb_policy f) (fb_workload f) id_default (map (fabric_candidate f \<circ> snd) (fb_objects f))"

definition missing_text :: "warmth_object \<Rightarrow> string" where
  "missing_text o' = (let d = wo_dims o';
     s = (if model_residency d \<noteq> D_VALID then '' model_weights'' else []) @
         (if kernel_readiness d \<noteq> D_VALID then '' kernels'' else []) @
         (if graph_readiness d \<noteq> D_VALID then '' graphs'' else []) @
         (if cuda_context_readiness d \<noteq> D_VALID then '' cuda_context'' else []) @
         (if allocator_readiness d \<noteq> D_VALID then '' allocator'' else []) @
         (if engine_readiness d \<noteq> D_VALID then '' engine'' else [])
     in if s = [] then ''none'' else s)"

text \<open>\<open>None\<close> for an unknown id, where the source returns an explanation whose state, category and
  composite level were never initialised.\<close>

definition explain :: "id128 \<Rightarrow> fabric \<Rightarrow> readiness_explanation option" where
  "explain i f = map_option (\<lambda>o'. let cost = estimate o' (fb_default_model_bytes f) in
     \<lparr>re_object = wo_id o', re_category = wo_category o', re_state = wo_state o',
      re_composite = obj_composite_level o',
      re_dimensions = map (\<lambda>d. \<lparr>dr_index = d, dr_status = dimension d o'\<rparr>) dimension_indices,
      re_cost = cost, re_execution_ready = execution_ready o',
      re_invalidation_reason = (case wo_invalidation_reason o' of Some r \<Rightarrow> r | None \<Rightarrow> []),
      re_decay_reason = [], re_policy_generation = fb_policy_gen f,
      re_residency = residency_name (wo_residency o'),
      re_chosen_action = action_name (default_action_for o' cost), re_alternatives = [],
      re_tie_break = ''score_desc_then_id_asc'', re_priority = [], re_deadline = [], re_fairness = [],
      re_budget_constraints = [], re_missing_preparation = missing_text o',
      re_measured_warm_start_ms = wo_observed_ttr_ms o', re_measured_cold_start_ms = dbl_zero\<rparr>)
     (map_find i (fb_objects f))"

definition explain_plan :: "fabric \<Rightarrow> plan_explanation" where
  "explain_plan f = (let p = plan f in
     \<lparr>pe_workload = plan_workload p, pe_replica = plan_replica p,
      pe_policy_generation = plan_policy_generation p, pe_tie_break = plan_tie_break p, pe_steps = plan_steps p\<rparr>)"

definition cost_of :: "id128 \<Rightarrow> fabric \<Rightarrow> readiness_cost" where
  "cost_of i f = (case map_find i (fb_objects f) of None \<Rightarrow> readiness_cost_default
     | Some o' \<Rightarrow> estimate o' (fb_default_model_bytes f))"

section \<open>Snapshots and the lock\<close>

text \<open>The outcome of a call by a thread, given whether that thread already holds \<open>mutex_\<close>:
  \<open>std::mutex\<close> is not recursive, so locking it again never succeeds.\<close>

datatype 'a locked = Done 'a | Deadlock

definition lock_guard :: "bool \<Rightarrow> (bool \<Rightarrow> 'a locked) \<Rightarrow> 'a locked" where
  "lock_guard held body = (if held then Deadlock else body True)"

definition fabric_objects :: "bool \<Rightarrow> fabric \<Rightarrow> warmth_object list locked" where
  "fabric_objects held f = lock_guard held (\<lambda>_. Done (map snd (fb_objects f)))"

text \<open>The fields of a snapshot of the fabric, whatever the objects.\<close>

definition snapshot_with :: "warmth_object list \<Rightarrow> fabric \<Rightarrow> snapshot" where
  "snapshot_with os f = \<lparr>sn_format_version = 1, sn_epoch = 1, sn_warmth_generation = fb_warmth_gen f,
     sn_dependency_generation = fb_dep_gen f, sn_policy_generation = fb_policy_gen f,
     sn_policy = fb_policy f, sn_objects = os\<rparr>"

definition fabric_snapshot :: "bool \<Rightarrow> fabric \<Rightarrow> snapshot locked" where
  "fabric_snapshot held f = lock_guard held (\<lambda>held'.
     case fabric_objects held' f of Deadlock \<Rightarrow> Deadlock | Done os \<Rightarrow> Done (snapshot_with os f))"

definition fabric_save ::
  "file_io \<Rightarrow> string \<Rightarrow> fabric \<Rightarrow> file_system \<Rightarrow> ((string + unit) \<times> file_system) locked" where
  "fabric_save io path f fs = (case fabric_snapshot False f of Deadlock \<Rightarrow> Deadlock
     | Done snap \<Rightarrow> Done (save_snapshot_file io path snap fs))"

text \<open>What recovery does to each object of the snapshot.\<close>

definition recover_object :: "warmth_object \<Rightarrow> warmth_object" where
  "recover_object o' =
    (let o1 = (if is_execution_ready (wo_state o') \<or> wo_state o' = HOT
               then try_transition DISCOVERED ''restart_revalidation'' o' else o');
         o2 = o1\<lparr>wo_invalidation_reason := Some ''restart_revalidation_required''\<rparr>
     in (drop_dims [CudaContextReadiness, KernelReadiness, GraphReadiness, AllocatorReadiness] D_COLD o2)
          \<lparr>wo_provenance := P_REPORTED\<rparr>)"

definition recover_from :: "snapshot \<Rightarrow> fabric \<Rightarrow> fabric" where
  "recover_from snap f = f
     \<lparr>fb_warmth_gen := gen_next (sn_warmth_generation snap),
      fb_dep_gen := gen_next (sn_dependency_generation snap),
      fb_policy_gen := gen_next (sn_policy_generation snap),
      fb_objects := fold (\<lambda>o'. map_set (wo_id o') (recover_object o')) (sn_objects snap) [],
      fb_policy := sn_policy snap,
      fb_budget := new_tracker (pol_budgets (sn_policy snap))\<rparr>"

definition recover :: "file_io \<Rightarrow> string \<Rightarrow> file_system \<Rightarrow> fabric \<Rightarrow> (string + unit) \<times> fabric" where
  "recover io path fs f = (case load_snapshot_file io path fs of Inl e \<Rightarrow> (Inl e, f)
     | Inr snap \<Rightarrow> (Inr (), recover_from snap f))"

section \<open>Facts about single operations\<close>

lemma make_warm_state: "wo_state (make_warm why o') = (if wo_state o' = HOT then HOT else WARM)"
  by (cases "wo_state o'") (auto simp: make_warm_def transition_def transition_allowed_def Let_def)

lemma wo_id_make_warm [simp, frame]: "wo_id (make_warm why o') = wo_id o'"
  by (auto simp: make_warm_def Let_def transition_def)

lemma wo_dims_make_warm [simp, frame]: "wo_dims (make_warm why o') = wo_dims o'"
  by (auto simp: make_warm_def Let_def transition_def)

lemma drop_dims_frame [simp, frame]:
  "wo_id (drop_dims is v o') = wo_id o'" "wo_state (drop_dims is v o') = wo_state o'"
  "wo_residency (drop_dims is v o') = wo_residency o'"
  "wo_invalidation_reason (drop_dims is v o') = wo_invalidation_reason o'"
  by (induction "is" arbitrary: o') (simp_all add: drop_dims_def)

lemma dimension_drop_dims: "dimension j (drop_dims is v o') = (if j \<in> set is then v else dimension j o')"
  by (induction "is" arbitrary: o') (auto simp: drop_dims_def)

lemma on_object_frame [simp, frame]:
  "fb_budget (snd (on_object i op f)) = fb_budget f" "fb_policy (snd (on_object i op f)) = fb_policy f"
  "fb_op (snd (on_object i op f)) = fb_op f"
  by (auto simp: on_object_def split: option.splits prod.splits)

lemma on_object_found:
  "map_find i (fb_objects f) = Some o' \<Longrightarrow> on_object i op f = (fst (op o'), f\<lparr>fb_objects := map_set i (snd (op o')) (fb_objects f)\<rparr>)"
  by (simp add: on_object_def split: prod.split)

lemma dims_get_all_valid [simp]: "dims_get i dims_all_valid = D_VALID"
  by (cases i) (simp_all add: dims_all_valid_def)

lemma composite_all_valid: "dims_composite_level dims_all_valid = C_HOT"
  by (simp add: dims_composite_level_def dims_all_valid_def component_count_def valid_count_def dims_all_def)

lemma recover_object_state: "wo_state (recover_object o') = (if wo_state o' = WARM then DISCOVERED else wo_state o')"
  by (cases "wo_state o'") (simp_all add: recover_object_def Let_def transition_allowed_def)

lemma recover_object_frame [simp, frame]: "wo_id (recover_object o') = wo_id o'"
  by (simp add: recover_object_def Let_def)

section \<open>The invariant of the fabric\<close>

text \<open>Threads inside the backend call of \<open>warm\<close>: the object and the reservations they will release.\<close>

type_synonym pending = "(id128 \<times> u64 \<times> u64) multiset"

definition keyed :: "(id128, warmth_object) std_map \<Rightarrow> bool" where
  "keyed m \<longleftrightarrow> (\<forall>(i, o') \<in> set m. wo_id o' = i)"

definition budget_inv :: "nat \<Rightarrow> (u64 \<times> u64) multiset \<Rightarrow> budget_tracker \<Rightarrow> bool" where
  "budget_inv n M b \<longleftrightarrow> tracker_ok n b \<and> owns M (opens_of b)
     \<and> (\<forall>k. limits_get k (bt_limits b) \<noteq> 0 \<longrightarrow> kind_limited_inv k b)"

definition fabric_inv :: "nat \<Rightarrow> fabric \<times> pending \<Rightarrow> bool" where
  "fabric_inv n s \<longleftrightarrow> map_wf (fb_objects (fst s)) \<and> keyed (fb_objects (fst s))
     \<and> budget_inv n (image_mset snd (snd s)) (fb_budget (fst s))"

lemma keyed_set: "keyed m \<Longrightarrow> wo_id o' = i \<Longrightarrow> keyed (map_set i o' m)"
  by (induction i o' m rule: map_set.induct) (auto simp: keyed_def)

lemma keyed_find: "keyed m \<Longrightarrow> map_find i m = Some o' \<Longrightarrow> wo_id o' = i"
  by (auto simp: keyed_def dest!: map_find_SomeD)

lemma keyed_update_all: "keyed m \<Longrightarrow> (\<And>o'. wo_id (g o') = wo_id o') \<Longrightarrow> keyed (map_update_all g m)"
  by (auto simp: keyed_def map_update_all_def)

lemma budget_inv_new:
  assumes "n < 2 ^ 64 - 1"
  shows "budget_inv n {#} (new_tracker l)"
proof -
  have "opens_of (new_tracker l) = Map.empty" by (simp add: opens_of_def new_tracker_def fun_eq_iff)
  moreover have "limits_get k (bt_limits (new_tracker l)) \<noteq> 0 \<Longrightarrow> kind_limited_inv k (new_tracker l)" for k
    using kind_exact_new[of k l] by (simp add: kind_limited_inv_def open_sum_def new_tracker_def)
  ultimately show ?thesis using tracker_ok_new[OF assms] by (simp add: budget_inv_def owns_empty_iff)
qed

lemma budget_inv_mono: "budget_inv n M b \<Longrightarrow> m \<le> n \<Longrightarrow> budget_inv m M b"
  using tracker_ok_mono by (auto simp: budget_inv_def)

lemma limited_reserve:
  assumes "tracker_ok (Suc n) b" "kind_limited_inv k b" "reserve k' a t b = (i, e, b')"
  shows "kind_limited_inv k b'"
  using budget_step_inv[OF assms(1,2), of "Reserve k' a t"] assms(3) by simp

lemma limited_release:
  assumes "tracker_ok n b" "kind_limited_inv k b" "0 < n"
  shows "kind_limited_inv k (snd (release i b))"
  using budget_step_inv[of "n - 1" b k "Release i"] assms by simp

lemma reserve_limits: "reserve k a t b = (i, e, b') \<Longrightarrow> bt_limits b' = bt_limits b"
  using bt_limits_frame(1)[of k a t b] by simp

text \<open>Taking a pair of reservations, and giving it back.\<close>

lemma budget_inv_acquire:
  assumes "budget_inv (Suc (Suc n)) M b" "reserve k a t b = (i, e, b1)" "i \<noteq> 0" "reserve k' a' t' b1 = (j, e', b2)"
  shows "budget_inv n (add_mset (i, j) M) b2"
proof -
  have ok: "tracker_ok (Suc (Suc n)) b" and own: "owns M (opens_of b)" using assms(1) by (auto simp: budget_inv_def)
  have ok1: "tracker_ok (Suc n) b1" by (rule reserve_ok[OF ok assms(2)])
  note lim = reserve_limits[OF assms(2)] reserve_limits[OF assms(4)]
  have "kind_limited_inv q b2" if "limits_get q (bt_limits b2) \<noteq> 0" for q
    using that assms(1) limited_reserve[OF ok1 limited_reserve[OF ok _ assms(2)] assms(4)] by (simp add: lim budget_inv_def)
  then show ?thesis using ledger.acquire_pair_owns[OF ok own assms(2-4)] by (simp add: budget_inv_def)
qed

lemma release_ok_snd: "tracker_ok n b \<Longrightarrow> tracker_ok n (snd (release i b))"
  using release_ok[of n b i] by (cases "release i b") simp

lemma budget_inv_release:
  assumes "budget_inv (Suc n) (add_mset (i, j) M) b"
  shows "budget_inv (Suc n) M (release_pair i j b)"
proof -
  have ok: "tracker_ok (Suc n) b" and own: "owns (add_mset (i, j) M) (opens_of b)" using assms by (auto simp: budget_inv_def)
  have ok1: "tracker_ok (Suc n) (snd (release i b))" by (rule release_ok_snd[OF ok])
  have lim: "bt_limits (release_pair i j b) = bt_limits b" by (simp add: release_pair_def Let_def)
  have "kind_limited_inv k (release_pair i j b)" if "kind_limited_inv k b" for k
    using limited_release[OF ok that, of i] limited_release[OF ok1, of k j] by (simp add: release_pair_def Let_def)
  moreover have "owns M (opens_of (release_pair i j b))" "tracker_ok (Suc n) (release_pair i j b)"
    using ledger.giveback_pair_owns[OF ok own refl refl] by (simp_all add: release_pair_def Let_def)
  ultimately show ?thesis using assms lim by (simp add: budget_inv_def)
qed

section \<open>Interleaved calls\<close>

text \<open>One atomic step of any thread. The backend outcome and the clock are arbitrary. \<open>recover\<close>
  replaces the tracker, so it is a step only while no thread is inside the backend call.\<close>

inductive fabric_step :: "fabric \<times> pending \<Rightarrow> fabric \<times> pending \<Rightarrow> bool" where
  fs_register: "fabric_step (f, P) (snd (register_object c ow m a r e f), P)"
| fs_upsert: "fabric_step (f, P) (snd (upsert o' f), P)"
| fs_transition: "fabric_step (f, P) (snd (fabric_transition i to why f), P)"
| fs_set_dimension: "fabric_step (f, P) (snd (fabric_set_dimension i d v f), P)"
| fs_set_dimensions: "fabric_step (f, P) (snd (fabric_set_dimensions i ds f), P)"
| fs_mark_used: "fabric_step (f, P) (snd (fabric_mark_used now i f), P)"
| fs_invalidate: "fabric_step (f, P) (snd (invalidate i reason f), P)"
| fs_demote: "fabric_step (f, P) (snd (demote i f), P)"
| fs_evict: "fabric_step (f, P) (snd (evict i f), P)"
| fs_warm_to_ready: "fabric_step (f, P) (snd (warm_to_ready i f), P)"
| fs_warm_refused: "warm_begin i f = (None, f') \<Longrightarrow> fabric_step (f, P) (f', P)"
| fs_warm_begin: "warm_begin i f = (Some res, f') \<Longrightarrow> fabric_step (f, P) (f', add_mset (i, res) P)"
| fs_warm_finish: "fabric_step (f, add_mset (i, res) P) (snd (warm_finish i res outcome now now' f), P)"
| fs_bump_dep: "fabric_step (f, P) (bump_dependency_generation f, P)"
| fs_bump_warmth: "fabric_step (f, P) (bump_warmth_generation f, P)"
| fs_decay: "fabric_step (f, P) (fabric_decay ev f, P)"
| fs_recover: "fabric_step (f, {#}) (snd (recover io path fs f), {#})"

lemma fabric_inv_on_object:
  assumes "fabric_inv n (f, P)" "\<And>o'. wo_id (snd (op o')) = wo_id o'"
  shows "fabric_inv n (snd (on_object i op f), P)"
proof (cases "map_find i (fb_objects f)")
  case (Some o')
  have "wo_id o' = i" using assms(1) Some by (auto simp: fabric_inv_def intro: keyed_find)
  then show ?thesis using assms Some by (simp add: fabric_inv_def on_object_found keyed_set)
qed (use assms(1) in \<open>simp add: on_object_def\<close>)

lemma fabric_inv_mono: "fabric_inv n s \<Longrightarrow> m \<le> n \<Longrightarrow> fabric_inv m s"
  using budget_inv_mono by (auto simp: fabric_inv_def)

lemma fabric_inv_objects:
  "fabric_inv n (f, P) \<Longrightarrow> map_wf m \<Longrightarrow> keyed m \<Longrightarrow> fabric_inv n (f\<lparr>fb_objects := m\<rparr>, P)"
  by (simp add: fabric_inv_def)

lemma fabric_inv_set:
  "fabric_inv n (f, P) \<Longrightarrow> wo_id o' = i \<Longrightarrow> fabric_inv n (f\<lparr>fb_objects := map_set i o' (fb_objects f)\<rparr>, P)"
  by (simp add: fabric_inv_def keyed_set)

lemma fabric_inv_register: "fabric_inv n (f, P) \<Longrightarrow> fabric_inv n (snd (register_object c ow m a r e f), P)"
  by (simp add: register_object_def Let_def fabric_inv_set)

text \<open>The three outcomes of phase 1.\<close>

lemma warm_begin_cases:
  assumes "warm_begin i f = (res, f')"
  obtains (absent) "res = None" "f' = f" "map_find i (fb_objects f) = None"
  | (infeasible) o' e where "map_find i (fb_objects f) = Some o'" "res = None"
      "reserve BK_DEVICE_MEMORY kDefaultWarmBytes ''warm'' (fb_budget f) = (0, e, fb_budget f')" "f' = f\<lparr>fb_budget := fb_budget f'\<rparr>"
  | (reserved) o' r e1 b1 op e2 b2 where "map_find i (fb_objects f) = Some o'"
      "reserve BK_DEVICE_MEMORY kDefaultWarmBytes ''warm'' (fb_budget f) = (r, e1, b1)" "r \<noteq> 0"
      "reserve BK_CONCURRENT_WARMING_OPS 1 ''warm'' b1 = (op, e2, b2)"
      "if transition_allowed (wo_state o') PREPARING
       then res = Some (r, op) \<and> f' = f\<lparr>fb_budget := b2, fb_objects := map_set i (try_transition PREPARING ''warming'' o') (fb_objects f)\<rparr>
       else res = None \<and> f' = f\<lparr>fb_budget := release_pair r op b2\<rparr>"
proof (cases "map_find i (fb_objects f)")
  case None
  then show ?thesis using assms absent by (simp add: warm_begin_def)
next
  case (Some o')
  obtain r e1 b1 where r: "reserve BK_DEVICE_MEMORY kDefaultWarmBytes ''warm'' (fb_budget f) = (r, e1, b1)"
    by (metis prod_cases3)
  obtain op e2 b2 where op: "reserve BK_CONCURRENT_WARMING_OPS 1 ''warm'' b1 = (op, e2, b2)"
    by (metis prod_cases3)
  show ?thesis
  proof (cases "r = 0")
    case True
    then have "res = None" "f' = f\<lparr>fb_budget := b1\<rparr>" using assms Some r by (simp_all add: warm_begin_def)
    then show ?thesis using Some r True by (intro infeasible) simp_all
  next
    case False
    then show ?thesis using assms Some r op by (intro reserved) (auto simp: warm_begin_def split: if_splits)
  qed
qed

lemma fabric_inv_warm_begin:
  assumes "fabric_inv (Suc (Suc (Suc n))) (f, P)" "warm_begin i f = (res, f')"
  shows "fabric_inv (Suc n) (f', case res of None \<Rightarrow> P | Some rs \<Rightarrow> add_mset (i, rs) P)"
  using assms(2)
proof (cases rule: warm_begin_cases)
  case absent
  then show ?thesis using fabric_inv_mono[OF assms(1)] by simp
next
  case (infeasible o' e)
  have "tracker_ok (Suc (Suc (Suc n))) (fb_budget f)" using assms(1) by (simp add: fabric_inv_def budget_inv_def)
  then have "fb_budget f' = fb_budget f" using infeasible(3) by (rule ledger.acquire_refused)
  then have "f' = f" using infeasible(4) by simp
  then show ?thesis using infeasible(2) fabric_inv_mono[OF assms(1)] by simp
next
  case (reserved o' r e1 b1 op e2 b2)
  have inv: "budget_inv (Suc n) (add_mset (r, op) (image_mset snd P)) b2"
    using assms(1) reserved(2,3,4) by (intro budget_inv_acquire) (simp_all add: fabric_inv_def)
  have id: "wo_id o' = i" using assms(1) reserved(1) by (auto simp: fabric_inv_def intro: keyed_find)
  show ?thesis using reserved(5) inv budget_inv_release[OF inv] assms(1) id
    by (auto simp: fabric_inv_def keyed_set split: if_splits)
qed

lemma fabric_inv_warm_finish:
  assumes "fabric_inv (Suc n) (f, add_mset (i, res) P)"
  shows "fabric_inv (Suc n) (snd (warm_finish i res outcome now now' f), P)"
proof -
  have "budget_inv (Suc n) (image_mset snd P) (release_pair (fst res) (snd res) (fb_budget f))"
    using assms by (intro budget_inv_release) (simp add: fabric_inv_def)
  then have "fabric_inv (Suc n) (f\<lparr>fb_budget := release_pair (fst res) (snd res) (fb_budget f)\<rparr>, P)"
    using assms by (simp add: fabric_inv_def)
  then show ?thesis unfolding warm_finish_def Let_def
    by (rule fabric_inv_on_object) (auto simp: record_warm_def split: prod.splits)
qed

lemma fold_recover_keyed:
  "map_wf m \<Longrightarrow> keyed m \<Longrightarrow> map_wf (fold (\<lambda>o'. map_set (wo_id o') (recover_object o')) os m)
     \<and> keyed (fold (\<lambda>o'. map_set (wo_id o') (recover_object o')) os m)"
  by (induction os arbitrary: m) (simp_all add: keyed_set)

lemma fabric_inv_recover:
  assumes "fabric_inv n (f, {#})"
  shows "fabric_inv n (snd (recover io path fs f), {#})"
proof (cases "load_snapshot_file io path fs")
  case (Inr snap)
  have "tracker_ok n (fb_budget f)" using assms by (simp add: fabric_inv_def budget_inv_def)
  then have "bt_next_id (fb_budget f) \<noteq> 0" "unat (bt_next_id (fb_budget f)) + n < 2 ^ 64" by (simp_all add: tracker_ok_def)
  then have "n < 2 ^ 64 - 1" using unat_gt_0[of "bt_next_id (fb_budget f)"] by linarith
  then show ?thesis using fold_recover_keyed[of "[]"] budget_inv_new[of n]
    by (simp add: recover_def Inr recover_from_def fabric_inv_def keyed_def)
qed (use assms in \<open>simp add: recover_def\<close>)

lemmas object_ops =
  fabric_transition_def fabric_set_dimension_def fabric_set_dimensions_def fabric_mark_used_def
  invalidate_def demote_def evict_def warm_to_ready_def

lemma wo_id_decay_apply [simp]: "wo_id (decay_apply p e o') = wo_id o'"
  by (simp add: decay_apply_def Let_def)

lemma fabric_step_inv:
  assumes "fabric_step s s'" "fabric_inv (Suc (Suc (Suc n))) s"
  shows "fabric_inv (Suc n) s'"
proof -
  have m: "fabric_inv (Suc n) s" using assms(2) by (rule fabric_inv_mono) simp
  from assms(1) show ?thesis
  proof cases
    case (fs_warm_refused i f f' P)
    then show ?thesis using fabric_inv_warm_begin[of n f P i None f'] assms(2) by simp
  next
    case (fs_warm_begin i f res f' P)
    then show ?thesis using fabric_inv_warm_begin[of n f P i "Some res" f'] assms(2) by simp
  next
    case (fs_warm_finish f i res P outcome now now')
    then show ?thesis using m fabric_inv_warm_finish by simp
  next
    case (fs_recover f io path fs)
    then show ?thesis using m fabric_inv_recover by simp
  next
    case (fs_register f P c ow m a r e)
    then show ?thesis using m fabric_inv_register by simp
  next
    case (fs_decay f P ev)
    then show ?thesis using m
      by (auto simp: fabric_decay_def intro!: fabric_inv_objects keyed_update_all) (auto simp: fabric_inv_def)
  next
    case (fs_demote f P i)
    then show ?thesis using m unfolding demote_def
      by (auto intro!: fabric_inv_on_object simp: transition_def split: warmth_state.split)
  qed (use m in \<open>auto intro!: fabric_inv_on_object fabric_inv_set simp: object_ops upsert_def
         bump_dependency_generation_def bump_warmth_generation_def transition_def Let_def split: prod.split\<close>,
       auto simp: fabric_inv_def)
qed

text \<open>Histories: a step uses up at most two reservation ids.\<close>

lemma fabric_reach_inv: "(fabric_step ^^ k) s s' \<Longrightarrow> fabric_inv (Suc (2 * k + n)) s \<Longrightarrow> fabric_inv (Suc n) s'"
proof (induction k arbitrary: s' n)
  case (Suc k)
  then obtain t where t: "(fabric_step ^^ k) s t" "fabric_step t s'" by auto
  have "fabric_inv (Suc (Suc (Suc n))) t" using Suc.IH[OF t(1), of "Suc (Suc n)"] Suc.prems(2) by simp
  with t(2) show ?case by (rule fabric_step_inv)
qed simp

lemma fabric_inv_new:
  "n < 2 ^ 64 - 1 \<Longrightarrow> fabric_inv n (new_fabric workload node device backend policy model_bytes, {#})"
  by (simp add: fabric_inv_def new_fabric_def keyed_def budget_inv_new)

lemma balanced_iff_pending:
  assumes "fabric_inv n (f, P)"
  shows "budgets_balanced f \<longleftrightarrow> P = {#}"
proof -
  have own: "owns (image_mset snd P) (opens_of (fb_budget f))" using assms by (simp add: fabric_inv_def budget_inv_def)
  have "image_mset snd P = {#}" if "budgets_balanced f"
    using that own by (intro owns_empty_ledger) (simp add: budgets_balanced_def balanced_iff_opens)
  moreover have "budgets_balanced f" if "P = {#}"
    using that own by (simp add: budgets_balanced_def balanced_iff_opens owns_empty_iff)
  ultimately show ?thesis by auto
qed

lemma usage_within_limit:
  assumes "fabric_inv n (f, P)" "limits_get k (bt_limits (fb_budget f)) \<noteq> 0"
  shows "unat (budget_usage k f) = open_sum k (fb_budget f)" "budget_usage k f \<le> limits_get k (bt_limits (fb_budget f))"
  using assms by (auto simp: fabric_inv_def budget_inv_def kind_limited_inv_def kind_exact_def budget_usage_def word_le_nat_alt)

section \<open>One call of \<open>warm\<close>\<close>

lemma fb_budget_warm_finish:
  "fb_budget (snd (warm_finish i res outcome now now' f)) = release_pair (fst res) (snd res) (fb_budget f)"
  by (simp add: warm_finish_def Let_def)

text \<open>Whatever the outcome, a call that runs alone leaves the same reservations open.\<close>

lemma warm_neutral:
  assumes "tracker_ok (Suc (Suc n)) (fb_budget f)" "warm (\<lambda>f. f) now now' i action f = (ok, f')"
  shows "bt_reservations (fb_budget f') = bt_reservations (fb_budget f)"
proof -
  obtain res f1 where b: "warm_begin i f = (res, f1)" by (cases "warm_begin i f")
  from b show ?thesis
  proof (cases rule: warm_begin_cases)
    case absent
    then show ?thesis using assms(2) b by (simp add: warm_def)
  next
    case (infeasible o' e)
    have "fb_budget f1 = fb_budget f" using assms(1) infeasible(3) by (rule ledger.acquire_refused)
    then show ?thesis using assms(2) b infeasible(2) by (simp add: warm_def)
  next
    case (reserved o' r e1 b1 op e2 b2)
    have n: "opens_of (release_pair r op b2) = opens_of (fb_budget f)" "tracker_ok n (release_pair r op b2)"
      using ledger.pair_neutral[OF assms(1) reserved(2-4) refl refl] by (simp_all add: release_pair_def Let_def)
    have "fb_budget f' = release_pair r op b2"
    proof (cases res)
      case None
      then show ?thesis using assms(2) b reserved(5) by (auto simp: warm_def split: if_splits)
    next
      case (Some rs)
      then have "rs = (r, op)" "fb_budget f1 = b2" using reserved(5) by (simp_all split: if_splits)
      moreover have "f' = snd (warm (\<lambda>f. f) now now' i action f)" using assms(2) by simp
      ultimately show ?thesis by (simp add: warm_def b Some fb_budget_warm_finish)
    qed
    then show ?thesis using opens_of_eqD[OF n(2) assms(1) n(1)] by simp
  qed
qed

lemma warm_begin_granted:
  assumes "map_find i (fb_objects f) = Some o'" "transition_allowed (wo_state o') PREPARING"
    "reserve BK_DEVICE_MEMORY kDefaultWarmBytes ''warm'' (fb_budget f) = (r, e, b1)" "r \<noteq> 0"
  shows "\<exists>op b2. warm_begin i f = (Some (r, op), f\<lparr>fb_budget := b2,
    fb_objects := map_set i (try_transition PREPARING ''warming'' o') (fb_objects f)\<rparr>)"
  using assms by (cases "reserve BK_CONCURRENT_WARMING_OPS 1 ''warm'' b1") (auto simp: warm_begin_def)

text \<open>The outcome of a call that was granted its device memory.\<close>

lemma warm_outcome:
  assumes "map_find i (fb_objects f) = Some o'" "transition_allowed (wo_state o') PREPARING"
    "reserve BK_DEVICE_MEMORY kDefaultWarmBytes ''warm'' (fb_budget f) = (r, e, b1)" "r \<noteq> 0"
    and "(case fb_op f of Some op \<Rightarrow> op | None \<Rightarrow> synthetic_warm) action = (success, duration, bs)"
  shows "\<exists>f' o1. warm (\<lambda>f. f) now now' i action f = (success, f') \<and> map_find i (fb_objects f') = Some o1 \<and>
    (if success then wo_state o1 = WARM \<and> wo_residency o1 = R_DEVICE_RESIDENT \<and> wo_observed_ttr_ms o1 = duration \<and>
        wo_measured_cost_bytes o1 = bs \<and> wo_provenance o1 = P_MEASURED \<and> wo_invalidation_reason o1 = None
     else wo_state o1 = FAILED)"
proof -
  obtain op b2 where w: "warm_begin i f = (Some (r, op), f\<lparr>fb_budget := b2,
    fb_objects := map_set i (try_transition PREPARING ''warming'' o') (fb_objects f)\<rparr>)"
    using warm_begin_granted[OF assms(1-4)] by blast
  have st: "wo_state (try_transition PREPARING ''warming'' o') = PREPARING" using assms(2) by (simp add: transition_def)
  show ?thesis using assms(5) st
    by (simp add: warm_def w warm_finish_def Let_def on_object_def record_warm_def transition_allowed_def split: if_split)
qed

section \<open>Recovery\<close>

text \<open>The snapshot a fabric takes right after a recovery is one that no fabric can load.\<close>

lemma recovered_snapshot_rejected:
  assumes "pol_generation (sn_policy snap) = sn_policy_generation snap" "sn_policy_generation snap \<noteq> - 1"
    and "s = snapshot_with os (recover_from snap f)" "encode_snapshot s = Inr bs" "length (payload_of s) < 2 ^ 32"
  shows "decode_snapshot bs = Inl ''invalid generation relation (policy)''"
  using assms(1,2) by (intro decode_policy_mismatch[OF assms(4) _ assms(5)])
    (simp add: assms(3) snapshot_with_def recover_from_def gen_next_def)

lemma map_find_fold_recover:
  "distinct (map wo_id os) \<Longrightarrow> map_find i (fold (\<lambda>o'. map_set (wo_id o') (recover_object o')) os m) =
    (case find (\<lambda>o'. wo_id o' = i) os of Some o' \<Rightarrow> Some (recover_object o') | None \<Rightarrow> map_find i m)"
proof (induction os arbitrary: m)
  case (Cons x os)
  have "find (\<lambda>o'. wo_id o' = wo_id x) os = None" using Cons.prems unfolding find_None_iff by (metis distinct.simps(2) image_eqI list.simps(9) list.set_map)
  then show ?case using Cons by (auto split: option.split)
qed simp

lemma find_by_id: "x \<in> set os \<Longrightarrow> distinct (map wo_id os) \<Longrightarrow> find (\<lambda>o'. wo_id o' = wo_id x) os = Some x"
  by (induction os) auto

lemma dimension_provenance [simp]:
  "dimension d (o'\<lparr>wo_provenance := p\<rparr>) = dimension d o'" "dimension d (o'\<lparr>wo_invalidation_reason := r\<rparr>) = dimension d o'"
  by (simp_all add: dimension_def)

section \<open>The plan of a fabric\<close>

lemma fabric_components_not_nan: "\<forall>c \<in> set (preference_components (fabric_preference o')). \<not> isnan c"
  by (simp add: preference_components_def fabric_preference_def preference_default_def)

lemma fabric_scores_not_nan:
  assumes "\<forall>w \<in> set (policy_weights (fb_policy f)). dbl_within (2 ^ 48) w" "c \<in> set (map (fabric_candidate f \<circ> snd) (fb_objects f))"
  shows "\<not> isnan (preference_score (cd_preference c) (policy_weights (fb_policy f)))"
proof -
  obtain o' where "cd_preference c = fabric_preference o'" using assms(2) by (auto simp: fabric_candidate_def Let_def)
  then show ?thesis using score_not_nan[OF assms(1) _ fabric_components_not_nan[of o']] by simp
qed

lemma fabric_candidate_ids:
  assumes "keyed (fb_objects f)"
  shows "map cd_id (map (fabric_candidate f \<circ> snd) (fb_objects f)) = map fst (fb_objects f)"
  using assms by (auto simp: keyed_def fabric_candidate_def Let_def)

end
