(* ===== verification/Transport.thy ===== *)
theory Transport
  imports Byte_Codec
begin

text \<open>
  The blocking loops of \<open>src/transport.cpp\<close> (POSIX branch) over \<open>send\<close> and \<open>recv\<close>, which are
  parameters: \<open>recv w n\<close> reports an error (\<open>None\<close>), the end of the stream (no bytes) or some of the
  next bytes, \<open>send w bs\<close> an error or how many leading bytes it took; \<open>'w\<close> is the state of the
  operating system and the peer. \<open>recv_ok\<close> and \<open>send_ok\<close> are the documented behaviour of a stream
  socket with respect to the bytes still to come and the bytes accepted so far. Both loops end,
  and they hide how the network cuts the stream into pieces.
\<close>

section \<open>The loops\<close>

type_synonym 'w recv_fn = "'w \<Rightarrow> nat \<Rightarrow> bytes option \<times> 'w"
type_synonym 'w send_fn = "'w \<Rightarrow> bytes \<Rightarrow> nat option \<times> 'w"

function read_loop :: "'w recv_fn \<Rightarrow> nat \<Rightarrow> 'w \<Rightarrow> bytes option \<times> 'w" where
  "read_loop recv n w =
    (if n = 0 then (Some [], w)
     else case recv w n of
       (None, w') \<Rightarrow> (None, w')
     | (Some bs, w') \<Rightarrow>
         if bs = [] then (None, w')
         else (case read_loop recv (n - length bs) w' of
                 (None, w'') \<Rightarrow> (None, w'')
               | (Some r, w'') \<Rightarrow> (Some (bs @ r), w'')))"
  by pat_completeness auto
termination by (relation "measure (\<lambda>(recv, n, w). n)") auto

function write_loop :: "'w send_fn \<Rightarrow> bytes \<Rightarrow> 'w \<Rightarrow> bool \<times> 'w" where
  "write_loop send bs w =
    (if bs = [] then (True, w)
     else case send w bs of
       (None, w') \<Rightarrow> (False, w')
     | (Some k, w') \<Rightarrow> if k = 0 then (False, w') else write_loop send (drop k bs) w')"
  by pat_completeness auto
termination by (relation "measure (\<lambda>(send, bs, w). length bs)") auto

declare read_loop.simps [simp del] write_loop.simps [simp del]

text \<open>A connection is its socket, \<open>None\<close> once closed.\<close>

record 'w connection =
  conn_valid :: bool
  conn_world :: 'w

definition read_exact :: "'w recv_fn \<Rightarrow> nat \<Rightarrow> 'w connection \<Rightarrow> bytes option \<times> 'w connection" where
  "read_exact recv n c =
    (if \<not> conn_valid c then (None, c)
     else case read_loop recv n (conn_world c) of (r, w) \<Rightarrow> (r, c\<lparr>conn_world := w\<rparr>))"

definition write_all :: "'w send_fn \<Rightarrow> bytes \<Rightarrow> 'w connection \<Rightarrow> bool \<times> 'w connection" where
  "write_all send bs c =
    (if \<not> conn_valid c then (False, c)
     else case write_loop send bs (conn_world c) of (r, w) \<Rightarrow> (r, c\<lparr>conn_world := w\<rparr>))"

definition conn_close :: "'w connection \<Rightarrow> 'w connection" where
  "conn_close c = c\<lparr>conn_valid := False\<rparr>"

section \<open>Stream sockets\<close>

text \<open>\<open>stream w\<close> is what the peer will still deliver: \<open>recv\<close> returns a non-empty piece of it while
  there is one.\<close>

definition recv_ok :: "'w recv_fn \<Rightarrow> ('w \<Rightarrow> bytes) \<Rightarrow> bool" where
  "recv_ok recv stream \<longleftrightarrow> (\<forall>w n r w'. 0 < n \<longrightarrow> recv w n = (r, w') \<longrightarrow>
     (case r of None \<Rightarrow> stream w = []
      | Some bs \<Rightarrow> stream w = bs @ stream w' \<and> length bs \<le> n \<and> (bs = [] \<longrightarrow> stream w = [])))"

definition send_ok :: "'w send_fn \<Rightarrow> ('w \<Rightarrow> bytes) \<Rightarrow> bool" where
  "send_ok send sent \<longleftrightarrow> (\<forall>w bs k w'. send w bs = (Some k, w') \<longrightarrow> k \<le> length bs \<and> sent w' = sent w @ take k bs)"

lemma recv_okD:
  assumes "recv_ok recv stream" "0 < n" "recv w n = (r, w')"
  shows "case r of None \<Rightarrow> stream w = []
    | Some bs \<Rightarrow> stream w = bs @ stream w' \<and> length bs \<le> n \<and> (bs = [] \<longrightarrow> stream w = [])"
  using assms unfolding recv_ok_def by blast

lemma read_loop_stream:
  assumes "recv_ok recv stream"
  shows "n \<le> length (stream w) \<Longrightarrow>
    \<exists>w'. read_loop recv n w = (Some (take n (stream w)), w') \<and> stream w' = drop n (stream w)"
proof (induction n arbitrary: w rule: less_induct)
  case (less n)
  show ?case
  proof (cases "n = 0")
    case False
    then have ne: "stream w \<noteq> []" using less.prems by auto
    obtain r w1 where r: "recv w n = (r, w1)" by (cases "recv w n")
    then obtain bs where bs: "r = Some bs" "stream w = bs @ stream w1" "length bs \<le> n" "bs \<noteq> []"
      using recv_okD[OF assms _ r] False ne by (cases r) auto
    have lt: "n - length bs < n" using bs(4) False by simp
    have "n - length bs \<le> length (stream w1)" using less.prems bs(2) by simp
    then obtain w2 where "read_loop recv (n - length bs) w1 = (Some (take (n - length bs) (stream w1)), w2)"
      "stream w2 = drop (n - length bs) (stream w1)" using less.IH[OF lt] by blast
    then show ?thesis using False r bs by (subst read_loop.simps) auto
  qed (subst read_loop.simps, simp)
qed

lemma read_loop_short:
  assumes "recv_ok recv stream"
  shows "length (stream w) < n \<Longrightarrow> fst (read_loop recv n w) = None"
proof (induction n arbitrary: w rule: less_induct)
  case (less n)
  obtain r w1 where r: "recv w n = (r, w1)" by (cases "recv w n")
  show ?case
  proof (cases r)
    case None
    then show ?thesis using less.prems r by (subst read_loop.simps) simp
  next
    case (Some bs)
    have st: "stream w = bs @ stream w1" using recv_okD[OF assms _ r] less.prems Some by simp
    show ?thesis
    proof (cases "bs = []")
      case True
      then show ?thesis using less.prems r Some by (subst read_loop.simps) simp
    next
      case False
      have "fst (read_loop recv (n - length bs) w1) = None"
        using less.prems st False by (intro less.IH) auto
      then show ?thesis using less.prems r Some False
        by (subst read_loop.simps) (auto split: prod.splits option.splits)
    qed
  qed
qed

lemma send_okD: "send_ok send sent \<Longrightarrow> send w bs = (Some k, w') \<Longrightarrow> k \<le> length bs \<and> sent w' = sent w @ take k bs"
  unfolding send_ok_def by blast

lemma write_loop_stream:
  assumes "send_ok send sent"
  shows "write_loop send bs w = (True, w') \<Longrightarrow> sent w' = sent w @ bs"
proof (induction "length bs" arbitrary: bs w rule: less_induct)
  case less
  show ?case
  proof (cases "bs = []")
    case True
    then show ?thesis using less.prems by (simp add: write_loop.simps[of send "[]"])
  next
    case False
    obtain r w1 where r: "send w bs = (r, w1)" by (cases "send w bs")
    with less.prems False obtain k where k: "r = Some k" "k \<noteq> 0" "write_loop send (drop k bs) w1 = (True, w')"
      by (auto simp: write_loop.simps[of send bs] split: option.splits if_splits)
    have "sent w' = sent w1 @ drop k bs" using less.hyps[OF _ k(3)] k(2) False by simp
    moreover have "sent w1 = sent w @ take k bs" using send_okD[OF assms] r k(1) by blast
    ultimately show ?thesis by simp
  qed
qed

end
