(* ===== verification/Protocol.thy ===== *)
theory Protocol
  imports Transport Hash
begin

text \<open>
  The frames of \<open>include/warmth/protocol.hpp\<close>: a twelve-byte header, the payload and its CRC-32.
  \<open>frame_write\<close> and \<open>frame_read\<close> follow \<open>FrameWriter::write\<close> and \<open>FrameReader::read\<close> call by call
  on a connection; \<open>parse_frame\<close> is the specification of the reader on the byte stream, which the
  reader refines however the network cuts the stream.
\<close>

section \<open>Message types\<close>

datatype message_type = MT_HELLO | MT_HELLO_ACK | MT_REPORT | MT_WARM_TOPIC | MT_WARM_RESULT | MT_PING | MT_PONG | MT_SHUTDOWN | MT_ERROR | MT_READY

fun type_code :: "message_type \<Rightarrow> u16" where
  "type_code MT_HELLO = 1"
| "type_code MT_HELLO_ACK = 2"
| "type_code MT_REPORT = 3"
| "type_code MT_WARM_TOPIC = 4"
| "type_code MT_WARM_RESULT = 5"
| "type_code MT_PING = 6"
| "type_code MT_PONG = 7"
| "type_code MT_SHUTDOWN = 8"
| "type_code MT_ERROR = 9"
| "type_code MT_READY = 10"

definition message_types :: "message_type list" where
  "message_types = [MT_HELLO, MT_HELLO_ACK, MT_REPORT, MT_WARM_TOPIC, MT_WARM_RESULT, MT_PING, MT_PONG, MT_SHUTDOWN, MT_ERROR, MT_READY]"

text \<open>The switch of \<open>known_type\<close> followed by the cast.\<close>

definition type_of_code :: "u16 \<Rightarrow> message_type option" where
  "type_of_code c = find (\<lambda>t. type_code t = c) message_types"

definition known_type :: "u16 \<Rightarrow> bool" where
  "known_type c \<longleftrightarrow> type_of_code c \<noteq> None"

fun message_type_name :: "message_type \<Rightarrow> string" where
  "message_type_name MT_HELLO = ''HELLO''"
| "message_type_name MT_HELLO_ACK = ''HELLO_ACK''"
| "message_type_name MT_REPORT = ''REPORT''"
| "message_type_name MT_WARM_TOPIC = ''WARM_TOPIC''"
| "message_type_name MT_WARM_RESULT = ''WARM_RESULT''"
| "message_type_name MT_PING = ''PING''"
| "message_type_name MT_PONG = ''PONG''"
| "message_type_name MT_SHUTDOWN = ''SHUTDOWN''"
| "message_type_name MT_ERROR = ''ERROR''"
| "message_type_name MT_READY = ''READY''"

section \<open>Frames\<close>

definition kFrameMagic :: u32 where
  "kFrameMagic = 0x5746524D"

definition kFrameVersion :: u8 where
  "kFrameVersion = 1"

definition kMaxPayload :: nat where
  "kMaxPayload = 16 * 1024 * 1024"

record frame =
  fr_type :: message_type
  fr_flags :: u8
  fr_payload :: bytes

definition frame_header :: "frame \<Rightarrow> bytes" where
  "frame_header f = put_u32 kFrameMagic @ [kFrameVersion, fr_flags f] @ put_u16 (type_code (fr_type f)) @
     put_u32 (of_nat (length (fr_payload f)))"

definition frame_crc :: "bytes \<Rightarrow> bytes" where
  "frame_crc payload = put_u32 (crc32 payload)"

definition frame_write :: "'w send_fn \<Rightarrow> frame \<Rightarrow> 'w connection \<Rightarrow> bool \<times> 'w connection" where
  "frame_write send f c =
    (let p = fr_payload f in
     if length p > kMaxPayload then (False, c)
     else case write_all send (frame_header f) c of (ok1, c1) \<Rightarrow>
       if \<not> ok1 then (False, c1)
       else case (if p \<noteq> [] then write_all send p c1 else (True, c1)) of (ok2, c2) \<Rightarrow>
         if \<not> ok2 then (False, c2) else write_all send (frame_crc p) c2)"

definition frame_read :: "'w recv_fn \<Rightarrow> 'w connection \<Rightarrow> frame option \<times> 'w connection" where
  "frame_read recv c =
    (case read_exact recv 12 c of (None, c1) \<Rightarrow> (None, c1)
     | (Some header, c1) \<Rightarrow>
       if be_val (take 4 header) \<noteq> kFrameMagic then (None, c1)
       else if header ! 4 \<noteq> kFrameVersion then (None, c1)
       else case type_of_code (be_val (take 2 (drop 6 header))) of None \<Rightarrow> (None, c1)
       | Some ty \<Rightarrow>
         let len = be_val (take 4 (drop 8 header)) :: u32 in
         if unat len > kMaxPayload then (None, c1)
         else case read_exact recv (unat len) c1 of (None, c2) \<Rightarrow> (None, c2)
         | (Some payload, c2) \<Rightarrow>
           case read_exact recv 4 c2 of (None, c3) \<Rightarrow> (None, c3)
           | (Some cb, c3) \<Rightarrow>
             if be_val cb \<noteq> crc32 payload then (None, c3)
             else (Some \<lparr>fr_type = ty, fr_flags = header ! 5, fr_payload = payload\<rparr>, c3))"

section \<open>The specification on byte streams\<close>

definition frame_bytes :: "frame \<Rightarrow> bytes" where
  "frame_bytes f = frame_header f @ fr_payload f @ frame_crc (fr_payload f)"

definition parse_frame :: "(unit, frame) reader" where
  "parse_frame =
     rbind (take_n 12) (\<lambda>header.
     rguard (be_val (take 4 header) = kFrameMagic) () (
     rguard (header ! 4 = kFrameVersion) () (
     renum () (type_of_code (be_val (take 2 (drop 6 header)))) (\<lambda>ty.
     let len = be_val (take 4 (drop 8 header)) :: u32 in
     rguard (unat len \<le> kMaxPayload) () (
     rbind (take_n (unat len)) (\<lambda>payload.
     rbind (take_n 4) (\<lambda>cb.
     rguard (be_val cb = crc32 payload) () (
     rret \<lparr>fr_type = ty, fr_flags = header ! 5, fr_payload = payload\<rparr>))))))))"

lemma type_of_code_code [simp]: "type_of_code (type_code t) = Some t"
  by (cases t) (simp_all add: type_of_code_def message_types_def)

text \<open>\<open>read_exact\<close> on a healthy connection takes from the stream.\<close>

lemma read_exact_take:
  assumes "recv_ok recv stream" "conn_valid c"
  shows "take_n n (stream (conn_world c)) = Inl e \<Longrightarrow> fst (read_exact recv n c) = None"
    and "take_n n (stream (conn_world c)) = Inr (b, s) \<Longrightarrow>
      \<exists>c'. read_exact recv n c = (Some b, c') \<and> conn_valid c' \<and> stream (conn_world c') = s"
proof -
  assume "take_n n (stream (conn_world c)) = Inl e"
  then have "length (stream (conn_world c)) < n" by (simp add: take_n_def split: if_splits)
  from read_loop_short[OF assms(1) this] show "fst (read_exact recv n c) = None"
    using assms(2) by (auto simp: read_exact_def split: prod.splits)
next
  assume "take_n n (stream (conn_world c)) = Inr (b, s)"
  then have bs: "n \<le> length (stream (conn_world c))" "b = take n (stream (conn_world c))" "s = drop n (stream (conn_world c))"
    by (auto simp: take_n_def split: if_splits)
  from read_loop_stream[OF assms(1) bs(1)] show
    "\<exists>c'. read_exact recv n c = (Some b, c') \<and> conn_valid c' \<and> stream (conn_world c') = s"
    using assms(2) bs(2,3) by (auto simp: read_exact_def)
qed

lemma read_exact_cases:
  assumes "recv_ok recv stream" "conn_valid c"
  obtains (short) c' e where "read_exact recv n c = (None, c')" "take_n n (stream (conn_world c)) = Inl e"
  | (full) b c' where "read_exact recv n c = (Some b, c')" "conn_valid c'"
      "take_n n (stream (conn_world c)) = Inr (b, stream (conn_world c'))"
proof (cases "take_n n (stream (conn_world c))")
  case (Inl e)
  then show ?thesis using read_exact_take(1)[OF assms Inl] short by (metis prod.collapse)
next
  case (Inr bs)
  then show ?thesis using read_exact_take(2)[OF assms, of n "fst bs" "snd bs"] full by (cases bs) auto
qed

definition frame_read_spec :: "('w \<Rightarrow> bytes) \<Rightarrow> 'w connection \<Rightarrow> frame option \<times> 'w connection \<Rightarrow> bool" where
  "frame_read_spec stream c r \<longleftrightarrow> (case parse_frame (stream (conn_world c)) of
     Inl _ \<Rightarrow> fst r = None
   | Inr (f, s) \<Rightarrow> fst r = Some f \<and> conn_valid (snd r) \<and> stream (conn_world (snd r)) = s)"

text \<open>The header fields accepted by the reader, and the payload length they announce.\<close>

definition header_fields :: "bytes \<Rightarrow> (message_type \<times> u32) option" where
  "header_fields header =
    (if be_val (take 4 header) \<noteq> kFrameMagic \<or> header ! 4 \<noteq> kFrameVersion then None
     else case type_of_code (be_val (take 2 (drop 6 header))) of None \<Rightarrow> None
     | Some ty \<Rightarrow> let len = be_val (take 4 (drop 8 header)) in
         if unat len > kMaxPayload then None else Some (ty, len))"

lemma frame_read_fields:
  "frame_read recv c = (case read_exact recv 12 c of (None, c1) \<Rightarrow> (None, c1)
     | (Some header, c1) \<Rightarrow> case header_fields header of None \<Rightarrow> (None, c1)
       | Some (ty, len) \<Rightarrow> case read_exact recv (unat len) c1 of (None, c2) \<Rightarrow> (None, c2)
         | (Some payload, c2) \<Rightarrow> case read_exact recv 4 c2 of (None, c3) \<Rightarrow> (None, c3)
           | (Some cb, c3) \<Rightarrow> if be_val cb \<noteq> crc32 payload then (None, c3)
             else (Some \<lparr>fr_type = ty, fr_flags = header ! 5, fr_payload = payload\<rparr>, c3))"
  by (auto simp: frame_read_def header_fields_def Let_def split: prod.split option.split)

lemma parse_frame_fields:
  "parse_frame = rbind (take_n 12) (\<lambda>header. renum () (header_fields header) (\<lambda>(ty, len).
     rbind (take_n (unat len)) (\<lambda>payload. rbind (take_n 4) (\<lambda>cb.
     rguard (be_val cb = crc32 payload) () (
     rret \<lparr>fr_type = ty, fr_flags = header ! 5, fr_payload = payload\<rparr>)))))"
proof -
  have "(\<lambda>header. rguard (be_val (take 4 header) = kFrameMagic) () (
     rguard (header ! 4 = kFrameVersion) () (
     renum () (type_of_code (be_val (take 2 (drop 6 header)))) (\<lambda>ty.
     let len = be_val (take 4 (drop 8 header)) :: u32 in
     rguard (unat len \<le> kMaxPayload) () (k header ty len))))) =
     (\<lambda>header. renum () (header_fields header) (\<lambda>(ty, len). k header ty len))"
    for k :: "bytes \<Rightarrow> message_type \<Rightarrow> u32 \<Rightarrow> (unit, frame) reader"
    by (auto simp: fun_eq_iff header_fields_def Let_def rguard_def renum_def split: option.split)
  then show ?thesis unfolding parse_frame_def by (rule arg_cong)
qed

lemma frame_read_refines:
  assumes "recv_ok recv stream" "conn_valid c"
  shows "frame_read_spec stream c (frame_read recv c)"
  using assms
proof (cases rule: read_exact_cases[where n = 12])
  case (full header c1)
  note h = full
  show ?thesis
  proof (cases "header_fields header")
    case None
    then show ?thesis using h by (simp add: frame_read_spec_def frame_read_fields parse_frame_fields rbind_def)
  next
    case (Some tl)
    obtain ty len where tl: "tl = (ty, len)" by (cases tl)
    note f = Some[unfolded tl]
    from assms(1) h(2) show ?thesis
    proof (cases rule: read_exact_cases[where n = "unat len"])
      case (full payload c2)
      note p = full
      from assms(1) p(2) show ?thesis
        by (cases rule: read_exact_cases[where n = 4])
          (use h f p in \<open>simp_all add: frame_read_spec_def frame_read_fields parse_frame_fields rbind_def rguard_def\<close>)
    qed (use h f in \<open>simp add: frame_read_spec_def frame_read_fields parse_frame_fields rbind_def\<close>)
  qed
qed (simp add: frame_read_spec_def frame_read_fields parse_frame_fields rbind_def)

section \<open>Round trip and corruption\<close>

lemma length_put [simp]: "length (put_u16 v) = 2" "length (put_u32 w) = 4"
  by (simp_all add: put_u16_def put_u32_def)

lemma length_frame_header [simp]: "length (frame_header f) = 12"
  by (simp add: frame_header_def)

lemma header_fields_header:
  assumes "length (fr_payload f) \<le> kMaxPayload"
  shows "header_fields (frame_header f) = Some (fr_type f, of_nat (length (fr_payload f)))"
    "frame_header f ! 5 = fr_flags f" "unat (of_nat (length (fr_payload f)) :: u32) = length (fr_payload f)"
proof -
  show u: "unat (of_nat (length (fr_payload f)) :: u32) = length (fr_payload f)"
    using assms by (simp add: unat_of_nat kMaxPayload_def)
  have d: "drop 6 (frame_header f) = put_u16 (type_code (fr_type f)) @ put_u32 (of_nat (length (fr_payload f)))"
    by (simp add: frame_header_def)
  have d8: "drop 8 (frame_header f) = put_u32 (of_nat (length (fr_payload f)))"
    by (simp add: frame_header_def)
  have n: "frame_header f ! 4 = kFrameVersion" "frame_header f ! 5 = fr_flags f"
    by (simp_all add: frame_header_def nth_append)
  have t: "take 4 (frame_header f) = put_u32 kFrameMagic" by (simp add: frame_header_def)
  show "frame_header f ! 5 = fr_flags f" by (rule n(2))
  show "header_fields (frame_header f) = Some (fr_type f, of_nat (length (fr_payload f)))"
    unfolding header_fields_def t d d8 n using assms u
    by (simp add: put_u32_def put_u16_def be_val_be_bytes_u32 be_val_be_bytes_u16 Let_def)
qed

lemma parse_frame_payload:
  assumes "length (fr_payload f) \<le> kMaxPayload" "length p = length (fr_payload f)"
  shows "parse_frame (frame_header f @ p @ put_u32 c @ s) =
    (if c = crc32 p then Inr (f\<lparr>fr_payload := p\<rparr>, s) else Inl ())"
  using header_fields_header[OF assms(1)] assms(2)
  by (simp add: parse_frame_fields rbind_def take_n_append rguard_def put_u32_def be_val_be_bytes_u32)

lemma parse_frame_bytes:
  assumes "length (fr_payload f) \<le> kMaxPayload"
  shows "parse_frame (frame_bytes f @ s) = Inr (f, s)"
  using parse_frame_payload[OF assms, of "fr_payload f"] by (simp add: frame_bytes_def frame_crc_def)

interpretation frame_codec: codec frame_bytes parse_frame "\<lambda>f. length (fr_payload f) \<le> kMaxPayload" "\<lambda>f. f"
  by unfold_locales (rule parse_frame_bytes)

lemma write_all_stream:
  assumes "send_ok send sent" "write_all send bs c = (True, c')"
  shows "sent (conn_world c') = sent (conn_world c) @ bs \<and> conn_valid c'"
  using assms(2) write_loop_stream[OF assms(1)]
  by (auto simp: write_all_def split: if_splits prod.splits)

lemma frame_write_bytes:
  assumes "send_ok send sent" "frame_write send f c = (True, c')"
  shows "sent (conn_world c') = sent (conn_world c) @ frame_bytes f \<and> length (fr_payload f) \<le> kMaxPayload"
  using assms(2)
  by (auto simp: frame_write_def frame_bytes_def Let_def split: if_splits prod.splits
      dest!: write_all_stream[OF assms(1)])

end
