(* ===== verification/Messages.thy ===== *)
theory Messages
  imports Wire Protocol
begin

text \<open>
  The message payloads of \<open>include/warmth/messages.hpp\<close>. The decoders cast an action byte without a
  check, so an action is kept as its underlying byte. Every pair of encoder and decoder satisfies
  the contract \<open>codec\<close>, with the decoder's own bounds on the lengths of vectors.
\<close>

section \<open>Payloads\<close>

definition kProtocolVersion :: u32 where
  "kProtocolVersion = 1"

record hello =
  h_protocol_version :: u32
  h_worker :: id128
  h_boot :: id128
  h_node :: id128
  h_epoch_guess :: u64
  h_backend :: string
  h_devices :: "string list"
  h_actions :: "u8 list"
  h_observed :: "warmth_object list"

record hello_ack =
  ha_accepted :: bool
  ha_reason :: string
  ha_epoch :: u64
  ha_warmth_gen :: u64
  ha_dep_gen :: u64
  ha_policy_gen :: u64

record report_payload =
  rp_boot :: id128
  rp_epoch :: u64
  rp_warmth_gen :: u64
  rp_dep_gen :: u64
  rp_objects :: "warmth_object list"

record warm_cmd =
  wc_object :: id128
  wc_action :: u8
  wc_attempt :: u64

record warm_topic =
  wt_epoch :: u64
  wt_warmth_gen :: u64
  wt_cmds :: "warm_cmd list"

record warm_result =
  wr_boot :: id128
  wr_epoch :: u64
  wr_warmth_gen :: u64
  wr_dep_gen :: u64
  wr_object :: id128
  wr_action :: u8
  wr_attempt :: u64
  wr_success :: bool
  wr_duration_ms :: double
  wr_bytes :: u64
  wr_error :: string

record error_payload =
  ep_message :: string

section \<open>Encoders\<close>

text \<open>A vector: its length, then its items.\<close>

definition put_vec :: "('a \<Rightarrow> bytes) \<Rightarrow> 'a list \<Rightarrow> bytes" where
  "put_vec enc xs = put_u32 (of_nat (length xs)) @ concat (map enc xs)"

definition put_flag :: "bool \<Rightarrow> bytes" where
  "put_flag b = put_u8 (if b then 1 else 0)"

definition encode_hello :: "hello \<Rightarrow> bytes" where
  "encode_hello h = put_u32 (h_protocol_version h) @
     put_id (h_worker h) @ put_id (h_boot h) @ put_id (h_node h) @
     put_u64 (h_epoch_guess h) @ put_str (h_backend h) @
     put_vec put_str (h_devices h) @ put_vec put_u8 (h_actions h) @ put_vec encode_object (h_observed h)"

definition encode_hello_ack :: "hello_ack \<Rightarrow> bytes" where
  "encode_hello_ack a = put_flag (ha_accepted a) @ put_str (ha_reason a) @
     put_u64 (ha_epoch a) @ put_u64 (ha_warmth_gen a) @ put_u64 (ha_dep_gen a) @ put_u64 (ha_policy_gen a)"

definition encode_report :: "report_payload \<Rightarrow> bytes" where
  "encode_report p = put_id (rp_boot p) @ put_u64 (rp_epoch p) @ put_u64 (rp_warmth_gen p) @
     put_u64 (rp_dep_gen p) @ put_vec encode_object (rp_objects p)"

definition encode_cmd :: "warm_cmd \<Rightarrow> bytes" where
  "encode_cmd c = put_id (wc_object c) @ put_u8 (wc_action c) @ put_u64 (wc_attempt c)"

definition encode_warm_topic :: "warm_topic \<Rightarrow> bytes" where
  "encode_warm_topic t = put_u64 (wt_epoch t) @ put_u64 (wt_warmth_gen t) @ put_vec encode_cmd (wt_cmds t)"

definition encode_warm_result :: "warm_result \<Rightarrow> bytes" where
  "encode_warm_result r = put_id (wr_boot r) @ put_u64 (wr_epoch r) @ put_u64 (wr_warmth_gen r) @
     put_u64 (wr_dep_gen r) @ put_id (wr_object r) @ put_u8 (wr_action r) @ put_u64 (wr_attempt r) @
     put_flag (wr_success r) @ put_u64 (wr_duration_ms r) @ put_u64 (wr_bytes r) @ put_str (wr_error r)"

definition encode_error :: "error_payload \<Rightarrow> bytes" where
  "encode_error e = put_str (ep_message e)"

section \<open>Decoders\<close>

text \<open>A vector of at most \<open>m\<close> items.\<close>

definition get_vec :: "nat \<Rightarrow> (unit, 'a) reader \<Rightarrow> (unit, 'a list) reader" where
  "get_vec m dec = rbind get_u32 (\<lambda>n. rguard (unat n \<le> m) () (rtimes (unat n) dec))"

definition decode_hello :: "(unit, hello) reader" where
  "decode_hello =
     rbind get_u32 (\<lambda>version. rbind get_id (\<lambda>worker. rbind get_id (\<lambda>boot. rbind get_id (\<lambda>node.
     rbind get_u64 (\<lambda>epoch. rbind get_str (\<lambda>backend.
     rbind (get_vec 4096 get_str) (\<lambda>devices.
     rbind (get_vec 64 get_u8) (\<lambda>actions.
     rbind (get_vec 4096 decode_object) (\<lambda>observed.
     rret \<lparr>h_protocol_version = version, h_worker = worker, h_boot = boot, h_node = node,
       h_epoch_guess = epoch, h_backend = backend, h_devices = devices, h_actions = actions,
       h_observed = observed\<rparr>)))))))))"

definition decode_hello_ack :: "(unit, hello_ack) reader" where
  "decode_hello_ack =
     rbind get_u8 (\<lambda>acc. rbind get_str (\<lambda>reason.
     rbind get_u64 (\<lambda>epoch. rbind get_u64 (\<lambda>wg. rbind get_u64 (\<lambda>dg. rbind get_u64 (\<lambda>pg.
     rret \<lparr>ha_accepted = (acc \<noteq> 0), ha_reason = reason, ha_epoch = epoch, ha_warmth_gen = wg,
       ha_dep_gen = dg, ha_policy_gen = pg\<rparr>))))))"

definition decode_report :: "(unit, report_payload) reader" where
  "decode_report =
     rbind get_id (\<lambda>boot. rbind get_u64 (\<lambda>epoch. rbind get_u64 (\<lambda>wg. rbind get_u64 (\<lambda>dg.
     rbind (get_vec 8192 decode_object) (\<lambda>objs.
     rret \<lparr>rp_boot = boot, rp_epoch = epoch, rp_warmth_gen = wg, rp_dep_gen = dg, rp_objects = objs\<rparr>)))))"

definition decode_cmd :: "(unit, warm_cmd) reader" where
  "decode_cmd = rbind get_id (\<lambda>object. rbind get_u8 (\<lambda>act. rbind get_u64 (\<lambda>attempt.
     rret \<lparr>wc_object = object, wc_action = act, wc_attempt = attempt\<rparr>)))"

definition decode_warm_topic :: "(unit, warm_topic) reader" where
  "decode_warm_topic = rbind get_u64 (\<lambda>epoch. rbind get_u64 (\<lambda>wg.
     rbind (get_vec 4096 decode_cmd) (\<lambda>cmds.
     rret \<lparr>wt_epoch = epoch, wt_warmth_gen = wg, wt_cmds = cmds\<rparr>)))"

definition decode_warm_result :: "(unit, warm_result) reader" where
  "decode_warm_result =
     rbind get_id (\<lambda>boot. rbind get_u64 (\<lambda>epoch. rbind get_u64 (\<lambda>wg. rbind get_u64 (\<lambda>dg.
     rbind get_id (\<lambda>object. rbind get_u8 (\<lambda>act. rbind get_u64 (\<lambda>attempt.
     rbind get_u8 (\<lambda>ok. rbind get_u64 (\<lambda>duration. rbind get_u64 (\<lambda>bs. rbind get_str (\<lambda>err.
     rret \<lparr>wr_boot = boot, wr_epoch = epoch, wr_warmth_gen = wg, wr_dep_gen = dg, wr_object = object,
       wr_action = act, wr_attempt = attempt, wr_success = (ok \<noteq> 0), wr_duration_ms = duration,
       wr_bytes = bs, wr_error = err\<rparr>)))))))))))"

definition decode_error :: "(unit, error_payload) reader" where
  "decode_error = rbind get_str (\<lambda>m. rret \<lparr>ep_message = m\<rparr>)"

section \<open>Round trips\<close>

context codec
begin

lemma get_vec_put_vec:
  assumes "\<forall>x \<in> set xs. wf x" "length xs \<le> m" "m < 2 ^ 32"
  shows "rbind (label e get_u32) (\<lambda>n. rguard (unat n \<le> m) e (rtimes (unat n) dec)) (put_vec enc xs @ s) = Inr (map nf xs, s)"
proof -
  have "unat (of_nat (length xs) :: u32) = length xs" using assms(2,3) by (simp add: unat_of_nat)
  then show ?thesis using rtimes_enc[OF assms(1)] assms(2) by (simp add: put_vec_def rbind_def label_def get_u32_put)
qed

end

lemma get_flag_byte [codec]: "get_u8 (put_flag b @ s) = Inr (if b then 1 else 0, s)"
  by (simp add: put_flag_def get_u8_put)

lemma decode_cmd_encode: "decode_cmd (encode_cmd c @ s) = Inr (c, s)"
  by (simp add: decode_cmd_def encode_cmd_def codec run_codec)

interpretation cmd_codec: codec encode_cmd decode_cmd "\<lambda>_. True" "\<lambda>c. c"
  by unfold_locales (rule decode_cmd_encode)

definition hello_ok :: "hello \<Rightarrow> bool" where
  "hello_ok h \<longleftrightarrow> length (h_backend h) < 2 ^ 32 \<and> length (h_devices h) \<le> 4096 \<and> length (h_actions h) \<le> 64 \<and>
     length (h_observed h) \<le> 4096 \<and> (\<forall>d \<in> set (h_devices h). length d < 2 ^ 32) \<and>
     (\<forall>o' \<in> set (h_observed h). obj_wire_ok o')"

definition hello_nf :: "hello \<Rightarrow> hello" where
  "hello_nf h = h\<lparr>h_observed := map obj_nf (h_observed h)\<rparr>"

lemmas vec_codec [codec] =
  str_codec.get_vec_put_vec[where e = "()", unfolded label_unit, folded get_vec_def, where m = 4096, simplified]
  u8_codec.get_vec_put_vec[where e = "()", unfolded label_unit, folded get_vec_def, where m = 64, simplified]
  object_codec.get_vec_put_vec[where e = "()", unfolded label_unit, folded get_vec_def, where m = 4096, simplified]
  object_codec.get_vec_put_vec[where e = "()", unfolded label_unit, folded get_vec_def, where m = 8192, simplified]
  cmd_codec.get_vec_put_vec[where e = "()", unfolded label_unit, folded get_vec_def, where m = 4096, simplified]

lemma decode_hello_encode: "hello_ok h \<Longrightarrow> decode_hello (encode_hello h @ s) = Inr (hello_nf h, s)"
  by (simp add: hello_ok_def hello_nf_def decode_hello_def encode_hello_def codec run_codec)

interpretation hello_codec: codec encode_hello decode_hello hello_ok hello_nf
  by unfold_locales (rule decode_hello_encode)

interpretation hello_ack_codec: codec encode_hello_ack decode_hello_ack "\<lambda>a. length (ha_reason a) < 2 ^ 32" "\<lambda>a. a"
  by unfold_locales (simp add: decode_hello_ack_def encode_hello_ack_def codec run_codec)

definition report_ok :: "report_payload \<Rightarrow> bool" where
  "report_ok p \<longleftrightarrow> length (rp_objects p) \<le> 8192 \<and> (\<forall>o' \<in> set (rp_objects p). obj_wire_ok o')"

definition report_nf :: "report_payload \<Rightarrow> report_payload" where
  "report_nf p = p\<lparr>rp_objects := map obj_nf (rp_objects p)\<rparr>"

interpretation report_codec: codec encode_report decode_report report_ok report_nf
  by unfold_locales (simp add: report_ok_def report_nf_def decode_report_def encode_report_def codec run_codec)

interpretation warm_topic_codec: codec encode_warm_topic decode_warm_topic "\<lambda>t. length (wt_cmds t) \<le> 4096" "\<lambda>t. t"
  by unfold_locales (simp add: decode_warm_topic_def encode_warm_topic_def codec run_codec)

interpretation warm_result_codec: codec encode_warm_result decode_warm_result "\<lambda>r. length (wr_error r) < 2 ^ 32" "\<lambda>r. r"
  by unfold_locales (simp add: decode_warm_result_def encode_warm_result_def codec run_codec)

interpretation error_codec: codec encode_error decode_error "\<lambda>e. length (ep_message e) < 2 ^ 32" "\<lambda>e. e"
  by unfold_locales (simp add: decode_error_def encode_error_def codec run_codec)

end
