(* ===== verification/Coordinator.thy ===== *)
theory Coordinator
  imports Fabric Messages
begin

text \<open>
  The authority of \<open>include/warmth/coordinator.hpp\<close> and \<open>src/coordinator.cpp\<close>. A \<open>ConnState\<close> is shared
  between its connection thread and the worker registry, so connections live in a store and the
  registry maps worker ids to connection numbers. Every handler does its metadata work under
  \<open>mutex_\<close> and is one atomic step; the frames it sends are returned. \<open>clock k\<close> is the reading of the
  \<open>k\<close>-th call of \<open>now_ms\<close> in the handler. \<open>issue_warm\<close> sends outside the lock and rolls back when
  sending fails, so it is two steps.
\<close>

section \<open>State\<close>

record conn_state =
  cn_id :: id128
  cn_boot :: id128
  cn_node :: id128
  cn_registered :: bool
  cn_backend :: string

definition new_conn :: conn_state where
  "new_conn = \<lparr>cn_id = id_default, cn_boot = id_default, cn_node = id_default, cn_registered = False, cn_backend = []\<rparr>"

record attempt_info =
  at_object :: id128
  at_worker :: id128
  at_reservation :: u64
  at_op_reservation :: u64

text \<open>\<open>std::set\<close>: ascending and without duplicates.\<close>

definition set_insert :: "'a::linorder \<Rightarrow> 'a list \<Rightarrow> 'a list" where
  "set_insert x xs = (if x \<in> set xs then xs else insort x xs)"

record coordinator =
  co_epoch :: generation
  co_warmth_gen :: u64
  co_dep_gen :: u64
  co_policy_gen :: generation
  co_policy :: warmth_policy
  co_objects :: "(id128, warmth_object) std_map"
  co_conns :: "(nat, conn_state) std_map"
  co_workers :: "(id128, nat) std_map"
  co_last_boot :: "(id128, id128) std_map"
  co_worker_objects :: "(id128, id128 list) std_map"
  co_budget :: budget_tracker
  co_in_flight :: "(u64, attempt_info) std_map"
  co_in_flight_count :: u64
  co_attempt_counter :: u64

definition new_coordinator :: coordinator where
  "new_coordinator = \<lparr>co_epoch = gen_initial, co_warmth_gen = 0, co_dep_gen = 0, co_policy_gen = 1,
     co_policy = policy_defaults 1, co_objects = [], co_conns = [], co_workers = [], co_last_boot = [],
     co_worker_objects = [], co_budget = new_tracker budget_limits_default, co_in_flight = [],
     co_in_flight_count = 0, co_attempt_counter = 1\<rparr>"

text \<open>The connection behind a number; a connection exists from \<open>on_connection\<close> on.\<close>

definition conn_of :: "nat \<Rightarrow> coordinator \<Rightarrow> conn_state" where
  "conn_of cid c = (case map_find cid (co_conns c) of Some cs \<Rightarrow> cs | None \<Rightarrow> new_conn)"

definition on_connection :: "nat \<Rightarrow> coordinator \<Rightarrow> coordinator" where
  "on_connection cid c = c\<lparr>co_conns := map_set cid new_conn (co_conns c)\<rparr>"

text \<open>A frame sent on a connection.\<close>

type_synonym sent_frame = "nat \<times> message_type \<times> bytes"

section \<open>Generations\<close>

definition co_bump_dependency_generation :: "coordinator \<Rightarrow> coordinator" where
  "co_bump_dependency_generation c = c\<lparr>co_dep_gen := co_dep_gen c + 1\<rparr>"

definition co_bump_warmth_generation :: "coordinator \<Rightarrow> coordinator" where
  "co_bump_warmth_generation c = c\<lparr>co_warmth_gen := co_warmth_gen c + 1\<rparr>"

text \<open>Device-local dimensions that do not survive a change of authority or of a worker.\<close>

definition device_dims :: "dimension_index list" where
  "device_dims = [CudaContextReadiness, KernelReadiness, GraphReadiness, AllocatorReadiness]"

text \<open>Loss of authority over an object: a live or stale one is invalidated.\<close>

definition lose_authority :: "string \<Rightarrow> string \<Rightarrow> warmth_object \<Rightarrow> warmth_object" where
  "lose_authority why reason o' =
    (let o1 = (if is_live_warm_state (wo_state o') \<or> wo_state o' = STALE then try_transition INVALIDATED why o' else o')
     in drop_dims device_dims D_COLD (o1\<lparr>wo_invalidation_reason := Some reason\<rparr>))"

definition roll_epoch :: "coordinator \<Rightarrow> coordinator" where
  "roll_epoch c = c
     \<lparr>co_epoch := gen_next (co_epoch c),
      co_warmth_gen := co_warmth_gen c + 1,
      co_dep_gen := co_dep_gen c + 1,
      co_objects := map_update_all (lose_authority ''authority roll'' ''coordinator_epoch_rolled'') (co_objects c),
      co_budget := fold (\<lambda>(a, info). release_pair (at_reservation info) (at_op_reservation info))
         (co_in_flight c) (co_budget c),
      co_in_flight_count := (if co_in_flight c \<noteq> [] then 0 else co_in_flight_count c),
      co_in_flight := []\<rparr>"

section \<open>Registration and reports\<close>

definition reach_warm :: "string \<Rightarrow> warmth_object \<Rightarrow> warmth_object" where
  "reach_warm why o' =
    (if wo_state o' = WARM \<or> wo_state o' = HOT then o'
     else let (ok, o1) = transition PREPARING why o';
              o2 = (if ok then o1 else try_transition PREPARING why (try_transition COLD why o1))
          in try_transition WARM why o2)"

definition worker_objects_insert :: "id128 \<Rightarrow> id128 \<Rightarrow> coordinator \<Rightarrow> coordinator" where
  "worker_objects_insert w i c = c\<lparr>co_worker_objects :=
     map_set w (set_insert i (case map_find w (co_worker_objects c) of Some s \<Rightarrow> s | None \<Rightarrow> [])) (co_worker_objects c)\<rparr>"

text \<open>A worker's object the coordinator does not know yet.\<close>

definition observed_copy :: "warmth_object \<Rightarrow> warmth_object" where
  "observed_copy o' =
    (let copy = (if is_execution_ready (wo_state o') then try_transition DISCOVERED ''observed-not-live'' o' else o')
     in copy\<lparr>wo_provenance := P_REPORTED\<rparr>)"

definition hello_observe :: "id128 \<Rightarrow> warmth_object \<Rightarrow> coordinator \<Rightarrow> coordinator" where
  "hello_observe w o' c = worker_objects_insert w (wo_id o')
     (case map_find (wo_id o') (co_objects c) of
        None \<Rightarrow> c\<lparr>co_objects := map_set (wo_id o') (observed_copy o') (co_objects c)\<rparr>
      | Some _ \<Rightarrow> c)"

definition report_merge :: "timestamp \<Rightarrow> warmth_object \<Rightarrow> warmth_object \<Rightarrow> warmth_object" where
  "report_merge now o' cur =
    (let cur1 = cur\<lparr>wo_dims := wo_dims o', wo_last_used := now, wo_observed_ttr_ms := wo_observed_ttr_ms o',
           wo_residency := wo_residency o', wo_provenance := P_REPORTED\<rparr>
     in if is_execution_ready (wo_state o') \<and> \<not> is_execution_ready (wo_state cur1)
        then try_transition DISCOVERED ''observed-not-live'' cur1 else cur1)"

definition report_observe :: "id128 \<Rightarrow> timestamp \<Rightarrow> warmth_object \<Rightarrow> coordinator \<Rightarrow> coordinator" where
  "report_observe w now o' c = worker_objects_insert w (wo_id o')
     (case map_find (wo_id o') (co_objects c) of
        None \<Rightarrow> c\<lparr>co_objects := map_set (wo_id o') (observed_copy o') (co_objects c)\<rparr>
      | Some cur \<Rightarrow> c\<lparr>co_objects := map_set (wo_id o') (report_merge now o' cur) (co_objects c)\<rparr>)"

text \<open>An update of the objects a worker is responsible for, skipping unknown ids; \<open>k\<close> counts them.\<close>

definition on_worker_objects :: "(nat \<Rightarrow> warmth_object \<Rightarrow> warmth_object) \<Rightarrow> id128 list \<Rightarrow> coordinator \<Rightarrow> coordinator" where
  "on_worker_objects g ids c = fold (\<lambda>(k, i) c. c\<lparr>co_objects := map_modify i (g k) (co_objects c)\<rparr>) (enumerate 0 ids) c"

definition invalidate_worker_objects_locked :: "id128 \<Rightarrow> coordinator \<Rightarrow> coordinator" where
  "invalidate_worker_objects_locked w c =
    (case map_find w (co_worker_objects c) of None \<Rightarrow> c
     | Some ids \<Rightarrow>
       (on_worker_objects (\<lambda>_. lose_authority ''worker_boot_changed'' ''worker_boot_changed'') ids c)
         \<lparr>co_worker_objects := map_set w [] (co_worker_objects c)\<rparr>)"

definition hello_ack_default :: hello_ack where
  "hello_ack_default = \<lparr>ha_accepted = False, ha_reason = [], ha_epoch = 0, ha_warmth_gen = 0, ha_dep_gen = 0, ha_policy_gen = 0\<rparr>"

text \<open>The locked section of \<open>HELLO\<close>: the verdict and the new state.\<close>

definition hello_register :: "nat \<Rightarrow> hello \<Rightarrow> coordinator \<Rightarrow> (bool \<times> string) \<times> coordinator" where
  "hello_register cid h c =
    (if (case map_find (h_worker h) (co_workers c) of Some other \<Rightarrow> cn_boot (conn_of other c) \<noteq> h_boot h | None \<Rightarrow> False)
     then ((False, ''stale boot (worker already registered)''), c)
     else
       let c1 = (case map_find (h_worker h) (co_last_boot c) of
                   Some b \<Rightarrow> if b \<noteq> h_boot h then invalidate_worker_objects_locked (h_worker h) c else c
                 | None \<Rightarrow> c);
           c2 = c1\<lparr>co_last_boot := map_set (h_worker h) (h_boot h) (co_last_boot c1),
                  co_conns := map_set cid \<lparr>cn_id = h_worker h, cn_boot = h_boot h, cn_node = h_node h,
                     cn_registered = True, cn_backend = h_backend h\<rparr> (co_conns c1),
                  co_workers := map_set (h_worker h) cid (co_workers c1)\<rparr>
       in ((True, []), fold (hello_observe (h_worker h)) (h_observed h) c2))"

definition handle_hello :: "nat \<Rightarrow> bytes \<Rightarrow> coordinator \<Rightarrow> sent_frame list \<times> coordinator" where
  "handle_hello cid payload c =
    (case decode_hello payload of Inl _ \<Rightarrow> ([(cid, MT_ERROR, [])], c)
     | Inr (h, rest) \<Rightarrow>
       if h_protocol_version h \<noteq> kProtocolVersion then
         ([(cid, MT_HELLO_ACK, encode_hello_ack (hello_ack_default\<lparr>ha_reason := ''protocol version mismatch''\<rparr>))], c)
       else case hello_register cid h c of ((ok, reason), c') \<Rightarrow>
         ([(cid, MT_HELLO_ACK, encode_hello_ack \<lparr>ha_accepted = ok, ha_reason = reason, ha_epoch = co_epoch c',
              ha_warmth_gen = co_warmth_gen c', ha_dep_gen = co_dep_gen c', ha_policy_gen = co_policy_gen c'\<rparr>)], c'))"

text \<open>The authority test of \<open>REPORT\<close> and \<open>WARM_RESULT\<close>.\<close>

definition authority_ok :: "nat \<Rightarrow> id128 \<Rightarrow> u64 \<Rightarrow> u64 \<Rightarrow> u64 \<Rightarrow> coordinator \<Rightarrow> bool" where
  "authority_ok cid boot epoch wg dg c \<longleftrightarrow> cn_registered (conn_of cid c) \<and> cn_boot (conn_of cid c) = boot
     \<and> epoch = co_epoch c \<and> wg = co_warmth_gen c \<and> dg = co_dep_gen c"

definition handle_report :: "nat \<Rightarrow> (nat \<Rightarrow> timestamp) \<Rightarrow> bytes \<Rightarrow> coordinator \<Rightarrow> sent_frame list \<times> coordinator" where
  "handle_report cid clock payload c =
    (case decode_report payload of Inl _ \<Rightarrow> ([], c)
     | Inr (p, rest) \<Rightarrow>
       if \<not> authority_ok cid (rp_boot p) (rp_epoch p) (rp_warmth_gen p) (rp_dep_gen p) c
       then ([(cid, MT_ERROR, [])], c)
       else ([], fold (\<lambda>(k, o'). report_observe (cn_id (conn_of cid c)) (clock k) o') (enumerate 0 (rp_objects p)) c))"

section \<open>Results of warming\<close>

definition complete_warm :: "warm_result \<Rightarrow> u64 \<Rightarrow> (nat \<Rightarrow> timestamp) \<Rightarrow> warmth_object \<Rightarrow> warmth_object" where
  "complete_warm res wg clock o' =
     record_warm (wr_duration_ms res) (wr_bytes res) (clock 0) (clock 1)
       ((reach_warm ''warm_completed'' o')\<lparr>wo_warmth_gen := wg\<rparr>)"

text \<open>What a result does to the object: a new one for an unknown id, otherwise in place.\<close>

definition result_object :: "warm_result \<Rightarrow> u64 \<Rightarrow> (nat \<Rightarrow> timestamp) \<Rightarrow> warmth_object option \<Rightarrow> warmth_object option" where
  "result_object res wg clock oo =
    (if wr_success res then
       Some (case oo of
         None \<Rightarrow> complete_warm res wg clock
           (new_object (wr_object res) APPLICATION_DEFINED id_default id_default ''cuda:0'' ''cuda'')
       | Some o' \<Rightarrow> complete_warm res wg clock
           (if wo_state o' = INVALIDATED
            then (try_transition DISCOVERED ''invalidated'' o')\<lparr>wo_invalidation_reason := None\<rparr> else o'))
     else map_option (try_transition FAILED (wr_error res)) oo)"

definition settle_attempt :: "u64 \<Rightarrow> attempt_info \<Rightarrow> coordinator \<Rightarrow> coordinator" where
  "settle_attempt a info c = c
     \<lparr>co_budget := release_pair (at_reservation info) (at_op_reservation info) (co_budget c),
      co_in_flight := map_erase a (co_in_flight c),
      co_in_flight_count := (if co_in_flight_count c > 0 then co_in_flight_count c - 1 else co_in_flight_count c)\<rparr>"

definition handle_warm_result :: "nat \<Rightarrow> (nat \<Rightarrow> timestamp) \<Rightarrow> bytes \<Rightarrow> coordinator \<Rightarrow> sent_frame list \<times> coordinator" where
  "handle_warm_result cid clock payload c =
    (case decode_warm_result payload of Inl _ \<Rightarrow> ([], c)
     | Inr (res, rest) \<Rightarrow>
       if \<not> authority_ok cid (wr_boot res) (wr_epoch res) (wr_warmth_gen res) (wr_dep_gen res) c then ([], c)
       else case map_find (wr_attempt res) (co_in_flight c) of None \<Rightarrow> ([], c)
       | Some info \<Rightarrow>
         if at_worker info \<noteq> cn_id (conn_of cid c) \<or> at_object info \<noteq> wr_object res then ([], c)
         else
           let c1 = (case result_object res (co_warmth_gen c) clock (map_find (wr_object res) (co_objects c)) of
                       Some o' \<Rightarrow> c\<lparr>co_objects := map_set (wr_object res) o' (co_objects c)\<rparr> | None \<Rightarrow> c);
               c2 = (if wr_success res then worker_objects_insert (cn_id (conn_of cid c)) (wr_object res) c1 else c1)
           in ([], settle_attempt (wr_attempt res) info c2))"

definition handle_frame :: "nat \<Rightarrow> (nat \<Rightarrow> timestamp) \<Rightarrow> frame \<Rightarrow> coordinator \<Rightarrow> sent_frame list \<times> coordinator" where
  "handle_frame cid clock f c = (case fr_type f of
       MT_HELLO \<Rightarrow> handle_hello cid (fr_payload f) c
     | MT_REPORT \<Rightarrow> handle_report cid clock (fr_payload f) c
     | MT_WARM_RESULT \<Rightarrow> handle_warm_result cid clock (fr_payload f) c
     | MT_PING \<Rightarrow> ([(cid, MT_PONG, [])], c)
     | MT_SHUTDOWN \<Rightarrow> ([], c)
     | _ \<Rightarrow> ([], c))"

section \<open>Disconnection\<close>

definition disconnect_object :: "decay_policy \<Rightarrow> timestamp \<Rightarrow> warmth_object \<Rightarrow> warmth_object" where
  "disconnect_object p now o' =
    (let res = decay_object o' p now False False False True;
         o1 = (if dr_changed res then try_transition (dr_state res) ''worker_disconnect'' o' else o')
     in drop_dims device_dims D_SUSPECT o1)"

definition on_disconnect :: "nat \<Rightarrow> (nat \<Rightarrow> timestamp) \<Rightarrow> coordinator \<Rightarrow> coordinator" where
  "on_disconnect cid clock c =
    (let cs = conn_of cid c in
     if \<not> cn_registered cs then c
     else
       let c1 = (if map_find (cn_id cs) (co_workers c) = Some cid
                 then c\<lparr>co_workers := map_erase (cn_id cs) (co_workers c)\<rparr> else c)
       in case map_find (cn_id cs) (co_worker_objects c1) of None \<Rightarrow> c1
          | Some ids \<Rightarrow> on_worker_objects (\<lambda>k. disconnect_object (pol_decay (co_policy c1)) (clock k)) ids c1)"

section \<open>Issuing work\<close>

definition pick_worker :: "id128 option \<Rightarrow> coordinator \<Rightarrow> nat option" where
  "pick_worker preferred c =
    (if co_workers c = [] then None
     else case (case preferred of Some w \<Rightarrow> map_find w (co_workers c) | None \<Rightarrow> Some (snd (hd (co_workers c)))) of
       None \<Rightarrow> None
     | Some cid \<Rightarrow> if cn_registered (conn_of cid c) then Some cid else None)"

definition warm_topic_for :: "id128 \<Rightarrow> warmth_action \<Rightarrow> u64 \<Rightarrow> coordinator \<Rightarrow> warm_topic" where
  "warm_topic_for object action attempt c = \<lparr>wt_epoch = co_epoch c, wt_warmth_gen = co_warmth_gen c,
     wt_cmds = [\<lparr>wc_object = object, wc_action = action_code action, wc_attempt = attempt\<rparr>]\<rparr>"

text \<open>The first locked section: the attempt and the frame to send, or \<open>None\<close> when refused.\<close>

definition issue_begin ::
  "id128 \<Rightarrow> warmth_action \<Rightarrow> id128 option \<Rightarrow> coordinator \<Rightarrow> (u64 \<times> sent_frame) option \<times> coordinator" where
  "issue_begin object action preferred c =
    (case pick_worker preferred c of None \<Rightarrow> (None, c)
     | Some target \<Rightarrow>
       case reserve BK_DEVICE_MEMORY kDefaultWarmBytes ''warm'' (co_budget c) of (r, e1, b1) \<Rightarrow>
       if r = 0 then (None, c\<lparr>co_budget := b1\<rparr>)
       else case reserve BK_CONCURRENT_WARMING_OPS 1 ''warm'' b1 of (op, e2, b2) \<Rightarrow>
         let a = co_attempt_counter c;
             c' = c\<lparr>co_budget := b2, co_attempt_counter := a + 1,
                co_in_flight := map_set a \<lparr>at_object = object, at_worker = cn_id (conn_of target c),
                  at_reservation = r, at_op_reservation = op\<rparr> (co_in_flight c),
                co_in_flight_count := co_in_flight_count c + 1\<rparr>
         in (Some (a, (target, MT_WARM_TOPIC, encode_warm_topic (warm_topic_for object action a c'))), c'))"

text \<open>The second locked section, when the frame could not be sent.\<close>

definition issue_rollback :: "u64 \<Rightarrow> coordinator \<Rightarrow> coordinator" where
  "issue_rollback a c = (case map_find a (co_in_flight c) of None \<Rightarrow> c | Some info \<Rightarrow> settle_attempt a info c)"

definition issue_warm ::
  "(coordinator \<Rightarrow> coordinator) \<Rightarrow> bool \<Rightarrow> id128 \<Rightarrow> warmth_action \<Rightarrow> id128 option \<Rightarrow> coordinator \<Rightarrow> bool \<times> coordinator" where
  "issue_warm env sent object action preferred c =
    (case issue_begin object action preferred c of (None, c1) \<Rightarrow> (False, c1)
     | (Some (a, fr), c1) \<Rightarrow> if sent then (True, env c1) else (False, issue_rollback a (env c1)))"

text \<open>The predicate \<open>wait_until_settled\<close> waits for.\<close>

definition settled :: "coordinator \<Rightarrow> bool" where
  "settled c \<longleftrightarrow> co_in_flight_count c = 0"

section \<open>Views\<close>

definition co_object_count :: "coordinator \<Rightarrow> nat" where
  "co_object_count c = length (co_objects c)"

definition co_object_list :: "coordinator \<Rightarrow> warmth_object list" where
  "co_object_list c = map snd (co_objects c)"

definition co_current_epoch :: "coordinator \<Rightarrow> generation" where
  "co_current_epoch c = co_epoch c"

definition co_warmth_generation :: "coordinator \<Rightarrow> u64" where
  "co_warmth_generation c = co_warmth_gen c"

definition co_dependency_generation :: "coordinator \<Rightarrow> u64" where
  "co_dependency_generation c = co_dep_gen c"

definition outstanding_budget :: "coordinator \<Rightarrow> nat" where
  "outstanding_budget c = outstanding (co_budget c)"

definition in_flight_attempts :: "coordinator \<Rightarrow> nat" where
  "in_flight_attempts c = length (co_in_flight c)"

definition registered_workers :: "coordinator \<Rightarrow> nat" where
  "registered_workers c = length (co_workers c)"

definition co_balanced :: "coordinator \<Rightarrow> bool" where
  "co_balanced c \<longleftrightarrow> outstanding (co_budget c) = 0"

definition find_object :: "id128 \<Rightarrow> coordinator \<Rightarrow> warmth_object option" where
  "find_object i c = map_find i (co_objects c)"

section \<open>Object-level facts\<close>

lemma reach_warm_state: "wo_state (reach_warm why o') = (if wo_state o' = HOT then HOT else WARM)"
  by (cases "wo_state o'") (auto simp: reach_warm_def transition_def transition_allowed_def Let_def)

lemma wo_id_ops [simp, frame]:
  "wo_id (reach_warm why o') = wo_id o'" "wo_id (lose_authority why r o') = wo_id o'"
  "wo_id (observed_copy o') = wo_id o'" "wo_id (report_merge now x o') = wo_id o'"
  "wo_id (complete_warm res wg clock o') = wo_id o'" "wo_id (disconnect_object p t o') = wo_id o'"
  by (auto simp: reach_warm_def lose_authority_def observed_copy_def report_merge_def complete_warm_def
      record_warm_def disconnect_object_def transition_def Let_def)

lemma lose_authority_state:
  "wo_state (lose_authority why r o') = (if wo_state o' \<in> {PARTIALLY_WARM, WARM, HOT, STALE} then INVALIDATED else wo_state o')"
  by (cases "wo_state o'") (simp_all add: lose_authority_def is_live_warm_state_def transition_allowed_def Let_def)

lemma observed_copy_state: "wo_state (observed_copy o') = (if wo_state o' = WARM then DISCOVERED else wo_state o')"
  by (cases "wo_state o'") (simp_all add: observed_copy_def transition_allowed_def Let_def)

lemma report_merge_state: "wo_state (report_merge now o' cur) \<in> {wo_state cur, DISCOVERED}"
  by (auto simp: report_merge_def Let_def)

section \<open>Frames of the state\<close>

text \<open>The part of the state that accounts for attempts.\<close>

definition co_core :: "coordinator \<Rightarrow> (u64, attempt_info) std_map \<times> u64 \<times> u64 \<times> budget_tracker" where
  "co_core c = (co_in_flight c, co_in_flight_count c, co_attempt_counter c, co_budget c)"

definition objects_ok :: "coordinator \<Rightarrow> bool" where
  "objects_ok c \<longleftrightarrow> map_wf (co_objects c) \<and> keyed (co_objects c)"

lemma keyed_modify: "keyed m \<Longrightarrow> (\<And>o'. wo_id (g o') = wo_id o') \<Longrightarrow> keyed (map_modify i g m)"
  using keyed_find[of m i] by (auto simp: map_modify_def keyed_set split: option.splits)

text \<open>An update of the coordinator that leaves the accounting alone and the objects consistent.\<close>

definition keeps :: "(coordinator \<Rightarrow> coordinator) \<Rightarrow> bool" where
  "keeps g \<longleftrightarrow> (\<forall>c. co_core (g c) = co_core c \<and> (objects_ok c \<longrightarrow> objects_ok (g c)))"

lemma keepsI: "(\<And>c. co_core (g c) = co_core c) \<Longrightarrow> (\<And>c. objects_ok c \<Longrightarrow> objects_ok (g c)) \<Longrightarrow> keeps g"
  by (simp add: keeps_def)

lemma keeps_comp: "keeps g \<Longrightarrow> keeps h \<Longrightarrow> keeps (\<lambda>c. g (h c))"
  by (simp add: keeps_def)

lemma keeps_cond: "(P \<Longrightarrow> keeps g) \<Longrightarrow> (\<not> P \<Longrightarrow> keeps h) \<Longrightarrow> keeps (if P then g else h)"
  by simp

lemma keeps_id: "keeps (\<lambda>c. c)"
  by (simp add: keeps_def)

text \<open>The choice of the update may depend on the state.\<close>

lemma keeps_dep: "(\<And>c. keeps (g c)) \<Longrightarrow> keeps (\<lambda>c. g c c)"
  by (simp add: keeps_def)

lemma keeps_fold: "(\<And>x. keeps (g x)) \<Longrightarrow> keeps (fold g xs)"
  by (induction xs) (simp_all add: keeps_def)

lemma keeps_set_object: "wo_id o' = i \<Longrightarrow> keeps (\<lambda>c. c\<lparr>co_objects := map_set i o' (co_objects c)\<rparr>)"
  by (simp add: keeps_def co_core_def objects_ok_def keyed_set)

lemma keeps_modify: "(\<And>o'. wo_id (g o') = wo_id o') \<Longrightarrow> keeps (\<lambda>c. c\<lparr>co_objects := map_modify i g (co_objects c)\<rparr>)"
  by (simp add: keeps_def co_core_def objects_ok_def keyed_modify)

lemma keeps_worker_objects_insert: "keeps (worker_objects_insert w i)"
  by (simp add: keeps_def worker_objects_insert_def co_core_def objects_ok_def)

lemma keeps_hello_observe: "keeps (hello_observe w o')"
  using keeps_worker_objects_insert[of w "wo_id o'"] keeps_set_object[of "observed_copy o'" "wo_id o'"]
  by (auto simp: keeps_def hello_observe_def split: option.split)

lemma keeps_report_observe: "keeps (report_observe w t o')"
proof (rule keepsI)
  fix c
  note ins = keeps_worker_objects_insert[of w "wo_id o'", unfolded keeps_def]
  show "co_core (report_observe w t o' c) = co_core c"
    using ins by (simp add: report_observe_def co_core_def split: option.split)
  assume ok: "objects_ok c"
  show "objects_ok (report_observe w t o' c)"
  proof (cases "map_find (wo_id o') (co_objects c)")
    case None
    then show ?thesis using ok ins keyed_set[of "co_objects c" "observed_copy o'"]
      by (simp add: report_observe_def objects_ok_def)
  next
    case (Some cur)
    have "wo_id cur = wo_id o'" using ok Some by (auto simp: objects_ok_def intro: keyed_find)
    then show ?thesis using Some ok ins keyed_set[of "co_objects c" "report_merge t o' cur"]
      by (simp add: report_observe_def objects_ok_def)
  qed
qed

lemma keeps_on_worker_objects: "(\<And>k o'. wo_id (g k o') = wo_id o') \<Longrightarrow> keeps (on_worker_objects g ids)"
  unfolding on_worker_objects_def by (rule keeps_fold) (auto intro: keeps_modify split: prod.split)

lemma keeps_invalidate_worker: "keeps (invalidate_worker_objects_locked w)"
  using keeps_on_worker_objects[of "\<lambda>_. lose_authority ''worker_boot_changed'' ''worker_boot_changed''"]
  by (auto simp: keeps_def invalidate_worker_objects_locked_def co_core_def objects_ok_def split: option.split)

lemma keeps_hello_register: "keeps (\<lambda>c. snd (hello_register cid h c))"
proof (rule keepsI)
  fix c
  define c1 where "c1 = (case map_find (h_worker h) (co_last_boot c) of
      Some b \<Rightarrow> if b \<noteq> h_boot h then invalidate_worker_objects_locked (h_worker h) c else c | None \<Rightarrow> c)"
  have c1: "co_core c1 = co_core c" "objects_ok c \<Longrightarrow> objects_ok c1"
    using keeps_invalidate_worker[of "h_worker h"] by (auto simp: c1_def keeps_def split: option.split)
  define c2 where "c2 = c1\<lparr>co_last_boot := map_set (h_worker h) (h_boot h) (co_last_boot c1),
     co_conns := map_set cid \<lparr>cn_id = h_worker h, cn_boot = h_boot h, cn_node = h_node h,
        cn_registered = True, cn_backend = h_backend h\<rparr> (co_conns c1),
     co_workers := map_set (h_worker h) cid (co_workers c1)\<rparr>"
  have c2: "co_core c2 = co_core c" "objects_ok c \<Longrightarrow> objects_ok c2"
    using c1 by (simp_all add: c2_def co_core_def objects_ok_def)
  have "snd (hello_register cid h c) \<in> {c, fold (hello_observe (h_worker h)) (h_observed h) c2}"
    unfolding hello_register_def Let_def c1_def[symmetric] c2_def[symmetric] by simp
  moreover have "keeps (fold (hello_observe (h_worker h)) (h_observed h))" by (intro keeps_fold keeps_hello_observe)
  ultimately show "co_core (snd (hello_register cid h c)) = co_core c"
    "objects_ok c \<Longrightarrow> objects_ok (snd (hello_register cid h c))"
    using c2 by (auto simp: keeps_def)
qed

lemma keeps_handle_hello: "keeps (\<lambda>c. snd (handle_hello cid p c))"
proof (rule keepsI)
  fix c
  have "snd (handle_hello cid p c) \<in> insert c (range (\<lambda>h. snd (hello_register cid h c)))"
    by (auto simp: handle_hello_def split: sum.split prod.split) (metis rangeI snd_conv)
  then show "co_core (snd (handle_hello cid p c)) = co_core c" "objects_ok c \<Longrightarrow> objects_ok (snd (handle_hello cid p c))"
    using keeps_hello_register[unfolded keeps_def] by auto
qed

lemma keeps_handle_report: "keeps (\<lambda>c. snd (handle_report cid clock p c))"
proof (rule keepsI)
  fix c
  have k: "keeps (fold (\<lambda>(k, o'). report_observe w (clock k) o') xs)" for w xs
    by (rule keeps_fold) (auto intro: keeps_report_observe split: prod.split)
  then show "co_core (snd (handle_report cid clock p c)) = co_core c"
    "objects_ok c \<Longrightarrow> objects_ok (snd (handle_report cid clock p c))"
    by (auto simp: keeps_def handle_report_def split: sum.split prod.split)
qed

lemma keeps_on_disconnect: "keeps (on_disconnect cid clock)"
proof (rule keepsI)
  fix c
  define c1 where "c1 = (if map_find (cn_id (conn_of cid c)) (co_workers c) = Some cid
     then c\<lparr>co_workers := map_erase (cn_id (conn_of cid c)) (co_workers c)\<rparr> else c)"
  have c1: "co_core c1 = co_core c" "objects_ok c1 = objects_ok c" by (simp_all add: c1_def co_core_def objects_ok_def)
  have "keeps (on_worker_objects (\<lambda>k. disconnect_object (pol_decay (co_policy c1)) (clock k)) ids)" for ids
    by (rule keeps_on_worker_objects) simp
  then show "co_core (on_disconnect cid clock c) = co_core c" "objects_ok c \<Longrightarrow> objects_ok (on_disconnect cid clock c)"
    using c1 unfolding on_disconnect_def Let_def c1_def[symmetric] by (auto simp: keeps_def split: option.split)
qed

section \<open>The accounting invariant\<close>

definition attempt_pairs :: "(u64, attempt_info) std_map \<Rightarrow> (u64 \<times> u64) multiset" where
  "attempt_pairs fl = image_mset (\<lambda>(a, info). (at_reservation info, at_op_reservation info)) (mset fl)"

text \<open>Every attempt in flight owns its reservations and nothing else is open; the count is the number
  of attempts; attempt ids come from the counter, which can be advanced \<open>n\<close> more times.\<close>

definition accounts :: "nat \<Rightarrow> (u64, attempt_info) std_map \<times> u64 \<times> u64 \<times> budget_tracker \<Rightarrow> bool" where
  "accounts n = (\<lambda>(fl, cnt, ctr, b). map_wf fl \<and> (\<forall>a \<in> fst ` set fl. a < ctr) \<and> unat ctr + n < 2 ^ 64
     \<and> unat cnt = length fl \<and> budget_inv (Suc (2 * n)) (attempt_pairs fl) b)"

definition co_inv :: "nat \<Rightarrow> coordinator \<Rightarrow> bool" where
  "co_inv n c \<longleftrightarrow> objects_ok c \<and> accounts n (co_core c)"

lemma co_inv_keeps: "keeps g \<Longrightarrow> co_inv n c \<Longrightarrow> co_inv n (g c)"
  by (simp add: keeps_def co_inv_def)

lemma accounts_mono: "accounts n x \<Longrightarrow> m \<le> n \<Longrightarrow> accounts m x"
  by (cases x) (auto simp: accounts_def elim!: budget_inv_mono)

lemma co_inv_mono: "co_inv n c \<Longrightarrow> m \<le> n \<Longrightarrow> co_inv m c"
  using accounts_mono[of n "co_core c" m] by (simp add: co_inv_def)

lemma co_inv_new: "n < 2 ^ 62 \<Longrightarrow> co_inv n new_coordinator"
  using budget_inv_new[of "Suc (2 * n)" budget_limits_default]
  by (simp add: co_inv_def objects_ok_def new_coordinator_def keyed_def accounts_def co_core_def attempt_pairs_def)

lemma mset_erase_length: "map_find k m = Some v \<Longrightarrow> length m = Suc (length (map_erase k m))"
  using mset_map_erase[of k m v] by (metis size_add_mset size_mset)

lemma mset_set_fresh_length: "map_find k m = None \<Longrightarrow> length (map_set k v m) = Suc (length m)"
  using mset_map_set_fresh[of k m v] by (metis size_add_mset size_mset)

lemma accounts_settle:
  assumes "accounts n (fl, cnt, ctr, b)" "map_find a fl = Some info"
  shows "accounts n (map_erase a fl, if cnt > 0 then cnt - 1 else cnt, ctr,
    release_pair (at_reservation info) (at_op_reservation info) b)"
proof -
  have wf: "map_wf fl" and cnt: "unat cnt = length fl" using assms(1) by (auto simp: accounts_def)
  have len: "length fl = Suc (length (map_erase a fl))" by (rule mset_erase_length[OF assms(2)])
  have "cnt \<noteq> 0" using cnt len by auto
  then have cnt': "unat (cnt - 1) = length (map_erase a fl)" using cnt len by (simp add: unat_minus_one)
  have "attempt_pairs fl = add_mset (at_reservation info, at_op_reservation info) (attempt_pairs (map_erase a fl))"
    by (simp add: attempt_pairs_def mset_map_erase[OF assms(2)])
  then have "budget_inv (Suc (2 * n)) (attempt_pairs (map_erase a fl))
      (release_pair (at_reservation info) (at_op_reservation info) b)"
    using assms(1) by (intro budget_inv_release) (simp add: accounts_def)
  moreover have "\<forall>q \<in> fst ` set (map_erase a fl). q < ctr"
    using assms(1) unfolding keys_map_erase[OF wf] by (auto simp: accounts_def)
  ultimately show ?thesis using assms(1) \<open>cnt \<noteq> 0\<close> cnt' wf unfolding accounts_def by (simp add: word_neq_0_conv)
qed

lemma co_core_settle:
  "co_core (settle_attempt a info c) = (map_erase a (co_in_flight c),
     if co_in_flight_count c > 0 then co_in_flight_count c - 1 else co_in_flight_count c, co_attempt_counter c,
     release_pair (at_reservation info) (at_op_reservation info) (co_budget c))"
  by (simp add: co_core_def settle_attempt_def)

lemma co_inv_settle:
  "co_inv n c \<Longrightarrow> map_find a (co_in_flight c) = Some info \<Longrightarrow> co_inv n (settle_attempt a info c)"
  using accounts_settle[of n "co_in_flight c" "co_in_flight_count c" "co_attempt_counter c" "co_budget c" a info]
  unfolding co_inv_def co_core_settle by (simp add: co_core_def objects_ok_def settle_attempt_def)

lemma release_all_inv:
  "budget_inv (Suc n) (attempt_pairs fl) b \<Longrightarrow>
     budget_inv (Suc n) {#} (fold (\<lambda>(a, info). release_pair (at_reservation info) (at_op_reservation info)) fl b)"
proof (induction fl arbitrary: b)
  case (Cons x fl)
  obtain a info where x: "x = (a, info)" by (cases x)
  have "budget_inv (Suc n) (attempt_pairs fl) (release_pair (at_reservation info) (at_op_reservation info) b)"
    using Cons.prems by (intro budget_inv_release) (simp add: x attempt_pairs_def)
  then show ?case using Cons.IH by (simp add: x)
qed (simp add: attempt_pairs_def)

lemma co_inv_roll: "co_inv n c \<Longrightarrow> co_inv n (roll_epoch c)"
  using release_all_inv[of "2 * n" "co_in_flight c" "co_budget c"]
  by (auto simp: co_inv_def roll_epoch_def objects_ok_def accounts_def co_core_def attempt_pairs_def
      intro!: keyed_update_all)

text \<open>A result either is ignored or settles the attempt it names.\<close>

lemma warm_result_cases:
  assumes "handle_warm_result cid clock p c = (fs, c')"
  obtains (ignored) "fs = []" "c' = c"
  | (settles) res rest info c2 where "fs = []" "decode_warm_result p = Inr (res, rest)"
      "authority_ok cid (wr_boot res) (wr_epoch res) (wr_warmth_gen res) (wr_dep_gen res) c"
      "map_find (wr_attempt res) (co_in_flight c) = Some info"
      "at_worker info = cn_id (conn_of cid c)" "at_object info = wr_object res"
      "c' = settle_attempt (wr_attempt res) info c2"
      "co_objects c2 = (case result_object res (co_warmth_gen c) clock (map_find (wr_object res) (co_objects c)) of
         Some o' \<Rightarrow> map_set (wr_object res) o' (co_objects c) | None \<Rightarrow> co_objects c)"
      "\<exists>wos. c2 = c\<lparr>co_objects := co_objects c2, co_worker_objects := wos\<rparr>"
proof (cases "decode_warm_result p")
  case (Inl e)
  then show ?thesis using assms ignored by (simp add: handle_warm_result_def)
next
  case (Inr rr)
  obtain res rest where rr: "rr = (res, rest)" by (cases rr)
  define c1 where "c1 = (case result_object res (co_warmth_gen c) clock (map_find (wr_object res) (co_objects c)) of
      Some o' \<Rightarrow> c\<lparr>co_objects := map_set (wr_object res) o' (co_objects c)\<rparr> | None \<Rightarrow> c)"
  define c2 where "c2 = (if wr_success res then worker_objects_insert (cn_id (conn_of cid c)) (wr_object res) c1 else c1)"
  have c2: "co_objects c2 = (case result_object res (co_warmth_gen c) clock (map_find (wr_object res) (co_objects c)) of
         Some o' \<Rightarrow> map_set (wr_object res) o' (co_objects c) | None \<Rightarrow> co_objects c)"
    by (simp add: c2_def c1_def worker_objects_insert_def split: option.split)
  have c2': "\<exists>wos. c2 = c\<lparr>co_objects := co_objects c2, co_worker_objects := wos\<rparr>"
    by (rule exI[of _ "co_worker_objects c2"]) (simp add: c2_def c1_def worker_objects_insert_def split: option.split)
  show ?thesis
  proof (cases "authority_ok cid (wr_boot res) (wr_epoch res) (wr_warmth_gen res) (wr_dep_gen res) c")
    case False
    then show ?thesis using assms ignored by (simp add: handle_warm_result_def Inr rr)
  next
    case True
    note [simp] = handle_warm_result_def Inr rr True c1_def[symmetric] c2_def[symmetric]
    show ?thesis
    proof (cases "map_find (wr_attempt res) (co_in_flight c)")
      case None
      then show ?thesis using assms ignored by simp
    next
      case (Some info)
      show ?thesis
      proof (cases "at_worker info = cn_id (conn_of cid c) \<and> at_object info = wr_object res")
        case False
        then show ?thesis using assms ignored Some by auto
      next
        case t: True
        show ?thesis using assms Some t c2 c2' by (intro settles[of res rest info c2]) (auto simp: Let_def)
      qed
    qed
  qed
qed

lemma wo_id_result_object:
  "result_object res wg clock oo = Some o' \<Longrightarrow> (\<And>x. oo = Some x \<Longrightarrow> wo_id x = wr_object res) \<Longrightarrow> wo_id o' = wr_object res"
  by (auto simp: result_object_def new_object_def split: if_splits option.splits)

lemma co_inv_warm_result:
  assumes "co_inv n c"
  shows "co_inv n (snd (handle_warm_result cid clock p c))"
proof -
  obtain fs c' where r: "handle_warm_result cid clock p c = (fs, c')" by (cases "handle_warm_result cid clock p c")
  from r show ?thesis
  proof (cases rule: warm_result_cases)
    case (settles res rest info c2)
    have ok: "objects_ok c" using assms by (simp add: co_inv_def)
    have "co_core c2 = co_core c" using settles(9) by (metis co_core_def coordinator.select_convs coordinator.surjective coordinator.update_convs(6,10))
    moreover have "objects_ok c2"
    proof -
      have "wo_id o' = wr_object res"
        if "result_object res (co_warmth_gen c) clock (map_find (wr_object res) (co_objects c)) = Some o'" for o'
        using that by (rule wo_id_result_object) (use ok in \<open>auto simp: objects_ok_def intro: keyed_find\<close>)
      then show ?thesis using ok unfolding objects_ok_def settles(8) by (auto simp: keyed_set split: option.split)
    qed
    ultimately have "co_inv n c2" "co_in_flight c2 = co_in_flight c" using assms by (auto simp: co_inv_def co_core_def)
    then show ?thesis using settles(4,7) r by (simp add: co_inv_settle)
  qed (use assms r in simp)
qed

lemma length_below:
  fixes m :: "(u64, 'v) std_map"
  assumes "map_wf m" "\<forall>a \<in> fst ` set m. a < ctr"
  shows "length m \<le> unat ctr"
proof -
  have "distinct (map (unat \<circ> fst) m)"
    using map_wf_distinct[OF assms(1)] by (simp add: distinct_map inj_on_def word_unat_eq_iff)
  then have "length m = card ((unat \<circ> fst) ` set m)" by (metis distinct_card length_map set_map)
  also have "\<dots> \<le> card {..<unat ctr}" by (rule card_mono) (use assms(2) in \<open>auto simp: word_less_nat_alt\<close>)
  finally show ?thesis by simp
qed

lemma accounts_issue:
  assumes "accounts (Suc n) (fl, cnt, ctr, b)" "reserve k x t b = (r, e1, b1)" "r \<noteq> 0" "reserve k' x' t' b1 = (op, e2, b2)"
    and "at_reservation info = r" "at_op_reservation info = op"
  shows "accounts n (map_set ctr info fl, cnt + 1, ctr + 1, b2)" "map_find ctr fl = None"
proof -
  have ctr: "unat ctr + Suc n < 2 ^ 64" and keys: "\<forall>q \<in> fst ` set fl. q < ctr"
    and cnt: "unat cnt = length fl" and wf: "map_wf fl"
    using assms(1) by (auto simp: accounts_def)
  show fresh: "map_find ctr fl = None" using keys by (auto simp: map_find_None_iff)
  have ctr': "unat (ctr + 1) = Suc (unat ctr)" using ctr by (simp add: unat_add_u64)
  have cnt': "unat (cnt + 1) = Suc (unat cnt)" using ctr length_below[OF wf keys] cnt by (simp add: unat_add_u64)
  have "\<forall>q \<in> fst ` set (map_set ctr info fl). q < ctr + 1"
    using keys ctr' unfolding keys_map_set word_less_nat_alt by auto
  moreover have "budget_inv (Suc (2 * n)) (add_mset (r, op) (attempt_pairs fl)) b2"
    using assms(1-4) by (intro budget_inv_acquire) (simp_all add: accounts_def)
  ultimately show "accounts n (map_set ctr info fl, cnt + 1, ctr + 1, b2)"
    using ctr ctr' cnt' cnt wf mset_set_fresh_length[OF fresh] mset_map_set_fresh[OF fresh] assms(5,6)
    by (simp add: accounts_def attempt_pairs_def)
qed

text \<open>The outcomes of the first section of \<open>issue_warm\<close>.\<close>

lemma issue_begin_cases:
  assumes "issue_begin object action preferred c = (out, c')" "co_inv (Suc n) c"
  obtains (refused) "out = None" "c' = c"
  | (issued) target r e1 b1 op e2 b2 info where "pick_worker preferred c = Some target"
      "reserve BK_DEVICE_MEMORY kDefaultWarmBytes ''warm'' (co_budget c) = (r, e1, b1)" "r \<noteq> 0"
      "reserve BK_CONCURRENT_WARMING_OPS 1 ''warm'' b1 = (op, e2, b2)"
      "info = \<lparr>at_object = object, at_worker = cn_id (conn_of target c), at_reservation = r, at_op_reservation = op\<rparr>"
      "c' = c\<lparr>co_budget := b2, co_attempt_counter := co_attempt_counter c + 1,
         co_in_flight := map_set (co_attempt_counter c) info (co_in_flight c),
         co_in_flight_count := co_in_flight_count c + 1\<rparr>"
      "out = Some (co_attempt_counter c, (target, MT_WARM_TOPIC,
         encode_warm_topic (warm_topic_for object action (co_attempt_counter c) c')))"
proof (cases "pick_worker preferred c")
  case None
  then show ?thesis using assms refused by (simp add: issue_begin_def)
next
  case (Some target)
  obtain r e1 b1 where r: "reserve BK_DEVICE_MEMORY kDefaultWarmBytes ''warm'' (co_budget c) = (r, e1, b1)"
    by (metis prod_cases3)
  obtain op e2 b2 where op: "reserve BK_CONCURRENT_WARMING_OPS 1 ''warm'' b1 = (op, e2, b2)"
    by (metis prod_cases3)
  show ?thesis
  proof (cases "r = 0")
    case True
    have "tracker_ok (Suc (2 * Suc n)) (co_budget c)"
      using assms(2) by (simp add: co_inv_def accounts_def co_core_def budget_inv_def)
    then have "b1 = co_budget c" using r unfolding True by (rule ledger.acquire_refused)
    then show ?thesis using assms(1) Some r True refused by (simp add: issue_begin_def)
  next
    case False
    show ?thesis by (rule issued[OF Some r False op refl]) (use assms(1) Some r False op in \<open>auto simp: issue_begin_def Let_def\<close>)
  qed
qed

lemma co_inv_issue:
  assumes "co_inv (Suc n) c"
  shows "co_inv n (snd (issue_begin object action preferred c))"
proof -
  obtain out c' where i: "issue_begin object action preferred c = (out, c')" by (cases "issue_begin object action preferred c")
  from i assms show ?thesis
  proof (cases rule: issue_begin_cases)
    case refused
    then show ?thesis using co_inv_mono[OF assms, of n] i by simp
  next
    case (issued target r e1 b1 op e2 b2 info)
    have "accounts (Suc n) (co_in_flight c, co_in_flight_count c, co_attempt_counter c, co_budget c)"
      using assms by (simp add: co_inv_def co_core_def)
    then show ?thesis
      using accounts_issue(1)[OF _ issued(2,3,4), of n _ _ _ info] i issued(5,6) assms
      by (simp add: co_inv_def co_core_def objects_ok_def)
  qed
qed

lemma co_inv_rollback: "co_inv n c \<Longrightarrow> co_inv n (issue_rollback a c)"
  by (simp add: issue_rollback_def co_inv_settle split: option.split)

section \<open>Interleaved handlers\<close>

text \<open>One atomic step of any thread of the coordinator: connections come and go, frames arrive with
  any payload, and callers bump generations, roll the epoch and issue work. The rollback of a frame
  that could not be sent may come at any later time.\<close>

inductive co_step :: "coordinator \<Rightarrow> coordinator \<Rightarrow> bool" where
  cs_connect: "map_find cid (co_conns c) = None \<Longrightarrow> co_step c (on_connection cid c)"
| cs_frame: "map_find cid (co_conns c) \<noteq> None \<Longrightarrow> co_step c (snd (handle_frame cid clock f c))"
| cs_disconnect: "map_find cid (co_conns c) \<noteq> None \<Longrightarrow> co_step c (on_disconnect cid clock c)"
| cs_bump_dep: "co_step c (co_bump_dependency_generation c)"
| cs_bump_warmth: "co_step c (co_bump_warmth_generation c)"
| cs_roll: "co_step c (roll_epoch c)"
| cs_issue: "co_step c (snd (issue_begin object action preferred c))"
| cs_rollback: "co_step c (issue_rollback a c)"

lemma keeps_connection: "keeps (on_connection cid)"
  by (simp add: keeps_def on_connection_def co_core_def objects_ok_def)

lemma keeps_bumps: "keeps co_bump_dependency_generation" "keeps co_bump_warmth_generation"
  by (simp_all add: keeps_def co_bump_dependency_generation_def co_bump_warmth_generation_def co_core_def objects_ok_def)

lemma co_inv_frame: "co_inv n c \<Longrightarrow> co_inv n (snd (handle_frame cid clock f c))"
  using co_inv_keeps[OF keeps_handle_hello] co_inv_keeps[OF keeps_handle_report] co_inv_warm_result
  by (simp add: handle_frame_def split: message_type.split)

lemma co_step_inv:
  assumes "co_step c c'" "co_inv (Suc n) c"
  shows "co_inv n c'"
proof -
  have m: "co_inv n c" using assms(2) by (rule co_inv_mono) simp
  from assms(1) show ?thesis
    by cases (use m assms(2) in \<open>simp_all add: co_inv_issue co_inv_rollback co_inv_roll co_inv_frame
      co_inv_keeps[OF keeps_on_disconnect] co_inv_keeps[OF keeps_connection] co_inv_keeps[OF keeps_bumps(1)]
      co_inv_keeps[OF keeps_bumps(2)]\<close>)
qed

lemma co_reach_inv: "(co_step ^^ k) c c' \<Longrightarrow> co_inv (k + n) c \<Longrightarrow> co_inv n c'"
proof (induction k arbitrary: c' n)
  case (Suc k)
  then obtain d where d: "(co_step ^^ k) c d" "co_step d c'" by auto
  have "co_inv (Suc n) d" using Suc.IH[OF d(1), of "Suc n"] Suc.prems(2) by simp
  with d(2) show ?case by (rule co_step_inv)
qed simp

text \<open>What the invariant says: nothing is in flight, nothing is waited for and nothing is reserved are
  the same.\<close>

lemma settled_iff:
  assumes "co_inv n c"
  shows "settled c \<longleftrightarrow> co_in_flight c = []" "co_balanced c \<longleftrightarrow> co_in_flight c = []"
proof -
  have cnt: "unat (co_in_flight_count c) = length (co_in_flight c)"
    and own: "owns (attempt_pairs (co_in_flight c)) (opens_of (co_budget c))"
    using assms by (auto simp: co_inv_def accounts_def co_core_def budget_inv_def)
  show "settled c \<longleftrightarrow> co_in_flight c = []" using cnt unfolding settled_def by (metis length_0_conv unat_eq_zero)
  have "co_balanced c \<longleftrightarrow> opens_of (co_budget c) = Map.empty"
    by (simp add: co_balanced_def outstanding_def balanced_iff_opens[symmetric] balanced_def)
  moreover have "attempt_pairs (co_in_flight c) = {#} \<longleftrightarrow> co_in_flight c = []" by (simp add: attempt_pairs_def)
  ultimately show "co_balanced c \<longleftrightarrow> co_in_flight c = []" using own owns_empty_ledger owns_empty_iff by metis
qed

lemma attempt_reservation_open:
  assumes "co_inv n c" "(a, info) \<in> set (co_in_flight c)"
  shows "opens_of (co_budget c) (at_reservation info) \<noteq> None"
proof -
  have own: "owns (attempt_pairs (co_in_flight c)) (opens_of (co_budget c))"
    using assms(1) by (simp add: co_inv_def accounts_def co_core_def budget_inv_def)
  obtain M where "mset (co_in_flight c) = add_mset (a, info) M" using assms(2) by (metis mset_add set_mset_mset)
  then have "count (pair_ids (attempt_pairs (co_in_flight c))) (at_reservation info) \<noteq> 0"
    by (simp add: attempt_pairs_def)
  then show ?thesis using own by (auto simp: owns_def split: if_splits)
qed

section \<open>Authority\<close>

text \<open>Objects that are execution ready in \<open>c'\<close> and were not in the same state in \<open>c\<close> are \<open>HOT\<close>.\<close>

definition no_new_ready :: "coordinator \<Rightarrow> coordinator \<Rightarrow> bool" where
  "no_new_ready c c' \<longleftrightarrow> (\<forall>i o'. map_find i (co_objects c') = Some o' \<and> is_execution_ready (wo_state o')
     \<longrightarrow> wo_state o' = HOT \<or> (\<exists>o0. map_find i (co_objects c) = Some o0 \<and> wo_state o0 = wo_state o'))"

lemma no_new_ready_refl: "co_objects c' = co_objects c \<Longrightarrow> no_new_ready c c'"
  by (simp add: no_new_ready_def)

lemma no_new_ready_trans: "no_new_ready a b \<Longrightarrow> no_new_ready b c \<Longrightarrow> no_new_ready a c"
  unfolding no_new_ready_def by metis

lemma no_new_ready_fold:
  assumes "\<And>x c. no_new_ready c (g x c)"
  shows "no_new_ready c (fold g xs c)"
proof (induction xs arbitrary: c)
  case (Cons x xs)
  then show ?case using no_new_ready_trans[OF assms[of c x]] by simp
qed (simp add: no_new_ready_refl)

lemma no_new_ready_set:
  assumes "is_execution_ready (wo_state o1) \<Longrightarrow>
    wo_state o1 = HOT \<or> (\<exists>o0. map_find i (co_objects c) = Some o0 \<and> wo_state o0 = wo_state o1)"
    "co_objects c' = map_set i o1 (co_objects c)"
  shows "no_new_ready c c'"
  unfolding no_new_ready_def assms(2) map_find_set
proof (intro allI impI)
  fix j o'
  assume *: "(if j = i then Some o1 else map_find j (co_objects c)) = Some o' \<and> is_execution_ready (wo_state o')"
  show "wo_state o' = HOT \<or> (\<exists>o0. map_find j (co_objects c) = Some o0 \<and> wo_state o0 = wo_state o')"
  proof (cases "j = i")
    case True
    then show ?thesis using * assms(1) by simp
  next
    case False
    then show ?thesis using * by simp
  qed
qed

lemma no_new_ready_hello_observe: "no_new_ready c (hello_observe w o' c)"
proof (cases "map_find (wo_id o') (co_objects c)")
  case None
  show ?thesis by (rule no_new_ready_set[of "observed_copy o'" "wo_id o'"])
      (auto simp: observed_copy_state hello_observe_def None worker_objects_insert_def)
qed (simp add: no_new_ready_refl hello_observe_def worker_objects_insert_def)

lemma no_new_ready_report_observe: "no_new_ready c (report_observe w t o' c)"
proof (cases "map_find (wo_id o') (co_objects c)")
  case None
  show ?thesis by (rule no_new_ready_set[of "observed_copy o'" "wo_id o'"])
      (auto simp: observed_copy_state report_observe_def None worker_objects_insert_def)
next
  case (Some cur)
  show ?thesis
  proof (rule no_new_ready_set[of "report_merge t o' cur" "wo_id o'"])
    show "wo_state (report_merge t o' cur) = HOT \<or>
        (\<exists>o0. map_find (wo_id o') (co_objects c) = Some o0 \<and> wo_state o0 = wo_state (report_merge t o' cur))"
      if "is_execution_ready (wo_state (report_merge t o' cur))"
      using that report_merge_state[of t o' cur] Some by auto
  qed (simp add: report_observe_def Some worker_objects_insert_def)
qed

lemma no_new_ready_lose_authority:
  "no_new_ready c (c\<lparr>co_objects := map_modify i (lose_authority why r) (co_objects c)\<rparr>)"
proof (cases "map_find i (co_objects c)")
  case (Some o')
  show ?thesis by (rule no_new_ready_set[of "lose_authority why r o'" i])
      (auto simp: lose_authority_state map_modify_def Some split: if_splits)
qed (simp add: no_new_ready_refl map_modify_def)

lemma no_new_ready_invalidate: "no_new_ready c (invalidate_worker_objects_locked w c)"
proof (cases "map_find w (co_worker_objects c)")
  case (Some ids)
  let ?d = "on_worker_objects (\<lambda>_. lose_authority ''worker_boot_changed'' ''worker_boot_changed'') ids c"
  have "no_new_ready c ?d" unfolding on_worker_objects_def
    by (rule no_new_ready_fold) (simp add: no_new_ready_lose_authority split: prod.split)
  then show ?thesis by (rule no_new_ready_trans) (simp add: no_new_ready_refl invalidate_worker_objects_locked_def Some)
qed (simp add: no_new_ready_refl invalidate_worker_objects_locked_def)

lemma no_new_ready_register: "no_new_ready c (snd (hello_register cid h c))"
proof -
  define c1 where "c1 = (case map_find (h_worker h) (co_last_boot c) of
      Some b \<Rightarrow> if b \<noteq> h_boot h then invalidate_worker_objects_locked (h_worker h) c else c | None \<Rightarrow> c)"
  have c1: "no_new_ready c c1"
    by (simp add: c1_def no_new_ready_invalidate no_new_ready_refl split: option.split)
  define c2 where "c2 = c1\<lparr>co_last_boot := map_set (h_worker h) (h_boot h) (co_last_boot c1),
     co_conns := map_set cid \<lparr>cn_id = h_worker h, cn_boot = h_boot h, cn_node = h_node h,
        cn_registered = True, cn_backend = h_backend h\<rparr> (co_conns c1),
     co_workers := map_set (h_worker h) cid (co_workers c1)\<rparr>"
  have "no_new_ready c1 c2" by (simp add: c2_def no_new_ready_refl)
  moreover have "no_new_ready c2 (fold (hello_observe (h_worker h)) (h_observed h) c2)"
    by (intro no_new_ready_fold no_new_ready_hello_observe)
  ultimately have "no_new_ready c (fold (hello_observe (h_worker h)) (h_observed h) c2)"
    using c1 no_new_ready_trans by blast
  then show ?thesis
    unfolding hello_register_def Let_def c1_def[symmetric] c2_def[symmetric] by (simp add: no_new_ready_refl)
qed

lemma no_new_ready_frame:
  assumes "fr_type f \<noteq> MT_WARM_RESULT"
  shows "no_new_ready c (snd (handle_frame cid clock f c))"
proof -
  have "no_new_ready c (snd (handle_hello cid p c))" for p
    using no_new_ready_register[of c cid] unfolding handle_hello_def
    by (auto simp: no_new_ready_refl split: sum.split prod.split) (metis snd_conv)
  moreover have "no_new_ready c (snd (handle_report cid clock p c))" for p
  proof -
    have "no_new_ready c (fold (\<lambda>(k, o'). report_observe w (clock k) o') xs c)" for w xs
      by (rule no_new_ready_fold) (simp add: no_new_ready_report_observe split: prod.split)
    then show ?thesis unfolding handle_report_def by (auto simp: no_new_ready_refl split: sum.split prod.split)
  qed
  ultimately show ?thesis using assms by (simp add: handle_frame_def no_new_ready_refl split: message_type.split)
qed

section \<open>At most once\<close>

lemma conn_of_cong: "co_conns c' = co_conns c \<Longrightarrow> conn_of cid c' = conn_of cid c"
  by (simp add: conn_of_def)

lemma authority_ok_cong:
  "co_conns c' = co_conns c \<Longrightarrow> co_epoch c' = co_epoch c \<Longrightarrow> co_warmth_gen c' = co_warmth_gen c \<Longrightarrow>
    co_dep_gen c' = co_dep_gen c \<Longrightarrow> authority_ok cid b e w d c' = authority_ok cid b e w d c"
  by (simp add: authority_ok_def conn_of_def)

lemma warm_result_unknown_attempt:
  assumes "decode_warm_result p = Inr (res, rest)" "map_find (wr_attempt res) (co_in_flight c) = None"
  shows "handle_warm_result cid clock p c = ([], c)"
  using assms by (simp add: handle_warm_result_def)

lemma warm_result_replay:
  assumes "co_inv n c"
  shows "handle_warm_result cid' clock' p (snd (handle_warm_result cid clock p c)) = ([], snd (handle_warm_result cid clock p c))
    \<or> snd (handle_warm_result cid clock p c) = c"
proof -
  obtain fs c' where r: "handle_warm_result cid clock p c = (fs, c')" by (cases "handle_warm_result cid clock p c")
  from r show ?thesis
  proof (cases rule: warm_result_cases)
    case (settles res rest info c2)
    have wf: "map_wf (co_in_flight c)" using assms by (simp add: co_inv_def accounts_def co_core_def)
    obtain wos where c2: "c2 = c\<lparr>co_objects := co_objects c2, co_worker_objects := wos\<rparr>" using settles(9) by blast
    have "co_in_flight c2 = co_in_flight c" by (subst c2) simp
    then have "map_find (wr_attempt res) (co_in_flight c') = None" using wf settles(7) by (simp add: settle_attempt_def)
    then show ?thesis using warm_result_unknown_attempt[OF settles(2)] r by simp
  qed (use r in simp)
qed

section \<open>Rolling the epoch\<close>

lemma roll_epoch_objects:
  "map_find i (co_objects (roll_epoch c)) = Some o' \<Longrightarrow> wo_state o' \<notin> {PARTIALLY_WARM, WARM, HOT, STALE}"
  by (auto simp: roll_epoch_def lose_authority_state split: if_splits)

text \<open>The epoch itself saturates at its last value; the warmth generation always moves.\<close>

lemma roll_epoch_fences: "\<not> authority_ok cid boot e (co_warmth_gen c) dg (roll_epoch c)"
  by (simp add: authority_ok_def roll_epoch_def)

lemma bump_fences:
  "\<not> authority_ok cid boot e (co_warmth_gen c) dg (co_bump_warmth_generation c)"
  "\<not> authority_ok cid boot e wg (co_dep_gen c) (co_bump_dependency_generation c)"
  by (simp_all add: authority_ok_def co_bump_warmth_generation_def co_bump_dependency_generation_def)

lemma roll_epoch_settles:
  assumes "co_inv n c"
  shows "co_in_flight (roll_epoch c) = []" "settled (roll_epoch c)" "co_balanced (roll_epoch c)"
proof -
  show e: "co_in_flight (roll_epoch c) = []" by (simp add: roll_epoch_def)
  show "settled (roll_epoch c)" "co_balanced (roll_epoch c)" using settled_iff[OF co_inv_roll[OF assms]] e by simp_all
qed

section \<open>One warming from order to result\<close>

lemma result_object_success:
  assumes "result_object res wg clock oo = Some o'" "wr_success res"
  shows "is_execution_ready (wo_state o')" "wo_warmth_gen o' = wg" "wo_residency o' = R_DEVICE_RESIDENT"
    "wo_provenance o' = P_MEASURED"
  using assms by (auto simp: result_object_def complete_warm_def record_warm_def reach_warm_state split: option.splits if_splits)

text \<open>The result of the attempt just issued, arriving with current authority from the worker it was
  sent to, makes the object ready and returns the accounts to where they were.\<close>

lemma issue_then_result:
  assumes inv: "co_inv (Suc n) c"
    and i: "issue_begin object action preferred c = (Some (a, (target, mt, bs)), c1)"
    and d: "decode_warm_result p = Inr (res, rest)" "wr_attempt res = a" "wr_object res = object" "wr_success res"
    and au: "authority_ok target (wr_boot res) (wr_epoch res) (wr_warmth_gen res) (wr_dep_gen res) c1"
  shows "\<exists>c' o'. handle_warm_result target clock p c1 = ([], c') \<and> co_in_flight c' = co_in_flight c
    \<and> co_in_flight_count c' = co_in_flight_count c \<and> opens_of (co_budget c') = opens_of (co_budget c)
    \<and> map_find object (co_objects c') = Some o' \<and> is_execution_ready (wo_state o') \<and> wo_warmth_gen o' = co_warmth_gen c"
  using i inv
proof (cases rule: issue_begin_cases)
  case (issued target' r e1 b1 op e2 b2 info)
  have eqs: "target' = target" "a = co_attempt_counter c" using issued(7) by simp_all
  have acc: "accounts (Suc n) (co_in_flight c, co_in_flight_count c, co_attempt_counter c, co_budget c)"
    using inv by (simp add: co_inv_def co_core_def)
  have wf: "map_wf (co_in_flight c)" and bi: "tracker_ok (Suc (Suc (Suc (2 * n)))) (co_budget c)"
    using acc by (simp_all add: accounts_def budget_inv_def)
  have fresh: "map_find a (co_in_flight c) = None"
    unfolding eqs using accounts_issue(2)[OF acc issued(2,3,4), of info] issued(5) by simp
  obtain o' where o': "result_object res (co_warmth_gen c) clock (map_find object (co_objects c)) = Some o'"
    using d(4) by (auto simp: result_object_def)
  have fl: "co_in_flight c1 = map_set a info (co_in_flight c)" and cnt: "co_in_flight_count c1 = co_in_flight_count c + 1"
    and objs: "co_objects c1 = co_objects c" "co_warmth_gen c1 = co_warmth_gen c" and conns: "co_conns c1 = co_conns c"
    and bud: "co_budget c1 = b2" by (simp_all add: issued(6) eqs)
  let ?c' = "settle_attempt a info (worker_objects_insert (cn_id (conn_of target c1)) object
      (c1\<lparr>co_objects := map_set object o' (co_objects c1)\<rparr>))"
  have "handle_warm_result target clock p c1 = ([], ?c')"
    using d au o' objs issued(5) conn_of_cong[OF conns] by (simp add: handle_warm_result_def fl eqs)
  moreover have "co_in_flight_count ?c' = co_in_flight_count c"
  proof -
    have "accounts n (map_set a info (co_in_flight c), co_in_flight_count c + 1, co_attempt_counter c + 1, b2)"
      unfolding eqs using accounts_issue(1)[OF acc issued(2,3,4), of info] issued(5) by simp
    then have "unat (co_in_flight_count c + 1) = Suc (length (co_in_flight c))"
      using mset_set_fresh_length[OF fresh] by (simp add: accounts_def)
    then have "co_in_flight_count c + 1 \<noteq> 0" by auto
    then show ?thesis by (simp add: settle_attempt_def worker_objects_insert_def cnt word_neq_0_conv)
  qed
  moreover have "opens_of (release_pair r op b2) = opens_of (co_budget c)"
    using ledger.pair_neutral(1)[OF bi issued(2,3,4) refl refl] by (simp add: release_pair_def Let_def)
  moreover have "co_in_flight ?c' = co_in_flight c"
    using smap.del_put_fresh[OF wf fresh] by (simp add: settle_attempt_def worker_objects_insert_def fl)
  ultimately show ?thesis using result_object_success(1,2)[OF o' d(4)] issued(5)
    by (intro exI[of _ ?c'] exI[of _ o']) (simp add: settle_attempt_def worker_objects_insert_def bud)
qed simp

end
