(* ===== verification/Frame_Loop.thy ===== *)
theory Frame_Loop
  imports Protocol
begin

text \<open>
  The loop both ends of a connection run: read a frame, handle it, and go on until reading fails or
  the handler asks to stop. The handler may write to the connection. The loop need not end (a peer
  may send for ever), so it is a partial function; the locale says what a handler has to promise so
  that the loop ends on every finite stream and has handled exactly the frames that were sent.
\<close>

section \<open>The loop\<close>

text \<open>The number of frames handled so far is passed to the handler, for its clock readings.\<close>

partial_function (option) serve_frames ::
  "'w recv_fn \<Rightarrow> (nat \<Rightarrow> frame \<Rightarrow> 'w connection \<times> 's \<Rightarrow> 'w connection \<times> 's) \<Rightarrow> ('s \<Rightarrow> bool) \<Rightarrow> nat \<Rightarrow>
     'w connection \<Rightarrow> 's \<Rightarrow> ('w connection \<times> 's) option" where
  "serve_frames recv handle stop k conn s =
    (case frame_read recv conn of
       (None, conn') \<Rightarrow> Some (conn', s)
     | (Some f, conn') \<Rightarrow>
         (case handle k f (conn', s) of (conn'', s') \<Rightarrow>
            if stop s' then Some (conn'', s') else serve_frames recv handle stop (Suc k) conn'' s'))"

text \<open>Frames written one after the other, whether or not a write fails.\<close>

definition write_frames :: "'w send_fn \<Rightarrow> frame list \<Rightarrow> 'w connection \<Rightarrow> 'w connection" where
  "write_frames send fs conn = fold (\<lambda>f c. snd (frame_write send f c)) fs conn"

text \<open>What the loop does to the state, told of the frames instead of the bytes.\<close>

fun handle_all :: "(nat \<Rightarrow> frame \<Rightarrow> 's \<Rightarrow> 's) \<Rightarrow> ('s \<Rightarrow> bool) \<Rightarrow> nat \<Rightarrow> frame list \<Rightarrow> 's \<Rightarrow> 's" where
  "handle_all act stop k [] s = s"
| "handle_all act stop k (f # fs) s = (let s' = act k f s in if stop s' then s' else handle_all act stop (Suc k) fs s')"

section \<open>Writing does not disturb reading\<close>

text \<open>A socket is full duplex: sending leaves the bytes still to be received alone.\<close>

definition full_duplex :: "'w send_fn \<Rightarrow> ('w \<Rightarrow> bytes) \<Rightarrow> bool" where
  "full_duplex send stream \<longleftrightarrow> (\<forall>w bs. stream (snd (send w bs)) = stream w)"

lemma write_loop_duplex: "full_duplex send stream \<Longrightarrow> stream (snd (write_loop send bs w)) = stream w"
proof (induction send bs w rule: write_loop.induct)
  case (1 send bs w)
  have s: "stream (snd (send w bs)) = stream w" using 1(2) by (simp add: full_duplex_def)
  show ?case
  proof (cases "bs = []")
    case False
    show ?thesis
    proof (cases "send w bs")
      case (Pair r w')
      then show ?thesis using False s 1 by (cases r) (simp_all add: write_loop.simps[of send bs w])
    qed
  qed (simp add: write_loop.simps)
qed

lemma write_all_duplex:
  "full_duplex send stream \<Longrightarrow> stream (conn_world (snd (write_all send bs c))) = stream (conn_world c)"
  using write_loop_duplex[of send stream bs "conn_world c"]
  by (auto simp: write_all_def split: prod.split)

lemma conn_valid_write_all [simp]: "conn_valid (snd (write_all send bs c)) = conn_valid c"
  by (simp add: write_all_def split: prod.split)

lemma frame_write_duplex:
  assumes "full_duplex send stream"
  shows "stream (conn_world (snd (frame_write send f c))) = stream (conn_world c)"
    "conn_valid (snd (frame_write send f c)) = conn_valid c"
proof -
  note w = write_all_duplex[OF assms] conn_valid_write_all[of send]
  have pair: "write_all send bs c = (b, c') \<Longrightarrow> stream (conn_world c') = stream (conn_world c) \<and> conn_valid c' = conn_valid c"
    for bs b c c' using w[of bs c] by (metis snd_conv)
  show "stream (conn_world (snd (frame_write send f c))) = stream (conn_world c)"
    "conn_valid (snd (frame_write send f c)) = conn_valid c"
    using w by (auto simp: frame_write_def Let_def split: prod.split dest!: pair)
qed

lemma write_frames_duplex:
  "full_duplex send stream \<Longrightarrow> stream (conn_world (write_frames send fs c)) = stream (conn_world c) \<and>
     conn_valid (write_frames send fs c) = conn_valid c"
  by (induction fs arbitrary: c) (simp_all add: write_frames_def frame_write_duplex)

section \<open>The interface of a handler\<close>

text \<open>
  What the loop needs of a handler: its effect on the state does not depend on the connection
  (results of writes are ignored), and it uses the connection only to write. The client lemma: on a
  stream that holds some frames and then bytes no frame starts with, the loop ends and its state is
  the one the frames lead to.
\<close>

locale frame_handler =
  fixes send :: "'w send_fn"
    and handle :: "nat \<Rightarrow> frame \<Rightarrow> 'w connection \<times> 's \<Rightarrow> 'w connection \<times> 's"
    and act :: "nat \<Rightarrow> frame \<Rightarrow> 's \<Rightarrow> 's"
  assumes handle_state: "snd (handle k f (conn, s)) = act k f s"
    and handle_stream: "full_duplex send stream \<Longrightarrow> stream (conn_world (fst (handle k f (conn, s)))) = stream (conn_world conn)"
    and handle_valid: "full_duplex send stream \<Longrightarrow> conn_valid (fst (handle k f (conn, s))) = conn_valid conn"
begin

lemma serve_frames_ends:
  assumes "recv_ok recv stream" "full_duplex send stream" "parse_frame junk = Inl ()"
  shows "conn_valid conn \<Longrightarrow> stream (conn_world conn) = concat (map frame_bytes fs) @ junk \<Longrightarrow>
    \<forall>f \<in> set fs. length (fr_payload f) \<le> kMaxPayload \<Longrightarrow>
    \<exists>conn'. serve_frames recv handle stop k conn s = Some (conn', handle_all act stop k fs s)"
proof (induction fs arbitrary: k conn s)
  case Nil
  have "frame_read_spec stream conn (frame_read recv conn)" by (rule frame_read_refines[OF assms(1) Nil.prems(1)])
  then have "fst (frame_read recv conn) = None" using Nil.prems(2) assms(3) by (simp add: frame_read_spec_def)
  then show ?case by (subst serve_frames.simps) (cases "frame_read recv conn", simp)
next
  case (Cons f fs)
  have "frame_read_spec stream conn (frame_read recv conn)" by (rule frame_read_refines[OF assms(1) Cons.prems(1)])
  then obtain c1 where r: "frame_read recv conn = (Some f, c1)" "conn_valid c1"
    "stream (conn_world c1) = concat (map frame_bytes fs) @ junk"
    using Cons.prems(2,3) parse_frame_bytes[of f "concat (map frame_bytes fs) @ junk"]
    by (cases "frame_read recv conn") (auto simp: frame_read_spec_def)
  obtain c2 where h: "handle k f (c1, s) = (c2, act k f s)" using handle_state[of k f c1 s] by (metis prod.collapse)
  have c2: "conn_valid c2" "stream (conn_world c2) = concat (map frame_bytes fs) @ junk"
    using handle_stream[OF assms(2), of k f c1 s] handle_valid[OF assms(2), of k f c1 s] r h by simp_all
  show ?case using Cons.IH[OF c2, of "Suc k" "act k f s"] Cons.prems(3)
    by (subst serve_frames.simps) (simp add: r(1) h Let_def)
qed

end

end
