(* ===== verification/Worker.thy ===== *)
theory Worker
  imports Coordinator Frame_Loop
begin

text \<open>
  The worker of \<open>include/warmth/worker.hpp\<close> and \<open>src/worker.cpp\<close>, and the thread the coordinator runs
  for each connection (\<open>process_connection\<close>). The application's \<open>WarmHook\<close> is a parameter with a state
  of its own. \<open>clock k i j\<close> is the \<open>j\<close>-th reading of \<open>now_ms\<close> for command \<open>i\<close> of frame \<open>k\<close>.
\<close>

section \<open>State\<close>

record worker =
  wk_id :: id128
  wk_boot :: id128
  wk_node :: id128
  wk_workload :: id128
  wk_backend :: string
  wk_devices :: "string list"
  wk_actions :: "u8 list"
  wk_observed :: "(id128, warmth_object) std_map"
  wk_epoch :: u64
  wk_warmth_gen :: u64
  wk_dep_gen :: u64
  wk_policy_gen :: u64
  wk_shutdown :: bool

definition new_worker :: "id128 \<Rightarrow> id128 \<Rightarrow> id128 \<Rightarrow> id128 \<Rightarrow> string \<Rightarrow> string list \<Rightarrow> u8 list \<Rightarrow> worker" where
  "new_worker i boot node workload backend devices actions = \<lparr>wk_id = i, wk_boot = boot, wk_node = node,
     wk_workload = workload, wk_backend = backend, wk_devices = devices, wk_actions = actions, wk_observed = [],
     wk_epoch = 0, wk_warmth_gen = 0, wk_dep_gen = 0, wk_policy_gen = 0, wk_shutdown = False\<rparr>"

text \<open>\<open>WarmHook::execute\<close>: success, duration and bytes, and the hook's next state.\<close>

type_synonym 'h warm_hook = "'h \<Rightarrow> id128 \<Rightarrow> u8 \<Rightarrow> (bool \<times> double \<times> u64) \<times> 'h"

definition synthetic_hook :: "'h warm_hook" where
  "synthetic_hook h object action =
     ((True, dbl_add (dbl_lit (1 / 2)) (dbl_mul (dbl_lit (1 / 4)) (dbl_of_int (uint action))), 2 ^ 28), h)"

text \<open>A frame with the default flags.\<close>

definition plain_frame :: "message_type \<Rightarrow> bytes \<Rightarrow> frame" where
  "plain_frame ty payload = \<lparr>fr_type = ty, fr_flags = 0, fr_payload = payload\<rparr>"

section \<open>Registration\<close>

definition worker_hello :: "worker \<Rightarrow> hello" where
  "worker_hello w = \<lparr>h_protocol_version = kProtocolVersion, h_worker = wk_id w, h_boot = wk_boot w, h_node = wk_node w,
     h_epoch_guess = 0, h_backend = wk_backend w, h_devices = wk_devices w, h_actions = wk_actions w,
     h_observed = map snd (wk_observed w)\<rparr>"

text \<open>What the worker makes of the reply.\<close>

definition worker_accept :: "frame \<Rightarrow> worker \<Rightarrow> bool \<times> worker" where
  "worker_accept reply w =
    (if fr_type reply \<noteq> MT_HELLO_ACK then (False, w)
     else case decode_hello_ack (fr_payload reply) of Inl _ \<Rightarrow> (False, w)
     | Inr (ack, rest) \<Rightarrow>
       if \<not> ha_accepted ack then (False, w)
       else (True, w\<lparr>wk_epoch := ha_epoch ack, wk_warmth_gen := ha_warmth_gen ack, wk_dep_gen := ha_dep_gen ack,
              wk_policy_gen := ha_policy_gen ack\<rparr>))"

text \<open>\<open>conn\<close> is what \<open>net::connect\<close> returned.\<close>

definition worker_connect ::
  "'w send_fn \<Rightarrow> 'w recv_fn \<Rightarrow> 'w connection \<Rightarrow> worker \<Rightarrow> bool \<times> 'w connection \<times> worker" where
  "worker_connect send recv conn w =
    (if \<not> conn_valid conn then (False, conn, w)
     else case frame_write send (plain_frame MT_HELLO (encode_hello (worker_hello w))) conn of (ok, c1) \<Rightarrow>
       if \<not> ok then (False, c1, w)
       else case frame_read recv c1 of (None, c2) \<Rightarrow> (False, c2, w)
         | (Some reply, c2) \<Rightarrow> case worker_accept reply w of (acc, w') \<Rightarrow> (acc, c2, w'))"

section \<open>Commands\<close>

definition worker_result :: "worker \<Rightarrow> warm_cmd \<Rightarrow> bool \<times> double \<times> u64 \<Rightarrow> warm_result" where
  "worker_result w cmd out = (case out of (ok, duration, bs) \<Rightarrow>
     \<lparr>wr_boot = wk_boot w, wr_epoch = wk_epoch w, wr_warmth_gen = wk_warmth_gen w, wr_dep_gen = wk_dep_gen w,
      wr_object = wc_object cmd, wr_action = wc_action cmd, wr_attempt = wc_attempt cmd, wr_success = ok,
      wr_duration_ms = duration, wr_bytes = bs, wr_error = (if ok then [] else ''warming_hook_failed'')\<rparr>)"

text \<open>The record the worker keeps of an object it has warmed.\<close>

definition worker_observe :: "(nat \<Rightarrow> timestamp) \<Rightarrow> warm_cmd \<Rightarrow> double \<Rightarrow> u64 \<Rightarrow> worker \<Rightarrow> worker" where
  "worker_observe clock cmd duration bs w = w\<lparr>wk_observed := map_set (wc_object cmd)
     (case map_find (wc_object cmd) (wk_observed w) of
        None \<Rightarrow> record_warm duration bs (clock 0) (clock 1)
          ((try_transition WARM ''warm_completed''
             (new_object (wc_object cmd) APPLICATION_DEFINED (wk_workload w) (wk_node w) ''cuda:0'' (wk_backend w)))
             \<lparr>wo_warmth_gen := wk_warmth_gen w\<rparr>)
      | Some o' \<Rightarrow> (try_transition WARM ''warm_completed'' o')\<lparr>wo_measured_cost_bytes := bs, wo_observed_ttr_ms := duration,
          wo_last_used := clock 0, wo_provenance := P_MEASURED\<rparr>) (wk_observed w)\<rparr>"

definition worker_command ::
  "'h warm_hook \<Rightarrow> (nat \<Rightarrow> timestamp) \<Rightarrow> warm_cmd \<Rightarrow> 'h \<times> worker \<Rightarrow> warm_result \<times> 'h \<times> worker" where
  "worker_command hook clock cmd = (\<lambda>(h, w).
     case hook h (wc_object cmd) (wc_action cmd) of (out, h') \<Rightarrow>
       (worker_result w cmd out, h',
        case out of (ok, duration, bs) \<Rightarrow> if ok then worker_observe clock cmd duration bs w else w))"

fun worker_commands ::
  "'h warm_hook \<Rightarrow> (nat \<Rightarrow> nat \<Rightarrow> timestamp) \<Rightarrow> nat \<Rightarrow> warm_cmd list \<Rightarrow> 'h \<times> worker \<Rightarrow> warm_result list \<times> 'h \<times> worker" where
  "worker_commands hook clock i [] hw = ([], hw)"
| "worker_commands hook clock i (cmd # cmds) hw =
     (case worker_command hook (clock i) cmd hw of (res, hw1) \<Rightarrow>
        case worker_commands hook clock (Suc i) cmds hw1 of (rs, hw2) \<Rightarrow> (res # rs, hw2))"

text \<open>The frames a handled frame makes the worker write, and its next state.\<close>

definition worker_react ::
  "'h warm_hook \<Rightarrow> (nat \<Rightarrow> nat \<Rightarrow> timestamp) \<Rightarrow> frame \<Rightarrow> 'h \<times> worker \<Rightarrow> frame list \<times> 'h \<times> worker" where
  "worker_react hook clock f hw = (case fr_type f of
       MT_WARM_TOPIC \<Rightarrow>
         (case decode_warm_topic (fr_payload f) of Inl _ \<Rightarrow> ([], hw)
          | Inr (topic, rest) \<Rightarrow> (case worker_commands hook clock 0 (wt_cmds topic) hw of (rs, hw') \<Rightarrow>
              (map (\<lambda>r. plain_frame MT_WARM_RESULT (encode_warm_result r)) rs, hw')))
     | MT_PING \<Rightarrow> ([plain_frame MT_PONG []], hw)
     | MT_SHUTDOWN \<Rightarrow> ([], (fst hw, (snd hw)\<lparr>wk_shutdown := True\<rparr>))
     | MT_ERROR \<Rightarrow> ([], hw)
     | _ \<Rightarrow> ([], hw))"

definition worker_handle_frame ::
  "'w send_fn \<Rightarrow> 'h warm_hook \<Rightarrow> (nat \<Rightarrow> nat \<Rightarrow> nat \<Rightarrow> timestamp) \<Rightarrow> nat \<Rightarrow> frame \<Rightarrow>
     'w connection \<times> 'h \<times> worker \<Rightarrow> 'w connection \<times> 'h \<times> worker" where
  "worker_handle_frame send hook clock k f = (\<lambda>(conn, hw).
     case worker_react hook (clock k) f hw of (fs, hw') \<Rightarrow> (write_frames send fs conn, hw'))"

definition worker_run ::
  "'w send_fn \<Rightarrow> 'w recv_fn \<Rightarrow> 'h warm_hook \<Rightarrow> (nat \<Rightarrow> nat \<Rightarrow> nat \<Rightarrow> timestamp) \<Rightarrow> 'w connection \<Rightarrow> 'h \<times> worker \<Rightarrow>
     ('w connection \<times> 'h \<times> worker) option" where
  "worker_run send recv hook clock conn hw =
     serve_frames recv (worker_handle_frame send hook clock) (\<lambda>hw. wk_shutdown (snd hw)) 0 conn hw"

definition request_shutdown :: "'w send_fn \<Rightarrow> 'w connection \<Rightarrow> worker \<Rightarrow> 'w connection \<times> worker" where
  "request_shutdown send conn w =
    (if conn_valid conn then snd (frame_write send (plain_frame MT_SHUTDOWN []) conn) else conn, w\<lparr>wk_shutdown := True\<rparr>)"

section \<open>The coordinator's connection thread\<close>

text \<open>\<open>env k\<close> is what other threads do to the coordinator before frame \<open>k\<close> is handled; the replies of a
  handler go to the connection the frame came from.\<close>

definition connection_handle ::
  "'w send_fn \<Rightarrow> nat \<Rightarrow> (nat \<Rightarrow> nat \<Rightarrow> timestamp) \<Rightarrow> (nat \<Rightarrow> coordinator \<Rightarrow> coordinator) \<Rightarrow> nat \<Rightarrow> frame \<Rightarrow>
     'w connection \<times> coordinator \<Rightarrow> 'w connection \<times> coordinator" where
  "connection_handle send cid clock env k f = (\<lambda>(conn, c).
     case handle_frame cid (clock k) f (env k c) of (fs, c') \<Rightarrow>
       (write_frames send (map (\<lambda>(_, ty, p). plain_frame ty p) fs) conn, c'))"

definition process_connection ::
  "'w send_fn \<Rightarrow> 'w recv_fn \<Rightarrow> nat \<Rightarrow> (nat \<Rightarrow> nat \<Rightarrow> timestamp) \<Rightarrow> (nat \<Rightarrow> timestamp) \<Rightarrow> (nat \<Rightarrow> coordinator \<Rightarrow> coordinator) \<Rightarrow>
     'w connection \<Rightarrow> coordinator \<Rightarrow> ('w connection \<times> coordinator) option" where
  "process_connection send recv cid clock clock' env conn c =
    (case serve_frames recv (connection_handle send cid clock env) (\<lambda>_. False) 0 conn c of
       None \<Rightarrow> None
     | Some (conn', c') \<Rightarrow> Some (conn', on_disconnect cid clock' c'))"

interpretation worker_frames: frame_handler send "worker_handle_frame send hook clock"
  "\<lambda>k f hw. snd (worker_react hook (clock k) f hw)" for send hook clock
  by unfold_locales (auto simp: worker_handle_frame_def write_frames_duplex split: prod.split)

interpretation connection_frames: frame_handler send "connection_handle send cid clock env"
  "\<lambda>k f c. snd (handle_frame cid (clock k) f (env k c))" for send cid clock env
  by unfold_locales (auto simp: connection_handle_def write_frames_duplex split: prod.split)

section \<open>Authority\<close>

text \<open>The coordinator accepts what this worker sends on this connection.\<close>

definition in_sync :: "nat \<Rightarrow> worker \<Rightarrow> coordinator \<Rightarrow> bool" where
  "in_sync cid w c \<longleftrightarrow> authority_ok cid (wk_boot w) (wk_epoch w) (wk_warmth_gen w) (wk_dep_gen w) c"

text \<open>Registering keeps the generations; only the connection itself changes among the connections.\<close>

definition authority_view :: "coordinator \<Rightarrow> (nat, conn_state) std_map \<times> generation \<times> u64 \<times> u64 \<times> generation" where
  "authority_view c = (co_conns c, co_epoch c, co_warmth_gen c, co_dep_gen c, co_policy_gen c)"

lemma authority_view_observe: "authority_view (fold (hello_observe w) os c) = authority_view c"
  by (induction os arbitrary: c) (simp_all add: authority_view_def hello_observe_def worker_objects_insert_def split: option.split)

lemma authority_view_modify:
  "authority_view (on_worker_objects g ids c) = authority_view c"
proof -
  have "authority_view (fold (\<lambda>(k, i) c. c\<lparr>co_objects := map_modify i (g k) (co_objects c)\<rparr>) xs c) = authority_view c" for xs
    by (induction xs arbitrary: c) (auto simp: authority_view_def)
  then show ?thesis by (simp add: on_worker_objects_def)
qed

lemma authority_view_invalidate: "authority_view (invalidate_worker_objects_locked w c) = authority_view c"
  using authority_view_modify[of "\<lambda>_. lose_authority ''worker_boot_changed'' ''worker_boot_changed''"]
  by (simp add: invalidate_worker_objects_locked_def authority_view_def split: option.split)

definition stale_boot :: "hello \<Rightarrow> coordinator \<Rightarrow> bool" where
  "stale_boot h c \<longleftrightarrow> (\<exists>other. map_find (h_worker h) (co_workers c) = Some other \<and> cn_boot (conn_of other c) \<noteq> h_boot h)"

lemma hello_register_cases:
  "if stale_boot h c then hello_register cid h c = ((False, ''stale boot (worker already registered)''), c)
   else \<exists>c'. hello_register cid h c = ((True, []), c') \<and> cn_registered (conn_of cid c') \<and> cn_boot (conn_of cid c') = h_boot h
     \<and> co_epoch c' = co_epoch c \<and> co_warmth_gen c' = co_warmth_gen c \<and> co_dep_gen c' = co_dep_gen c \<and> co_policy_gen c' = co_policy_gen c"
proof (cases "stale_boot h c")
  case True
  then show ?thesis by (auto simp: hello_register_def stale_boot_def)
next
  case False
  define c1 where "c1 = (case map_find (h_worker h) (co_last_boot c) of
      Some b \<Rightarrow> if b \<noteq> h_boot h then invalidate_worker_objects_locked (h_worker h) c else c | None \<Rightarrow> c)"
  have c1: "authority_view c1 = authority_view c" by (simp add: c1_def authority_view_invalidate split: option.split)
  define c2 where "c2 = c1\<lparr>co_last_boot := map_set (h_worker h) (h_boot h) (co_last_boot c1),
     co_conns := map_set cid \<lparr>cn_id = h_worker h, cn_boot = h_boot h, cn_node = h_node h,
        cn_registered = True, cn_backend = h_backend h\<rparr> (co_conns c1),
     co_workers := map_set (h_worker h) cid (co_workers c1)\<rparr>"
  define c3 where "c3 = fold (hello_observe (h_worker h)) (h_observed h) c2"
  have c3: "authority_view c3 = authority_view c2" by (simp add: c3_def authority_view_observe)
  have "hello_register cid h c = ((True, []), c3)"
    using False unfolding hello_register_def Let_def c1_def[symmetric] c2_def[symmetric] c3_def[symmetric]
    by (auto simp: stale_boot_def split: option.splits)
  then show ?thesis using False c3 c1 by (simp add: authority_view_def c2_def conn_of_def)
qed

text \<open>The handshake: the worker takes the reply as acceptance exactly when its id is not registered with
  another boot, and then its authority is current; otherwise neither side changes.\<close>

lemma handshake:
  assumes "hello_ok (worker_hello w)"
  shows "\<exists>p c' w'. handle_frame cid clock (plain_frame MT_HELLO (encode_hello (worker_hello w))) c = ([(cid, MT_HELLO_ACK, p)], c')
    \<and> worker_accept (plain_frame MT_HELLO_ACK p) w = (\<not> stale_boot (worker_hello w) c, w')
    \<and> (if stale_boot (worker_hello w) c then c' = c \<and> w' = w else in_sync cid w' c')"
proof -
  let ?h = "worker_hello w" and ?n = "hello_nf (worker_hello w)"
  have d: "decode_hello (encode_hello ?h) = Inr (?n, [])" using decode_hello_encode[OF assms, of "[]"] by simp
  have n: "h_protocol_version ?n = kProtocolVersion" "h_boot ?n = wk_boot w" "stale_boot ?n c = stale_boot ?h c"
    by (simp_all add: hello_nf_def worker_hello_def stale_boot_def)
  have ack: "decode_hello_ack (encode_hello_ack a) = Inr (a, [])" if "length (ha_reason a) < 2 ^ 32" for a
    using hello_ack_codec.dec_enc[OF that, of "[]"] by simp
  show ?thesis
  proof (cases "stale_boot ?h c")
    case True
    then have "hello_register cid ?n c = ((False, ''stale boot (worker already registered)''), c)"
      using hello_register_cases[of ?n c cid] n(3) by simp
    then show ?thesis using True
      by (simp add: handle_frame_def handle_hello_def plain_frame_def d n(1) worker_accept_def ack)
  next
    case False
    then obtain c' where "hello_register cid ?n c = ((True, []), c')" "cn_registered (conn_of cid c')"
      "cn_boot (conn_of cid c') = wk_boot w" using hello_register_cases[of ?n c cid] n by auto
    then show ?thesis using False
      by (simp add: handle_frame_def handle_hello_def plain_frame_def d n(1) worker_accept_def ack in_sync_def authority_ok_def)
  qed
qed

section \<open>One command\<close>

lemma worker_reacts_to_topic:
  assumes "hook h object (action_code action) = (out, h')"
  shows "\<exists>w'. worker_react hook clock (plain_frame MT_WARM_TOPIC (encode_warm_topic (warm_topic_for object action a c))) (h, w)
    = ([plain_frame MT_WARM_RESULT (encode_warm_result
          (worker_result w \<lparr>wc_object = object, wc_action = action_code action, wc_attempt = a\<rparr> out))], (h', w'))"
proof -
  let ?t = "warm_topic_for object action a c"
  have "decode_warm_topic (encode_warm_topic ?t) = Inr (?t, [])"
    using warm_topic_codec.dec_enc[of ?t "[]"] by (simp add: warm_topic_for_def)
  then show ?thesis using assms
    by (simp add: worker_react_def plain_frame_def) (simp add: warm_topic_for_def worker_command_def)
qed

text \<open>From the coordinator to the worker and back.\<close>

lemma warming_round_trip:
  assumes "co_inv (Suc n) c" "in_sync target w c"
    and i: "issue_begin object action preferred c = (Some (a, (target, mt, bs)), c1)"
    and h: "hook h object (action_code action) = ((True, d, b), h')"
  shows "\<exists>reply w' c' o'. worker_react hook clock (plain_frame mt bs) (h, w) = ([reply], (h', w'))
    \<and> handle_frame target clock' reply c1 = ([], c')
    \<and> co_in_flight c' = co_in_flight c \<and> opens_of (co_budget c') = opens_of (co_budget c)
    \<and> find_object object c' = Some o' \<and> is_execution_ready (wo_state o') \<and> wo_warmth_gen o' = co_warmth_gen c"
proof -
  let ?r = "worker_result w \<lparr>wc_object = object, wc_action = action_code action, wc_attempt = a\<rparr> (True, d, b)"
  have bs: "mt = MT_WARM_TOPIC" "bs = encode_warm_topic (warm_topic_for object action a c1)"
    and view: "authority_view c1 = authority_view c"
    using i assms(1) by (cases rule: issue_begin_cases, simp_all add: authority_view_def)+
  obtain w' where r: "worker_react hook clock (plain_frame mt bs) (h, w)
      = ([plain_frame MT_WARM_RESULT (encode_warm_result ?r)], (h', w'))"
    using worker_reacts_to_topic[of hook h object action "(True, d, b)" h' clock a c1 w, OF h] bs by auto
  have dec: "decode_warm_result (encode_warm_result ?r) = Inr (?r, [])"
    using warm_result_codec.dec_enc[of ?r "[]"] by (simp add: worker_result_def)
  have fields: "wr_attempt ?r = a" "wr_object ?r = object" "wr_success ?r" by (simp_all add: worker_result_def)
  have au: "authority_ok target (wr_boot ?r) (wr_epoch ?r) (wr_warmth_gen ?r) (wr_dep_gen ?r) c1"
    using assms(2) view by (simp add: in_sync_def worker_result_def authority_ok_def conn_of_def authority_view_def)
  show ?thesis using issue_then_result[OF assms(1) i dec fields au, of clock'] r
    by (auto simp: handle_frame_def plain_frame_def find_object_def)
qed

end
