(* ===== verification/Sockets.thy ===== *)
theory Sockets
  imports Transport
begin

text \<open>
  Creating, moving and closing sockets (\<open>src/transport.cpp\<close>, POSIX branch). The system calls are a
  parameter, a record of functions on the state \<open>'w\<close> of the operating system; results are what the code
  looks at. \<open>os_ok\<close> is their documented behaviour with respect to the set of open descriptors; the
  lemmas say that no path through listen, accept, connect, move and close leaks a descriptor or closes
  a foreign one.
\<close>

section \<open>System calls\<close>

definition invalid_socket :: int where
  "invalid_socket = - 1"

text \<open>\<open>os_pton host a\<close>: the address \<open>inet_pton\<close> leaves in a variable that holds \<open>a\<close>, in host byte order.\<close>

record 'w os =
  os_socket :: "'w \<Rightarrow> int \<times> 'w"
  os_reuseaddr :: "int \<Rightarrow> 'w \<Rightarrow> 'w"
  os_pton :: "string \<Rightarrow> u32 \<Rightarrow> u32"
  os_bind :: "int \<Rightarrow> u32 \<Rightarrow> u16 \<Rightarrow> 'w \<Rightarrow> int \<times> 'w"
  os_listen :: "int \<Rightarrow> int \<Rightarrow> 'w \<Rightarrow> int \<times> 'w"
  os_getsockname :: "int \<Rightarrow> 'w \<Rightarrow> u16 \<times> 'w"
  os_accept :: "int \<Rightarrow> 'w \<Rightarrow> int \<times> 'w"
  os_connect :: "int \<Rightarrow> u32 \<Rightarrow> u16 \<Rightarrow> 'w \<Rightarrow> int \<times> 'w"
  os_shutdown :: "int \<Rightarrow> 'w \<Rightarrow> 'w"
  os_close :: "int \<Rightarrow> 'w \<Rightarrow> 'w"

definition inaddr_any :: u32 where
  "inaddr_any = 0"

definition inaddr_loopback :: u32 where
  "inaddr_loopback = 0x7F000001"

definition socket_init :: "'w \<Rightarrow> bool \<times> 'w" where
  "socket_init w = (True, w)"

definition socket_cleanup :: "'w \<Rightarrow> 'w" where
  "socket_cleanup w = w"

section \<open>Connections\<close>

text \<open>A \<open>TcpConnection\<close> is the descriptor it owns.\<close>

definition tcp_valid :: "int \<Rightarrow> bool" where
  "tcp_valid s \<longleftrightarrow> s \<noteq> invalid_socket"

definition tcp_close :: "'w os \<Rightarrow> int \<times> 'w \<Rightarrow> int \<times> 'w" where
  "tcp_close os = (\<lambda>(s, w). if \<not> tcp_valid s then (s, w) else (invalid_socket, os_close os s (os_shutdown os s w)))"

text \<open>The destructor runs \<open>close\<close>; only the operating system is left.\<close>

definition tcp_destroy :: "'w os \<Rightarrow> int \<times> 'w \<Rightarrow> 'w" where
  "tcp_destroy os c = snd (tcp_close os c)"

text \<open>Moving: the new owner and what is left of the old one.\<close>

definition tcp_move :: "int \<Rightarrow> int \<times> int" where
  "tcp_move src = (src, invalid_socket)"

text \<open>\<open>same\<close>: source and destination are one object.\<close>

definition tcp_move_assign :: "'w os \<Rightarrow> bool \<Rightarrow> int \<Rightarrow> int \<Rightarrow> 'w \<Rightarrow> int \<times> int \<times> 'w" where
  "tcp_move_assign os same dst src w =
    (if same then (dst, src, w) else (src, invalid_socket, snd (tcp_close os (dst, w))))"

section \<open>Listeners\<close>

record listener =
  ls_sock :: int
  ls_port :: u16

definition new_listener :: listener where
  "new_listener = \<lparr>ls_sock = invalid_socket, ls_port = 0\<rparr>"

definition listener_close :: "'w os \<Rightarrow> listener \<times> 'w \<Rightarrow> listener \<times> 'w" where
  "listener_close os = (\<lambda>(l, w). if ls_sock l = invalid_socket then (l, w)
     else (l\<lparr>ls_sock := invalid_socket\<rparr>, os_close os (ls_sock l) w))"

definition listener_destroy :: "'w os \<Rightarrow> listener \<times> 'w \<Rightarrow> 'w" where
  "listener_destroy os l = snd (listener_close os l)"

definition listen_address :: "'w os \<Rightarrow> string \<Rightarrow> u32" where
  "listen_address os host = (if host \<in> {''localhost'', ''127.0.0.1'', []} then inaddr_loopback else os_pton os host inaddr_any)"

text \<open>A failure after the socket was created closes it and returns false.\<close>

definition listen_fail :: "'w os \<Rightarrow> listener \<Rightarrow> 'w \<Rightarrow> bool \<times> listener \<times> 'w" where
  "listen_fail os l w = (False, listener_close os (l, w))"

definition tcp_listen :: "'w os \<Rightarrow> string \<Rightarrow> u16 \<Rightarrow> listener \<times> 'w \<Rightarrow> bool \<times> listener \<times> 'w" where
  "tcp_listen os host port lw =
    (case lw of (l0, w0) \<Rightarrow>
     let (init, w1) = socket_init w0;
         (l1, w2) = listener_close os (l0, w1);
         (s, w3) = os_socket os w2;
         l = l1\<lparr>ls_sock := s\<rparr>
     in if s = invalid_socket then (False, l, w3)
        else let (b, w4) = os_bind os s (listen_address os host) port (os_reuseaddr os s w3)
        in if b \<noteq> 0 then listen_fail os l w4
        else let (r, w5) = os_listen os s 16 w4
        in if r \<noteq> 0 then listen_fail os l w5
        else let (p, w6) = os_getsockname os s w5
        in (True, l\<lparr>ls_port := p\<rparr>, w6))"

definition tcp_accept :: "'w os \<Rightarrow> listener \<Rightarrow> 'w \<Rightarrow> int option \<times> 'w" where
  "tcp_accept os l w =
    (if ls_sock l = invalid_socket then (None, w)
     else case os_accept os (ls_sock l) w of (s, w') \<Rightarrow> (if s = invalid_socket then None else Some s, w'))"

definition tcp_connect :: "'w os \<Rightarrow> string \<Rightarrow> u16 \<Rightarrow> 'w \<Rightarrow> int \<times> 'w" where
  "tcp_connect os host port w =
    (let (init, w1) = socket_init w;
         (s, w2) = os_socket os w1
     in if s = invalid_socket then (invalid_socket, w2)
        else let (r, w3) = os_connect os s (os_pton os host inaddr_any) port w2
        in if r \<noteq> 0 then (invalid_socket, os_close os s w3) else (s, w3))"

section \<open>Descriptors\<close>

text \<open>\<open>socket\<close> and \<open>accept\<close> return a descriptor that was not open, or fail and open nothing; \<open>close\<close>
  closes the one it is given; the other calls open and close nothing.\<close>

definition os_ok :: "'w os \<Rightarrow> ('w \<Rightarrow> int set) \<Rightarrow> bool" where
  "os_ok os fds \<longleftrightarrow>
    (\<forall>w s w'. os_socket os w = (s, w') \<longrightarrow> (if s = invalid_socket then fds w' = fds w else s \<notin> fds w \<and> fds w' = insert s (fds w)))
    \<and> (\<forall>l w s w'. os_accept os l w = (s, w') \<longrightarrow> (if s = invalid_socket then fds w' = fds w else s \<notin> fds w \<and> fds w' = insert s (fds w)))
    \<and> (\<forall>s w. fds (os_close os s w) = fds w - {s})
    \<and> (\<forall>s w. fds (os_reuseaddr os s w) = fds w) \<and> (\<forall>s w. fds (os_shutdown os s w) = fds w)
    \<and> (\<forall>s a p w. fds (snd (os_bind os s a p w)) = fds w) \<and> (\<forall>s n w. fds (snd (os_listen os s n w)) = fds w)
    \<and> (\<forall>s w. fds (snd (os_getsockname os s w)) = fds w) \<and> (\<forall>s a p w. fds (snd (os_connect os s a p w)) = fds w)"

lemma os_ok_calls:
  assumes "os_ok os fds"
  shows "os_socket os w = (s, w') \<Longrightarrow> s \<noteq> invalid_socket \<Longrightarrow> s \<notin> fds w \<and> fds w' = insert s (fds w)"
    and "os_socket os w = (invalid_socket, w') \<Longrightarrow> fds w' = fds w"
    and "os_accept os l w = (s, w') \<Longrightarrow> s \<noteq> invalid_socket \<Longrightarrow> s \<notin> fds w \<and> fds w' = insert s (fds w)"
    and "os_accept os l w = (invalid_socket, w') \<Longrightarrow> fds w' = fds w"
    and "fds (os_close os s w) = fds w - {s}"
    and "fds (os_reuseaddr os s w) = fds w" and "fds (os_shutdown os s w) = fds w"
    and "os_bind os s a p w = (r, w') \<Longrightarrow> fds w' = fds w"
    and "os_listen os s n w = (r, w') \<Longrightarrow> fds w' = fds w"
    and "os_getsockname os s w = (q, w') \<Longrightarrow> fds w' = fds w"
    and "os_connect os s a p w = (r, w') \<Longrightarrow> fds w' = fds w"
  using assms unfolding os_ok_def by (metis snd_conv)+

text \<open>The descriptors a listener or a connection owns.\<close>

definition owned :: "int \<Rightarrow> int set" where
  "owned s = {s} - {invalid_socket}"

lemma owned_simps [simp]: "owned invalid_socket = {}" "s \<noteq> invalid_socket \<Longrightarrow> owned s = {s}"
  by (auto simp: owned_def)

lemma tcp_close_fds:
  "os_ok os fds \<Longrightarrow> tcp_close os (s, w) = (s', w') \<Longrightarrow> s' = invalid_socket \<and> fds w' = fds w - owned s"
  using os_ok_calls(5,7)[of os fds] by (auto simp: tcp_close_def tcp_valid_def split: if_splits)

lemma listener_close_fds:
  "os_ok os fds \<Longrightarrow> listener_close os (l, w) = (l', w') \<Longrightarrow>
     ls_sock l' = invalid_socket \<and> ls_port l' = ls_port l \<and> fds w' = fds w - owned (ls_sock l)"
  using os_ok_calls(5)[of os fds] by (auto simp: listener_close_def split: if_splits)

lemma listen_fail_fds:
  assumes "os_ok os fds" "ls_sock l = s" "s \<noteq> invalid_socket" "s \<notin> A" "fds w = insert s A"
  shows "\<exists>l' w'. listen_fail os l w = (False, l', w') \<and> ls_sock l' = invalid_socket \<and> fds w' = A"
  using listener_close_fds[OF assms(1), of l w] assms(2-5)
  by (cases "listener_close os (l, w)") (auto simp: listen_fail_def)

text \<open>\<open>listen\<close> first gives up the old socket; it ends with a new one or with none.\<close>

lemma tcp_listen_fds:
  assumes ok: "os_ok os fds" and r: "tcp_listen os host port (l, w) = (b, l', w')"
  shows "b = (ls_sock l' \<noteq> invalid_socket) \<and> owned (ls_sock l') \<inter> (fds w - owned (ls_sock l)) = {}
    \<and> fds w' = fds w - owned (ls_sock l) \<union> owned (ls_sock l')"
proof -
  note calls = os_ok_calls[OF ok]
  obtain l1 w2 where c: "listener_close os (l, w) = (l1, w2)" by (cases "listener_close os (l, w)")
  have w2: "fds w2 = fds w - owned (ls_sock l)" using listener_close_fds[OF ok c] by simp
  obtain s w3 where s: "os_socket os w2 = (s, w3)" by (cases "os_socket os w2")
  show ?thesis
  proof (cases "s = invalid_socket")
    case True
    then show ?thesis using r c s w2 calls(2)[of w2 w3] by (auto simp: tcp_listen_def socket_init_def)
  next
    case False
    have new: "s \<notin> fds w2" and w3: "fds w3 = insert s (fds w2)" using calls(1)[OF s False] by auto
    have fail: "b = False \<and> ls_sock l' = invalid_socket \<and> fds w' = fds w2"
      if "listen_fail os (l1\<lparr>ls_sock := s\<rparr>) v = (b, l', w')" "fds v = fds w3" for v
      using listen_fail_fds[OF ok, of "l1\<lparr>ls_sock := s\<rparr>" s "fds w2" v] that False new w3 by auto
    obtain rb w4 where b: "os_bind os s (listen_address os host) port (os_reuseaddr os s w3) = (rb, w4)"
      by (cases "os_bind os s (listen_address os host) port (os_reuseaddr os s w3)")
    have w4: "fds w4 = fds w3" using calls(8)[OF b] calls(6)[of s w3] by simp
    obtain rl w5 where li: "os_listen os s 16 w4 = (rl, w5)" by (cases "os_listen os s 16 w4")
    have w5: "fds w5 = fds w3" using calls(9)[OF li] w4 by simp
    obtain q w6 where g: "os_getsockname os s w5 = (q, w6)" by (cases "os_getsockname os s w5")
    have w6: "fds w6 = fds w3" using calls(10)[OF g] w5 by simp
    have eq: "(if rb \<noteq> 0 then listen_fail os (l1\<lparr>ls_sock := s\<rparr>) w4
        else if rl \<noteq> 0 then listen_fail os (l1\<lparr>ls_sock := s\<rparr>) w5
        else (True, l1\<lparr>ls_sock := s, ls_port := q\<rparr>, w6)) = (b, l', w')"
      using r False by (simp add: tcp_listen_def socket_init_def Let_def c s b li g cong: if_cong)
    consider "rb \<noteq> 0 \<or> rl \<noteq> 0" | "rb = 0" "rl = 0" by blast
    then have "b \<and> ls_sock l' = s \<and> w' = w6 \<or> \<not> b \<and> ls_sock l' = invalid_socket \<and> fds w' = fds w2"
      using eq fail[of w4] fail[of w5] w4 w5 by cases (auto split: if_splits)
    then show ?thesis using False new w2 w3 w6 by auto
  qed
qed

lemma tcp_accept_fds:
  assumes "os_ok os fds" "tcp_accept os l w = (r, w')"
  shows "case r of None \<Rightarrow> fds w' = fds w
    | Some s \<Rightarrow> tcp_valid s \<and> ls_sock l \<noteq> invalid_socket \<and> s \<notin> fds w \<and> fds w' = insert s (fds w)"
  using assms(2) os_ok_calls(3,4)[OF assms(1), of "ls_sock l" w]
  by (auto simp: tcp_accept_def tcp_valid_def split: if_splits prod.splits)

lemma tcp_connect_fds:
  assumes "os_ok os fds" "tcp_connect os host port w = (s, w')"
  shows "owned s \<inter> fds w = {} \<and> fds w' = fds w \<union> owned s"
proof -
  note calls = os_ok_calls[OF assms(1)]
  obtain t w2 where t: "os_socket os w = (t, w2)" by (cases "os_socket os w")
  obtain r w3 where c: "os_connect os t (os_pton os host inaddr_any) port w2 = (r, w3)"
    by (cases "os_connect os t (os_pton os host inaddr_any) port w2")
  have "fds w3 = fds w2" by (rule calls(11)[OF c])
  then show ?thesis using assms(2) t c calls(1)[OF t] calls(2)[of w w2] calls(5)[of t w3]
    by (auto simp: tcp_connect_def socket_init_def split: if_splits)
qed

lemma tcp_move_assign_fds:
  assumes "os_ok os fds" "tcp_move_assign os False dst src w = (dst', src', w')"
  shows "dst' = src \<and> src' = invalid_socket \<and> fds w' = fds w - owned dst"
  using assms(2) tcp_close_fds[OF assms(1), of dst w "fst (tcp_close os (dst, w))" "snd (tcp_close os (dst, w))"]
  by (auto simp: tcp_move_assign_def)

section \<open>The address\<close>

text \<open>A host that is no dotted address: \<open>listen\<close> then takes all interfaces, unless it is \<open>localhost\<close>
  or empty, and \<open>connect\<close> the address 0.0.0.0, also for \<open>localhost\<close>.\<close>

lemma listen_address_unparsed:
  "os_pton os host inaddr_any = inaddr_any \<Longrightarrow> host \<noteq> ''localhost'' \<Longrightarrow> host \<noteq> ''127.0.0.1'' \<Longrightarrow> host \<noteq> [] \<Longrightarrow>
     listen_address os host = inaddr_any"
  by (simp add: listen_address_def)

lemma listen_address_local [simp]:
  "listen_address os ''localhost'' = inaddr_loopback" "listen_address os ''127.0.0.1'' = inaddr_loopback"
  "listen_address os [] = inaddr_loopback"
  by (simp_all add: listen_address_def)

end
