(* ===== verification/Server.thy ===== *)
theory Server
  imports Worker Sockets
begin

text \<open>
  The threads of \<open>src/coordinator.cpp\<close>: the accept loop, one thread per connection, the caller of
  \<open>stop\<close>, a caller of \<open>wait_until_settled\<close>, and callers of the other public operations. An event is one
  atomic step of one of them; what a peer or the scheduler decides is the choice of the event, and an
  event that is not possible gives \<open>None\<close>. Every event is a \<open>co_step\<close> of the metadata or leaves it alone, so
  the accounts of \<open>Coordinator\<close> hold in every run; the other lemmas are about the threads themselves.
  \<open>sv_open\<close> tells for a running thread whether its socket is open; what becomes of the descriptor after the
  thread has ended is not followed.
\<close>

section \<open>State\<close>

text \<open>A connection thread is in \<open>reader.read\<close> or has read a frame it will handle.\<close>

datatype conn_thread = Reading | Handling frame

text \<open>The accept loop is in \<open>listener_.accept\<close>, or holds what it returned, or has left the loop.\<close>

datatype accept_loop = Accepting | Accepted | Left_Loop

text \<open>The caller of \<open>wait_until_settled\<close>: outside, has seen the predicate false under \<open>warm_mutex_\<close>, asleep
  on the condition variable, or woken and about to test again.\<close>

datatype waiter = Not_Waiting | Checked | Asleep | Woken

record server =
  sv_co :: coordinator
  sv_listening :: bool
  sv_stopping :: bool
  sv_joined :: bool
  sv_loop :: accept_loop
  sv_open :: "nat list"
  sv_threads :: "nat list"
  sv_running :: "(nat, conn_thread) std_map"
  sv_next :: nat
  sv_waiter :: waiter

definition new_server :: server where
  "new_server = \<lparr>sv_co = new_coordinator, sv_listening = True, sv_stopping = False, sv_joined = False, sv_loop = Accepting,
     sv_open = [], sv_threads = [], sv_running = [], sv_next = 0, sv_waiter = Not_Waiting\<rparr>"

section \<open>Operations\<close>

text \<open>\<open>on_connection\<close>: a shared \<open>ConnState\<close> and a thread for it.\<close>

definition start_connection :: "server \<Rightarrow> server" where
  "start_connection s = s\<lparr>sv_co := on_connection (sv_next s) (sv_co s), sv_open := sv_next s # sv_open s,
     sv_threads := sv_threads s @ [sv_next s], sv_running := map_set (sv_next s) Reading (sv_running s),
     sv_next := Suc (sv_next s)\<rparr>"

text \<open>\<open>stop\<close> up to the joins: only the connections in \<open>workers_\<close> are closed.\<close>

definition server_stop :: "server \<Rightarrow> server" where
  "server_stop s = (if sv_stopping s then s
     else s\<lparr>sv_stopping := True, sv_listening := False,
        sv_open := filter (\<lambda>cid. cid \<notin> snd ` set (co_workers (sv_co s))) (sv_open s)\<rparr>)"

text \<open>A frame after which \<open>handle_frame\<close> calls \<open>notify_all\<close>.\<close>

definition frame_notifies :: "nat \<Rightarrow> frame \<Rightarrow> coordinator \<Rightarrow> bool" where
  "frame_notifies cid f c \<longleftrightarrow> fr_type f = MT_WARM_RESULT \<and> (case decode_warm_result (fr_payload f) of Inl _ \<Rightarrow> False
     | Inr (res, rest) \<Rightarrow> authority_ok cid (wr_boot res) (wr_epoch res) (wr_warmth_gen res) (wr_dep_gen res) c
         \<and> (case map_find (wr_attempt res) (co_in_flight c) of None \<Rightarrow> False
            | Some info \<Rightarrow> at_worker info = cn_id (conn_of cid c) \<and> at_object info = wr_object res))"

definition notify_all :: "bool \<Rightarrow> waiter \<Rightarrow> waiter" where
  "notify_all b w = (if b \<and> w = Asleep then Woken else w)"

text \<open>The public operations that need no thread of their own.\<close>

datatype coordinator_call = Bump_Dependency | Bump_Warmth | Roll | Issue id128 warmth_action "id128 option" | Rollback u64

fun call_coordinator :: "coordinator_call \<Rightarrow> coordinator \<Rightarrow> coordinator" where
  "call_coordinator Bump_Dependency c = co_bump_dependency_generation c"
| "call_coordinator Bump_Warmth c = co_bump_warmth_generation c"
| "call_coordinator Roll c = roll_epoch c"
| "call_coordinator (Issue object action preferred) c = snd (issue_begin object action preferred c)"
| "call_coordinator (Rollback a) c = issue_rollback a c"

fun call_notifies :: "coordinator_call \<Rightarrow> bool" where
  "call_notifies Roll = True"
| "call_notifies (Rollback a) = True"
| "call_notifies _ = False"

text \<open>The flag of an accept event is the reading of the caller's \<open>stop\<close> after it.\<close>

datatype server_event =
    Listener_Accepts | Listener_Fails bool | Connection_Starts bool | Handle_One
  | Thread_Reads nat frame | Thread_Handles nat "nat \<Rightarrow> timestamp" | Thread_Ends nat "nat \<Rightarrow> timestamp"
  | Stop_Begins | Stop_Joins | Wait_Checks | Wait_Sleeps | Public coordinator_call

fun server_step :: "server_event \<Rightarrow> server \<Rightarrow> server option" where
  "server_step Listener_Accepts s =
    (if sv_loop s = Accepting \<and> sv_listening s then Some (s\<lparr>sv_loop := Accepted\<rparr>) else None)"
| "server_step (Listener_Fails flag) s =
    (if sv_loop s = Accepting then Some (s\<lparr>sv_loop := if flag \<or> sv_stopping s then Left_Loop else Accepting\<rparr>) else None)"
| "server_step (Connection_Starts flag) s =
    (if sv_loop s = Accepted then Some ((start_connection s)\<lparr>sv_loop := if flag then Left_Loop else Accepting\<rparr>) else None)"
| "server_step Handle_One s = (if sv_listening s then Some (start_connection s) else None)"
| "server_step (Thread_Reads cid f) s =
    (if map_find cid (sv_running s) = Some Reading \<and> cid \<in> set (sv_open s)
     then Some (s\<lparr>sv_running := map_set cid (Handling f) (sv_running s)\<rparr>) else None)"
| "server_step (Thread_Handles cid clock) s = (case map_find cid (sv_running s) of
       Some (Handling f) \<Rightarrow> Some (s\<lparr>sv_co := snd (handle_frame cid clock f (sv_co s)),
         sv_running := map_set cid Reading (sv_running s), sv_waiter := notify_all (frame_notifies cid f (sv_co s)) (sv_waiter s)\<rparr>)
     | _ \<Rightarrow> None)"
| "server_step (Thread_Ends cid clock) s =
    (if map_find cid (sv_running s) = Some Reading
     then Some (s\<lparr>sv_co := on_disconnect cid clock (sv_co s), sv_running := map_erase cid (sv_running s)\<rparr>) else None)"
| "server_step Stop_Begins s = Some (server_stop s)"
| "server_step Stop_Joins s =
    (if sv_stopping s \<and> \<not> sv_joined s \<and> (\<forall>cid \<in> set (sv_threads s). map_find cid (sv_running s) = None)
     then Some (s\<lparr>sv_joined := True, sv_threads := []\<rparr>) else None)"
| "server_step Wait_Checks s =
    (if sv_waiter s = Not_Waiting \<or> sv_waiter s = Woken
     then Some (s\<lparr>sv_waiter := if settled (sv_co s) then Not_Waiting else Checked\<rparr>) else None)"
| "server_step Wait_Sleeps s = (if sv_waiter s = Checked then Some (s\<lparr>sv_waiter := Asleep\<rparr>) else None)"
| "server_step (Public op) s =
    Some (s\<lparr>sv_co := call_coordinator op (sv_co s), sv_waiter := notify_all (call_notifies op) (sv_waiter s)\<rparr>)"

fun server_run :: "server_event list \<Rightarrow> server \<Rightarrow> server option" where
  "server_run [] s = Some s"
| "server_run (e # es) s = (case server_step e s of None \<Rightarrow> None | Some s' \<Rightarrow> server_run es s')"

section \<open>The accept loop\<close>

text \<open>\<open>run_accept_loop\<close> run by itself, on the connections \<open>accept\<close> returns; \<open>flag\<close> and \<open>stopping\<close> are the
  readings of the two atomics. It may go on for ever.\<close>

partial_function (option) run_accept_loop ::
  "(nat \<Rightarrow> bool) \<Rightarrow> (nat \<Rightarrow> bool) \<Rightarrow> ('w \<Rightarrow> int option \<times> 'w) \<Rightarrow> nat \<Rightarrow> 'w \<Rightarrow> server \<Rightarrow> ('w \<times> server) option" where
  "run_accept_loop flag stopping accept k w s =
    (if flag (2 * k) then Some (w, s)
     else case accept w of
       (None, w') \<Rightarrow> if flag (2 * k + 1) \<or> stopping k then Some (w', s) else run_accept_loop flag stopping accept (Suc k) w' s
     | (Some c, w') \<Rightarrow> run_accept_loop flag stopping accept (Suc k) w' (start_connection s))"

text \<open>While neither flag is set it does not return, whatever \<open>accept\<close> does; a listener that fails for good
  makes it spin.\<close>

lemma accept_loop_stops:
  "run_accept_loop flag stopping accept k w s = Some r \<Longrightarrow> (\<exists>k. flag k) \<or> (\<exists>k. stopping k)"
  by (erule run_accept_loop.raw_induct[where P = "\<lambda>flag stopping accept k w s r. (\<exists>k. flag k) \<or> (\<exists>k. stopping k)", rotated])
    (auto split: prod.splits option.splits if_splits)

lemma accept_loop_runs_on: "run_accept_loop (\<lambda>_. False) (\<lambda>_. False) accept k w s = None"
  using accept_loop_stops[of "\<lambda>_. False" "\<lambda>_. False" accept k w s]
  by (cases "run_accept_loop (\<lambda>_. False) (\<lambda>_. False) accept k w s") auto

text \<open>\<open>start\<close> and \<open>port\<close>.\<close>

definition coordinator_start :: "'w os \<Rightarrow> string \<Rightarrow> u16 \<Rightarrow> listener \<times> 'w \<Rightarrow> bool \<times> listener \<times> 'w" where
  "coordinator_start os host port lw = tcp_listen os host port lw"

definition coordinator_port :: "listener \<Rightarrow> u16" where
  "coordinator_port l = ls_port l"

text \<open>\<open>handle_one_connection\<close>: a single round.\<close>

definition handle_one_connection :: "('w \<Rightarrow> int option \<times> 'w) \<Rightarrow> 'w \<Rightarrow> server \<Rightarrow> 'w \<times> server" where
  "handle_one_connection accept w s = (case accept w of (None, w') \<Rightarrow> (w', s) | (Some c, w') \<Rightarrow> (w', start_connection s))"

section \<open>Runs\<close>

lemma server_run_append:
  "server_run (es @ fs) s = (case server_run es s of None \<Rightarrow> None | Some s' \<Rightarrow> server_run fs s')"
  by (induction es arbitrary: s) (auto split: option.split)

lemma server_run_Cons: "server_run (e # es) s = Some s' \<Longrightarrow> \<exists>s1. server_step e s = Some s1 \<and> server_run es s1 = Some s'"
  by (auto split: option.splits)

text \<open>What holds in one state and is kept by every event holds after a run.\<close>

lemma server_run_invariant:
  assumes "\<And>e s s'. e \<in> set es \<Longrightarrow> I s \<Longrightarrow> server_step e s = Some s' \<Longrightarrow> I s'"
  shows "I s \<Longrightarrow> server_run es s = Some s' \<Longrightarrow> I s'"
  using assms
proof (induction es arbitrary: s)
  case (Cons e es)
  then obtain s1 where s1: "server_step e s = Some s1" "server_run es s1 = Some s'" using server_run_Cons by blast
  have "I s1" using Cons.prems(1,3) s1(1) by auto
  then show ?case using Cons.IH s1(2) Cons.prems(3) by (metis list.set_intros(2))
qed simp

section \<open>The registry\<close>

text \<open>What the handlers do to connections and registered workers.\<close>

definition registry_view :: "coordinator \<Rightarrow> (nat, conn_state) std_map \<times> (id128, nat) std_map" where
  "registry_view c = (co_conns c, co_workers c)"

lemma registry_view_fold: "(\<And>x c. registry_view (g x c) = registry_view c) \<Longrightarrow> registry_view (fold g xs c) = registry_view c"
  by (induction xs arbitrary: c) simp_all

lemma registry_view_observe:
  "registry_view (hello_observe w o' c) = registry_view c" "registry_view (report_observe w t o' c) = registry_view c"
  by (simp_all add: registry_view_def hello_observe_def report_observe_def worker_objects_insert_def split: option.split)

lemma registry_view_on_worker_objects: "registry_view (on_worker_objects g ids c) = registry_view c"
  unfolding on_worker_objects_def by (rule registry_view_fold) (auto simp: registry_view_def)

lemma registry_view_invalidate: "registry_view (invalidate_worker_objects_locked w c) = registry_view c"
  using registry_view_on_worker_objects[of "\<lambda>_. lose_authority ''worker_boot_changed'' ''worker_boot_changed''"]
  by (simp add: invalidate_worker_objects_locked_def registry_view_def split: option.split)

definition hello_conn :: "hello \<Rightarrow> conn_state" where
  "hello_conn h = \<lparr>cn_id = h_worker h, cn_boot = h_boot h, cn_node = h_node h, cn_registered = True, cn_backend = h_backend h\<rparr>"

lemma hello_register_view:
  "registry_view (snd (hello_register cid h c)) = (if stale_boot h c then registry_view c
     else (map_set cid (hello_conn h) (co_conns c), map_set (h_worker h) cid (co_workers c)))"
proof -
  define c1 where "c1 = (case map_find (h_worker h) (co_last_boot c) of
      Some b \<Rightarrow> if b \<noteq> h_boot h then invalidate_worker_objects_locked (h_worker h) c else c | None \<Rightarrow> c)"
  have c1: "registry_view c1 = registry_view c" by (simp add: c1_def registry_view_invalidate split: option.split)
  define c2 where "c2 = c1\<lparr>co_last_boot := map_set (h_worker h) (h_boot h) (co_last_boot c1),
     co_conns := map_set cid (hello_conn h) (co_conns c1), co_workers := map_set (h_worker h) cid (co_workers c1)\<rparr>"
  have "registry_view (fold (hello_observe (h_worker h)) (h_observed h) c2) = registry_view c2"
    by (intro registry_view_fold registry_view_observe)
  moreover have "\<not> stale_boot h c \<Longrightarrow> hello_register cid h c = ((True, []), fold (hello_observe (h_worker h)) (h_observed h) c2)"
    unfolding hello_register_def Let_def c1_def[symmetric] c2_def hello_conn_def
    by (auto simp: stale_boot_def split: option.splits)
  moreover have "stale_boot h c \<Longrightarrow> snd (hello_register cid h c) = c"
    by (auto simp: hello_register_def stale_boot_def)
  ultimately show ?thesis using c1 by (simp add: c2_def registry_view_def)
qed

lemma handle_frame_view:
  "registry_view (snd (handle_frame cid clock f c)) = registry_view c \<or>
   (\<exists>h. registry_view (snd (handle_frame cid clock f c)) =
      (map_set cid (hello_conn h) (co_conns c), map_set (h_worker h) cid (co_workers c)))"
proof -
  have hello: "\<exists>h. snd (handle_hello cid p c) = c \<or> snd (handle_hello cid p c) = snd (hello_register cid h c)" for p
    by (auto simp: handle_hello_def split: sum.split prod.split) (metis snd_conv)
  have report: "registry_view (snd (handle_report cid clock p c)) = registry_view c" for p
    by (auto simp: handle_report_def registry_view_observe split: sum.split prod.split intro!: registry_view_fold)
  have result: "registry_view (snd (handle_warm_result cid clock p c)) = registry_view c" for p
    by (auto simp: handle_warm_result_def settle_attempt_def worker_objects_insert_def registry_view_def Let_def
        split: sum.split prod.split option.split)
  show ?thesis
    using hello[of "fr_payload f"] hello_register_view[of cid _ c] report result
    by (auto simp: handle_frame_def split: message_type.split) (metis snd_conv)+
qed

lemma on_disconnect_view:
  "registry_view (on_disconnect cid clock c) = (co_conns c,
     if cn_registered (conn_of cid c) \<and> map_find (cn_id (conn_of cid c)) (co_workers c) = Some cid
     then map_erase (cn_id (conn_of cid c)) (co_workers c) else co_workers c)"
  using registry_view_on_worker_objects
  by (auto simp: on_disconnect_def Let_def registry_view_def split: option.split)

lemma call_view: "registry_view (call_coordinator op c) = registry_view c"
  by (cases op) (auto simp: registry_view_def co_bump_dependency_generation_def co_bump_warmth_generation_def roll_epoch_def
      issue_rollback_def settle_attempt_def issue_begin_def Let_def split: option.split prod.split)

section \<open>Well-formed runs\<close>

text \<open>Connections are numbered in the order they come; running threads have a connection and, until the
  joins are over, an entry in \<open>threads_\<close>; a registered worker whose connection still carries its id has a
  running thread.\<close>

definition server_wf :: "server \<Rightarrow> bool" where
  "server_wf s \<longleftrightarrow>
    (\<forall>cid. map_find cid (co_conns (sv_co s)) \<noteq> None \<longleftrightarrow> cid < sv_next s) \<and>
    map_wf (sv_running s) \<and> map_wf (co_workers (sv_co s)) \<and>
    (\<forall>cid. map_find cid (sv_running s) \<noteq> None \<longrightarrow> cid < sv_next s \<and> (\<not> sv_joined s \<longrightarrow> cid \<in> set (sv_threads s))) \<and>
    (\<forall>w cid. map_find w (co_workers (sv_co s)) = Some cid \<longrightarrow> cid < sv_next s \<and> cn_registered (conn_of cid (sv_co s)) \<and>
       (cn_id (conn_of cid (sv_co s)) = w \<longrightarrow> map_find cid (sv_running s) \<noteq> None)) \<and>
    (sv_joined s \<longrightarrow> sv_stopping s)"

lemma server_wfD:
  assumes "server_wf s"
  shows "map_find cid (co_conns (sv_co s)) \<noteq> None \<longleftrightarrow> cid < sv_next s"
    and "map_find cid (sv_running s) = Some t \<Longrightarrow> cid < sv_next s"
    and "map_find cid (sv_running s) = Some t \<Longrightarrow> \<not> sv_joined s \<Longrightarrow> cid \<in> set (sv_threads s)"
    and "map_find w (co_workers (sv_co s)) = Some cid \<Longrightarrow> cid < sv_next s \<and> cn_registered (conn_of cid (sv_co s))"
    and "map_find w (co_workers (sv_co s)) = Some cid \<Longrightarrow> cn_id (conn_of cid (sv_co s)) = w \<Longrightarrow> map_find cid (sv_running s) \<noteq> None"
    and "map_wf (sv_running s)" "map_wf (co_workers (sv_co s))" "sv_joined s \<Longrightarrow> sv_stopping s"
  using assms unfolding server_wf_def by simp_all

lemma server_wf_new: "server_wf new_server"
  by (simp add: server_wf_def new_server_def new_coordinator_def)

lemma conn_of_view: "co_conns c' = co_conns c \<Longrightarrow> conn_of cid c' = conn_of cid c"
  by (simp add: conn_of_def)

text \<open>Only the registry and the thread bookkeeping matter.\<close>

lemma server_wf_cong:
  "registry_view (sv_co s') = registry_view (sv_co s) \<Longrightarrow> sv_running s' = sv_running s \<Longrightarrow> sv_next s' = sv_next s \<Longrightarrow>
     sv_joined s' = sv_joined s \<Longrightarrow> sv_threads s' = sv_threads s \<Longrightarrow> (sv_stopping s \<Longrightarrow> sv_stopping s') \<Longrightarrow>
     server_wf s \<Longrightarrow> server_wf s'"
  unfolding server_wf_def by (simp add: registry_view_def conn_of_def)

lemma server_wf_start: "server_wf s \<Longrightarrow> server_wf (start_connection s)"
  unfolding server_wf_def start_connection_def on_connection_def
  by (auto simp: conn_of_def less_Suc_eq split: if_splits)

lemma server_wf_rethread:
  "server_wf s \<Longrightarrow> map_find cid (sv_running s) \<noteq> None \<Longrightarrow> server_wf (s\<lparr>sv_running := map_set cid t (sv_running s)\<rparr>)"
  unfolding server_wf_def by auto

lemma server_wf_hello:
  assumes "server_wf s" "map_find cid (sv_running s) \<noteq> None"
    and "registry_view c = (map_set cid (hello_conn h) (co_conns (sv_co s)), map_set (h_worker h) cid (co_workers (sv_co s)))"
  shows "server_wf (s\<lparr>sv_co := c\<rparr>)"
proof -
  have v: "co_conns c = map_set cid (hello_conn h) (co_conns (sv_co s))"
    "co_workers c = map_set (h_worker h) cid (co_workers (sv_co s))" using assms(3) by (simp_all add: registry_view_def)
  have conn: "conn_of x c = (if x = cid then hello_conn h else conn_of x (sv_co s))" for x
    by (simp add: conn_of_def v)
  show ?thesis using assms(1,2) unfolding server_wf_def
    by (auto simp: v conn hello_conn_def)
qed

lemma server_wf_handle:
  assumes "server_wf s" "map_find cid (sv_running s) \<noteq> None"
  shows "server_wf (s\<lparr>sv_co := snd (handle_frame cid clock f (sv_co s))\<rparr>)"
  using handle_frame_view[of cid clock f "sv_co s"] server_wf_hello[OF assms]
    server_wf_cong[of "s\<lparr>sv_co := snd (handle_frame cid clock f (sv_co s))\<rparr>" s] assms(1) by auto

lemma server_wf_end:
  assumes "server_wf s"
  shows "server_wf (s\<lparr>sv_co := on_disconnect cid clock (sv_co s), sv_running := map_erase cid (sv_running s)\<rparr>)"
proof -
  let ?c = "on_disconnect cid clock (sv_co s)"
  have v: "co_conns ?c = co_conns (sv_co s)" "co_workers ?c =
      (if cn_registered (conn_of cid (sv_co s)) \<and> map_find (cn_id (conn_of cid (sv_co s))) (co_workers (sv_co s)) = Some cid
       then map_erase (cn_id (conn_of cid (sv_co s))) (co_workers (sv_co s)) else co_workers (sv_co s))"
    using on_disconnect_view[of cid clock "sv_co s"] by (simp_all add: registry_view_def)
  have "server_wf s" by (rule assms)
  then have wf: "map_wf (sv_running s)" "map_wf (co_workers (sv_co s))"
    and reg: "\<And>w. map_find w (co_workers (sv_co s)) = Some cid \<Longrightarrow> cn_registered (conn_of cid (sv_co s))"
    unfolding server_wf_def by blast+
  show ?thesis using assms wf reg unfolding server_wf_def
    by (auto simp: v(1) v(2) conn_of_view[OF v(1)] split: if_splits)
qed

lemma server_step_wf:
  assumes "server_wf s" "server_step e s = Some s'"
  shows "server_wf s'"
proof (cases e)
  case (Connection_Starts flag)
  then have "s' = (start_connection s)\<lparr>sv_loop := sv_loop s'\<rparr>" using assms(2) by (auto split: if_splits)
  then show ?thesis using server_wf_start[OF assms(1)] server_wf_cong[of s' "start_connection s"]
    by (metis (no_types, lifting) server.ext_inject server.surjective server.update_convs(5))
next
  case Handle_One
  then show ?thesis using assms server_wf_start by (auto split: if_splits)
next
  case (Thread_Reads cid f)
  then show ?thesis using assms server_wf_rethread[of s cid "Handling f"] by (auto split: if_splits)
next
  case (Thread_Handles cid clock)
  then obtain f where f: "map_find cid (sv_running s) = Some (Handling f)"
    and s': "s' = s\<lparr>sv_co := snd (handle_frame cid clock f (sv_co s)), sv_running := map_set cid Reading (sv_running s),
       sv_waiter := notify_all (frame_notifies cid f (sv_co s)) (sv_waiter s)\<rparr>"
    using assms(2) by (auto split: option.splits conn_thread.splits)
  let ?s1 = "s\<lparr>sv_co := snd (handle_frame cid clock f (sv_co s))\<rparr>"
  have "server_wf (?s1\<lparr>sv_running := map_set cid Reading (sv_running ?s1)\<rparr>)"
    using server_wf_handle[OF assms(1)] f by (intro server_wf_rethread) auto
  then show ?thesis using server_wf_cong[of s' "?s1\<lparr>sv_running := map_set cid Reading (sv_running ?s1)\<rparr>"] by (simp add: s')
next
  case (Thread_Ends cid clock)
  then show ?thesis using assms server_wf_end by (auto split: if_splits)
next
  case Stop_Joins
  then show ?thesis using assms by (auto simp: server_wf_def split: if_splits)
next
  case (Public op)
  then show ?thesis using assms server_wf_cong[of s' s] call_view by auto
qed (use assms server_wf_cong[of s' s] in \<open>auto simp: server_stop_def split: if_splits\<close>)

lemma server_run_wf: "server_wf s \<Longrightarrow> server_run es s = Some s' \<Longrightarrow> server_wf s'"
  by (rule server_run_invariant[where I = server_wf]) (auto intro: server_step_wf)

section \<open>Refinement of the interleaved handlers\<close>

lemma call_is_step: "co_step c (call_coordinator op c)"
  by (cases op) (auto intro: co_step.intros)

lemma server_step_refines:
  assumes "server_wf s" "server_step e s = Some s'"
  shows "sv_co s' = sv_co s \<or> co_step (sv_co s) (sv_co s')"
proof -
  note conn = server_wfD(1)[OF assms(1)]
  have run: "map_find cid (sv_running s) = Some t \<Longrightarrow> map_find cid (co_conns (sv_co s)) \<noteq> None" for cid t
    using server_wfD(2)[OF assms(1)] conn by blast
  have start: "co_step (sv_co s) (sv_co (start_connection s))"
    using conn[of "sv_next s"] by (auto simp: start_connection_def intro: cs_connect)
  show ?thesis
  proof (cases e)
    case (Connection_Starts flag)
    then show ?thesis using assms(2) start by (auto split: if_splits)
  next
    case Handle_One
    then show ?thesis using assms(2) start by (auto split: if_splits)
  next
    case (Thread_Handles cid clock)
    then obtain f where "map_find cid (sv_running s) = Some (Handling f)"
      "sv_co s' = snd (handle_frame cid clock f (sv_co s))" using assms(2) by (auto split: option.splits conn_thread.splits)
    then show ?thesis using run cs_frame by simp
  next
    case (Thread_Ends cid clock)
    then show ?thesis using assms(2) run[of cid] cs_disconnect by (auto split: if_splits)
  next
    case (Public op)
    then show ?thesis using assms(2) call_is_step by auto
  qed (use assms(2) in \<open>auto simp: server_stop_def split: if_splits\<close>)
qed

lemma server_run_refines:
  "server_wf s \<Longrightarrow> server_run es s = Some s' \<Longrightarrow> \<exists>k \<le> length es. (co_step ^^ k) (sv_co s) (sv_co s')"
proof (induction es arbitrary: s)
  case (Cons e es)
  obtain s1 where s1: "server_step e s = Some s1" "server_run es s1 = Some s'" using server_run_Cons[OF Cons.prems(2)] by blast
  obtain k where k: "k \<le> length es" "(co_step ^^ k) (sv_co s1) (sv_co s')"
    using Cons.IH[OF server_step_wf[OF Cons.prems(1) s1(1)] s1(2)] by blast
  consider "sv_co s1 = sv_co s" | "co_step (sv_co s) (sv_co s1)" using server_step_refines[OF Cons.prems(1) s1(1)] by blast
  then show ?case
  proof cases
    case 1
    then show ?thesis using k by (auto intro: exI[of _ k])
  next
    case 2
    have "(co_step ^^ Suc k) (sv_co s) (sv_co s')" using 2 k(2) by (rule relpowp_Suc_I2)
    then show ?thesis using k(1) by (intro exI[of _ "Suc k"]) simp
  qed
qed auto

section \<open>Stopping\<close>

fun is_thread_event :: "server_event \<Rightarrow> bool" where
  "is_thread_event (Thread_Reads cid f) = True"
| "is_thread_event (Thread_Handles cid clock) = True"
| "is_thread_event (Thread_Ends cid clock) = True"
| "is_thread_event _ = False"

fun starts_thread :: "server_event \<Rightarrow> bool" where
  "starts_thread (Connection_Starts flag) = True"
| "starts_thread Handle_One = True"
| "starts_thread _ = False"

fun event_thread :: "server_event \<Rightarrow> nat option" where
  "event_thread (Thread_Reads cid f) = Some cid"
| "event_thread (Thread_Handles cid clock) = Some cid"
| "event_thread (Thread_Ends cid clock) = Some cid"
| "event_thread _ = None"

text \<open>The steps the threads have left when nothing more can be read.\<close>

fun steps_left :: "conn_thread \<Rightarrow> nat" where
  "steps_left Reading = 1"
| "steps_left (Handling f) = 2"

definition thread_work :: "server \<Rightarrow> nat" where
  "thread_work s = sum_list (map (\<lambda>(cid, t). steps_left t) (sv_running s))"

lemma sum_map_erase:
  "map_find k m = Some v \<Longrightarrow> sum_list (map (\<lambda>(k, v). g v) m) = g v + sum_list (map (\<lambda>(k, v). g v) (map_erase k m) :: nat list)"
proof -
  assume "map_find k m = Some v"
  then have "mset m = mset ((k, v) # map_erase k m)" by (simp add: mset_map_erase)
  from sum_list_mset_cong[OF this, of "\<lambda>(k, v). g v"] show ?thesis by simp
qed

lemma map_set_erase: "map_wf m \<Longrightarrow> map_set k v m = map_set k v (map_erase k m)"
  by (rule map_ext) auto

lemma sum_map_set:
  assumes "map_wf m" "map_find k m = Some v"
  shows "sum_list (map (\<lambda>(k, v). g v) (map_set k v' m)) + g v = sum_list (map (\<lambda>(k, v). g v) m) + (g v' :: nat)"
proof -
  have "mset (map_set k v' m) = mset ((k, v') # map_erase k m)"
    using map_set_erase[OF assms(1), of k v'] mset_map_set_fresh[of k "map_erase k m" v'] assms(1) by simp
  from sum_list_mset_cong[OF this, of "\<lambda>(k, v). g v"]
  have "sum_list (map (\<lambda>(k, v). g v) (map_set k v' m)) = g v' + sum_list (map (\<lambda>(k, v). g v) (map_erase k m))" by simp
  then show ?thesis using sum_map_erase[OF assms(2), of g] by simp
qed

lemma thread_work_0: "thread_work s = 0 \<longleftrightarrow> sv_running s = []"
proof -
  have "steps_left t \<noteq> 0" for t by (cases t) simp_all
  then show ?thesis by (cases "sv_running s") (auto simp: thread_work_def)
qed

definition all_closed :: "server \<Rightarrow> bool" where
  "all_closed s \<longleftrightarrow> (\<forall>cid. map_find cid (sv_running s) \<noteq> None \<longrightarrow> cid \<notin> set (sv_open s))"

lemma closed_step:
  assumes "server_wf s" "all_closed s" "sv_stopping s" "\<not> starts_thread e" "server_step e s = Some s'"
  shows "all_closed s' \<and> sv_stopping s' \<and> (if is_thread_event e then Suc (thread_work s') = thread_work s else thread_work s' = thread_work s)"
proof (cases e)
  case (Thread_Handles cid clock)
  then obtain f where f: "map_find cid (sv_running s) = Some (Handling f)" "sv_running s' = map_set cid Reading (sv_running s)"
    "sv_open s' = sv_open s" "sv_stopping s' = sv_stopping s"
    using assms(5) by (auto split: option.splits conn_thread.splits)
  then show ?thesis using assms(2,3) Thread_Handles sum_map_set[OF server_wfD(6)[OF assms(1)] f(1), of steps_left Reading]
    by (auto simp: all_closed_def thread_work_def)
next
  case (Thread_Ends cid clock)
  then show ?thesis using assms sum_map_erase[of cid "sv_running s" Reading steps_left] server_wfD(6)[OF assms(1)]
    by (auto simp: all_closed_def thread_work_def split: if_splits)
qed (use assms in \<open>auto simp: all_closed_def thread_work_def server_stop_def split: if_splits\<close>)

lemma closed_run:
  "server_wf s \<Longrightarrow> all_closed s \<Longrightarrow> sv_stopping s \<Longrightarrow> \<forall>e \<in> set es. \<not> starts_thread e \<Longrightarrow> server_run es s = Some s' \<Longrightarrow>
     all_closed s' \<and> sv_stopping s' \<and> length (filter is_thread_event es) + thread_work s' = thread_work s"
proof (induction es arbitrary: s)
  case (Cons e es)
  obtain s1 where s1: "server_step e s = Some s1" "server_run es s1 = Some s'" using server_run_Cons[OF Cons.prems(5)] by blast
  have "\<not> starts_thread e" using Cons.prems(4) by simp
  note st = closed_step[OF Cons.prems(1-3) this s1(1)]
  then show ?case using Cons.IH[OF server_step_wf[OF Cons.prems(1) s1(1)] _ _ _ s1(2)] Cons.prems(4) by (auto split: if_splits)
qed simp

lemma thread_can_move: "sv_running s \<noteq> [] \<Longrightarrow> \<exists>e. is_thread_event e \<and> server_step e s \<noteq> None"
proof -
  assume "sv_running s \<noteq> []"
  then obtain cid t m where "sv_running s = (cid, t) # m" by (metis list.exhaust surj_pair)
  then have r: "map_find cid (sv_running s) = Some t" by simp
  show ?thesis
  proof (cases t)
    case Reading
    then show ?thesis using r by (intro exI[of _ "Thread_Ends cid (\<lambda>_. 0)"]) simp
  next
    case (Handling f)
    then show ?thesis using r by (intro exI[of _ "Thread_Handles cid (\<lambda>_. 0)"]) simp
  qed
qed

lemma closed_no_reads: "all_closed s \<Longrightarrow> server_step (Thread_Reads cid f) s = None"
  by (auto simp: all_closed_def)

text \<open>The first \<open>stop\<close> closes every running connection that is the registered one of some worker.\<close>

lemma stop_closes:
  "\<not> sv_stopping s \<Longrightarrow> \<forall>cid t. map_find cid (sv_running s) = Some t \<longrightarrow> cid \<in> snd ` set (co_workers (sv_co s)) \<Longrightarrow>
     all_closed (server_stop s) \<and> sv_stopping (server_stop s) \<and> thread_work (server_stop s) = thread_work s"
  by (auto simp: all_closed_def server_stop_def thread_work_def)

text \<open>A connection that no worker of the registry has is left open, and its thread blocks the joins.\<close>

definition blocked_on :: "nat \<Rightarrow> server \<Rightarrow> bool" where
  "blocked_on cid s \<longleftrightarrow> sv_stopping s \<and> cid \<in> set (sv_threads s) \<and> map_find cid (sv_running s) = Some Reading
     \<and> cid \<in> set (sv_open s)"

lemma blocked_no_join: "blocked_on cid s \<Longrightarrow> server_step Stop_Joins s = None"
  by (auto simp: blocked_on_def)

lemma blocked_step:
  assumes "server_wf s" "blocked_on cid s" "event_thread e \<noteq> Some cid" "server_step e s = Some s'"
  shows "blocked_on cid s'"
proof -
  have new: "cid \<noteq> sv_next s" using server_wfD(2)[OF assms(1)] assms(2) by (auto simp: blocked_on_def)
  show ?thesis
  proof (cases e)
    case (Thread_Handles i clock)
    then show ?thesis using assms(2-4) by (auto simp: blocked_on_def split: option.splits conn_thread.splits)
  next
    case (Thread_Ends i clock)
    then show ?thesis using assms(2-4) server_wfD(6)[OF assms(1)] by (auto simp: blocked_on_def split: if_splits)
  next
    case Stop_Joins
    then show ?thesis using assms(2,4) blocked_no_join by simp
  qed (use assms(2-4) new in \<open>auto simp: blocked_on_def server_stop_def start_connection_def split: if_splits\<close>)
qed

lemma blocked_run:
  assumes "server_wf s" "blocked_on cid s" "\<forall>e \<in> set es. event_thread e \<noteq> Some cid" "server_run es s = Some s'"
  shows "blocked_on cid s'"
  using server_run_invariant[where I = "\<lambda>s. server_wf s \<and> blocked_on cid s", of es s s'] assms
    server_step_wf blocked_step by blast

lemma stop_blocked:
  assumes "server_wf s" "\<not> sv_stopping s" "map_find cid (sv_running s) = Some Reading" "cid \<in> set (sv_open s)"
    "cid \<notin> snd ` set (co_workers (sv_co s))"
  shows "blocked_on cid (server_stop s)"
  using assms server_wfD(3)[OF assms(1,3)] server_wfD(8)[OF assms(1)] by (auto simp: blocked_on_def server_stop_def)

text \<open>A connection accepted before \<open>stop\<close> may get its thread after the joins; the coordinator is then
  destroyed with a joinable thread.\<close>

lemma late_connection_unjoined:
  "\<exists>s. server_run [Listener_Accepts, Stop_Begins, Stop_Joins, Connection_Starts False] new_server = Some s \<and>
     sv_joined s \<and> sv_threads s = [0]"
  by (simp add: new_server_def server_stop_def start_connection_def)

section \<open>Waiting\<close>

text \<open>Without a notification a frame leaves the attempts alone.\<close>

lemma frame_core: "\<not> frame_notifies cid f c \<Longrightarrow> co_core (snd (handle_frame cid clock f c)) = co_core c"
  using keeps_handle_hello[of cid "fr_payload f"] keeps_handle_report[of cid clock "fr_payload f"]
  by (auto simp: handle_frame_def frame_notifies_def keeps_def handle_warm_result_def
      split: message_type.split sum.splits prod.splits option.splits)

lemma frame_settled: "\<not> frame_notifies cid f c \<Longrightarrow> settled (snd (handle_frame cid clock f c)) = settled c"
  using frame_core[of cid f c clock] by (simp add: settled_def co_core_def)

lemma keeps_settled: "keeps g \<Longrightarrow> settled (g c) = settled c"
  by (auto simp: keeps_def settled_def co_core_def)

text \<open>Issuing never settles, as long as the counters do not wrap.\<close>

lemma issue_not_settles:
  assumes "co_inv (Suc n) c" "settled (snd (issue_begin object action preferred c))"
  shows "settled c"
proof -
  have "co_inv n (snd (issue_begin object action preferred c))" using co_step_inv[OF cs_issue assms(1)] .
  then have e: "co_in_flight (snd (issue_begin object action preferred c)) = []" using settled_iff(1) assms(2) by blast
  obtain r c1 where i: "issue_begin object action preferred c = (r, c1)" by (cases "issue_begin object action preferred c")
  have "co_in_flight c = []"
  proof (cases r)
    case None
    then show ?thesis using i e by (auto simp: issue_begin_def Let_def split: option.splits prod.splits if_splits)
  next
    case (Some x)
    have ne: "map_set k v m \<noteq> []" for k v and m :: "(u64, attempt_info) std_map"
      by (cases m) (auto split: if_splits)
    show ?thesis using i e Some ne by (auto simp: issue_begin_def Let_def split: option.splits prod.splits if_splits)
  qed
  then show ?thesis using settled_iff(1)[OF assms(1)] by simp
qed

text \<open>What changes the answer of the predicate to true notifies.\<close>

lemma settling_notifies:
  assumes "server_wf s" "co_inv (Suc n) (sv_co s)" "server_step e s = Some s'" "\<not> settled (sv_co s)" "settled (sv_co s')"
  shows "sv_waiter s' = notify_all True (sv_waiter s)"
proof (cases e)
  case (Connection_Starts flag)
  then show ?thesis using assms(3-5) keeps_settled[OF keeps_connection] by (auto simp: start_connection_def split: if_splits)
next
  case Handle_One
  then show ?thesis using assms(3-5) keeps_settled[OF keeps_connection] by (auto simp: start_connection_def split: if_splits)
next
  case (Thread_Handles cid clock)
  then obtain f where s': "sv_co s' = snd (handle_frame cid clock f (sv_co s))"
    "sv_waiter s' = notify_all (frame_notifies cid f (sv_co s)) (sv_waiter s)"
    using assms(3) by (auto split: option.splits conn_thread.splits)
  then show ?thesis using assms(4,5) frame_settled[of cid f "sv_co s" clock] by (cases "frame_notifies cid f (sv_co s)") auto
next
  case (Thread_Ends cid clock)
  then show ?thesis using assms(3-5) keeps_settled[OF keeps_on_disconnect] by (auto split: if_splits)
next
  case (Public op)
  then have s': "sv_co s' = call_coordinator op (sv_co s)" "sv_waiter s' = notify_all (call_notifies op) (sv_waiter s)"
    using assms(3) by auto
  have "call_notifies op"
    using assms(4,5) s'(1) keeps_settled[OF keeps_bumps(1)] keeps_settled[OF keeps_bumps(2)] issue_not_settles[OF assms(2)]
    by (cases op) (metis call_coordinator.simps call_notifies.simps)+
  then show ?thesis using s'(2) by simp
qed (use assms in \<open>auto simp: server_stop_def split: if_splits\<close>)

text \<open>Nothing is in flight and the waiter sleeps: only another notification can wake it, and without an
  attempt no result gives one.\<close>

definition lost_wakeup :: "server \<Rightarrow> bool" where
  "lost_wakeup s \<longleftrightarrow> sv_waiter s = Asleep \<and> settled (sv_co s) \<and> co_in_flight (sv_co s) = []"

fun new_work :: "server_event \<Rightarrow> bool" where
  "new_work (Public (Issue object action preferred)) = True"
| "new_work (Public Roll) = True"
| "new_work (Public (Rollback a)) = True"
| "new_work _ = False"

lemma core_lost: "co_core c' = co_core c \<Longrightarrow> settled c' = settled c \<and> co_in_flight c' = co_in_flight c"
  by (simp add: co_core_def settled_def)

lemma keeps_lost: "keeps g \<Longrightarrow> settled (g c) = settled c \<and> co_in_flight (g c) = co_in_flight c"
  by (rule core_lost) (simp add: keeps_def)

lemma lost_wakeup_step:
  assumes "lost_wakeup s" "\<not> new_work e" "server_step e s = Some s'"
  shows "lost_wakeup s'"
proof (cases e)
  case (Connection_Starts flag)
  then show ?thesis using assms keeps_lost[OF keeps_connection] by (auto simp: lost_wakeup_def start_connection_def split: if_splits)
next
  case Handle_One
  then show ?thesis using assms keeps_lost[OF keeps_connection] by (auto simp: lost_wakeup_def start_connection_def split: if_splits)
next
  case (Thread_Handles cid clock)
  then obtain f where s': "sv_co s' = snd (handle_frame cid clock f (sv_co s))"
    "sv_waiter s' = notify_all (frame_notifies cid f (sv_co s)) (sv_waiter s)"
    using assms(3) by (auto split: option.splits conn_thread.splits)
  have no: "\<not> frame_notifies cid f (sv_co s)"
    using assms(1) by (simp add: frame_notifies_def lost_wakeup_def split: sum.split)
  show ?thesis using core_lost[OF frame_core[OF no, of clock]] no s' assms(1) by (simp add: lost_wakeup_def notify_all_def)
next
  case (Thread_Ends cid clock)
  then show ?thesis using assms keeps_lost[OF keeps_on_disconnect] by (auto simp: lost_wakeup_def split: if_splits)
next
  case (Public op)
  then have "op = Bump_Dependency \<or> op = Bump_Warmth" using assms(2) by (cases op) auto
  then show ?thesis using Public assms(1,3)
    by (auto simp: lost_wakeup_def notify_all_def keeps_lost[OF keeps_bumps(1)] keeps_lost[OF keeps_bumps(2)])
qed (use assms in \<open>auto simp: lost_wakeup_def server_stop_def split: if_splits\<close>)

lemma lost_wakeup_run:
  "lost_wakeup s \<Longrightarrow> \<forall>e \<in> set es. \<not> new_work e \<Longrightarrow> server_run es s = Some s' \<Longrightarrow> lost_wakeup s'"
  by (rule server_run_invariant[where I = lost_wakeup]) (auto intro: lost_wakeup_step)

text \<open>The accounts hold in every run.\<close>

lemma server_run_inv:
  assumes "server_run es new_server = Some s" "length es + n < 2 ^ 62"
  shows "server_wf s \<and> co_inv n (sv_co s)"
proof -
  obtain k where k: "k \<le> length es" "(co_step ^^ k) new_coordinator (sv_co s)"
    using server_run_refines[OF server_wf_new assms(1)] by (auto simp: new_server_def)
  have "co_inv (k + n) new_coordinator" using k(1) assms(2) by (intro co_inv_new) simp
  then show ?thesis using co_reach_inv[OF k(2)] server_run_wf[OF server_wf_new assms(1)] by simp
qed

section \<open>Two names on one connection\<close>

lemma hello_frame_view:
  assumes "hello_ok h" "h_protocol_version h = kProtocolVersion" "\<not> stale_boot h c"
  shows "registry_view (snd (handle_frame cid clock (plain_frame MT_HELLO (encode_hello h)) c))
    = (map_set cid (hello_conn h) (co_conns c), map_set (h_worker h) cid (co_workers c))"
proof -
  have d: "decode_hello (encode_hello h) = Inr (hello_nf h, [])" using decode_hello_encode[OF assms(1), of "[]"] by simp
  have n: "h_protocol_version (hello_nf h) = kProtocolVersion" "stale_boot (hello_nf h) c = stale_boot h c"
    "hello_conn (hello_nf h) = hello_conn h" "h_worker (hello_nf h) = h_worker h"
    using assms(2) by (simp_all add: hello_nf_def stale_boot_def hello_conn_def)
  show ?thesis using hello_register_view[of cid "hello_nf h" c] assms(3)
    by (simp add: handle_frame_def plain_frame_def handle_hello_def d n split: prod.split) (metis snd_conv)
qed

lemma stale_hello_refused:
  assumes "hello_ok h" "h_protocol_version h = kProtocolVersion" "stale_boot h c"
  shows "\<exists>a. handle_frame cid clock (plain_frame MT_HELLO (encode_hello h)) c = ([(cid, MT_HELLO_ACK, encode_hello_ack a)], c)
    \<and> \<not> ha_accepted a"
proof -
  have d: "decode_hello (encode_hello h) = Inr (hello_nf h, [])" using decode_hello_encode[OF assms(1), of "[]"] by simp
  have n: "h_protocol_version (hello_nf h) = kProtocolVersion" "stale_boot (hello_nf h) c"
    using assms(2,3) by (simp_all add: hello_nf_def stale_boot_def)
  then have "hello_register cid (hello_nf h) c = ((False, ''stale boot (worker already registered)''), c)"
    using hello_register_cases[of "hello_nf h" c cid] by simp
  then show ?thesis by (simp add: handle_frame_def plain_frame_def handle_hello_def d n(1)) (metis hello_ack.select_convs(1))
qed

section \<open>A connection thread and its loop\<close>

text \<open>The events of one connection thread that receives some frames, with the calls other threads make
  between the reading and the handling of frame \<open>k\<close>.\<close>

fun thread_trace :: "nat \<Rightarrow> (nat \<Rightarrow> nat \<Rightarrow> timestamp) \<Rightarrow> (nat \<Rightarrow> coordinator_call list) \<Rightarrow> nat \<Rightarrow> frame list \<Rightarrow> server_event list" where
  "thread_trace cid clock ops k [] = []"
| "thread_trace cid clock ops k (f # fs) =
     Thread_Reads cid f # map Public (ops k) @ Thread_Handles cid (clock k) # thread_trace cid clock ops (Suc k) fs"

lemma public_run:
  "\<exists>w. server_run (map Public os) s = Some (s\<lparr>sv_co := fold call_coordinator os (sv_co s), sv_waiter := w\<rparr>)"
proof (induction os arbitrary: s)
  case Nil
  then show ?case by (intro exI[of _ "sv_waiter s"]) simp
next
  case (Cons op os)
  show ?case
    using Cons.IH[of "s\<lparr>sv_co := call_coordinator op (sv_co s), sv_waiter := notify_all (call_notifies op) (sv_waiter s)\<rparr>"] by simp
qed

text \<open>The thread machine reaches the coordinator that the receive loop computes.\<close>

lemma thread_trace_run:
  assumes "map_find cid (sv_running s) = Some Reading" "cid \<in> set (sv_open s)"
  shows "\<exists>s'. server_run (thread_trace cid clock ops k fs) s = Some s' \<and> map_find cid (sv_running s') = Some Reading \<and>
    sv_co s' = handle_all (\<lambda>k f c. snd (handle_frame cid (clock k) f (fold call_coordinator (ops k) c))) (\<lambda>_. False) k fs (sv_co s)"
  using assms
proof (induction fs arbitrary: k s)
  case (Cons f fs)
  define s1 where "s1 = s\<lparr>sv_running := map_set cid (Handling f) (sv_running s)\<rparr>"
  obtain w where w: "server_run (map Public (ops k)) s1 = Some (s1\<lparr>sv_co := fold call_coordinator (ops k) (sv_co s1), sv_waiter := w\<rparr>)"
    using public_run by blast
  define s2 where "s2 = s1\<lparr>sv_co := fold call_coordinator (ops k) (sv_co s1), sv_waiter := w\<rparr>"
  define s3 where "s3 = s2\<lparr>sv_co := snd (handle_frame cid (clock k) f (sv_co s2)), sv_running := map_set cid Reading (sv_running s2),
     sv_waiter := notify_all (frame_notifies cid f (sv_co s2)) (sv_waiter s2)\<rparr>"
  have r: "server_step (Thread_Reads cid f) s = Some s1" using Cons.prems by (simp add: s1_def)
  have h: "server_step (Thread_Handles cid (clock k)) s2 = Some s3" by (simp add: s2_def s1_def s3_def)
  have "map_find cid (sv_running s3) = Some Reading" "cid \<in> set (sv_open s3)"
    and co: "sv_co s3 = snd (handle_frame cid (clock k) f (fold call_coordinator (ops k) (sv_co s)))"
    using Cons.prems by (simp_all add: s3_def s2_def s1_def)
  note ih = Cons.IH[OF this(1,2), of "Suc k"]
  have "server_run (thread_trace cid clock ops k (f # fs)) s = server_run (thread_trace cid clock ops (Suc k) fs) s3"
    using r w h by (simp add: server_run_append s2_def)
  then show ?case using ih co by (simp add: Let_def)
qed simp

end
