(* ===== verification/Scenario.thy ===== *)
theory Scenario
  imports Server
begin

text \<open>
  One short run of the coordinator on concrete data, evaluated step by step: a worker connects and
  registers, one warming is issued to it, and its result comes back. The states are used to instantiate
  the properties of the root theory.
\<close>

section \<open>Data\<close>

definition sc_worker :: id128 where "sc_worker = Id128 1 2"
definition sc_boot :: id128 where "sc_boot = Id128 3 4"
definition sc_node :: id128 where "sc_node = Id128 5 6"
definition sc_object :: id128 where "sc_object = Id128 7 8"

definition sc_hello :: hello where
  "sc_hello = \<lparr>h_protocol_version = kProtocolVersion, h_worker = sc_worker, h_boot = sc_boot, h_node = sc_node,
     h_epoch_guess = 0, h_backend = ''cpu'', h_devices = [], h_actions = [], h_observed = []\<rparr>"

definition sc_clock :: "nat \<Rightarrow> timestamp" where
  "sc_clock k = of_nat (1000 + k)"

definition sc_result :: warm_result where
  "sc_result = \<lparr>wr_boot = sc_boot, wr_epoch = co_epoch new_coordinator, wr_warmth_gen = 0, wr_dep_gen = 0, wr_object = sc_object,
     wr_action = 0, wr_attempt = 1, wr_success = True, wr_duration_ms = 0, wr_bytes = 0, wr_error = []\<rparr>"

section \<open>States\<close>

definition sc_connected :: coordinator where
  "sc_connected = on_connection 0 new_coordinator"

definition sc_registered :: coordinator where
  "sc_registered = snd (handle_frame 0 sc_clock \<lparr>fr_type = MT_HELLO, fr_flags = 0, fr_payload = encode_hello sc_hello\<rparr> sc_connected)"

definition sc_issued :: coordinator where
  "sc_issued = snd (issue_begin sc_object INIT_ENGINE None sc_registered)"

section \<open>Evaluation\<close>

lemma sc_hello_decodes: "decode_hello (encode_hello sc_hello) = Inr (sc_hello, [])"
  using decode_hello_encode[of sc_hello "[]"] by (simp add: hello_ok_def sc_hello_def hello_nf_def)

lemma sc_result_decodes: "decode_warm_result (encode_warm_result sc_result) = Inr (sc_result, [])"
  using warm_result_codec.dec_enc[of sc_result "[]"] by (simp add: sc_result_def)

lemma sc_registered_eq:
  "sc_registered = new_coordinator\<lparr>
     co_conns := [(0, \<lparr>cn_id = sc_worker, cn_boot = sc_boot, cn_node = sc_node, cn_registered = True, cn_backend = ''cpu''\<rparr>)],
     co_workers := [(sc_worker, 0)], co_last_boot := [(sc_worker, sc_boot)]\<rparr>"
  unfolding sc_registered_def
  by (simp add: handle_frame_def handle_hello_def sc_hello_decodes hello_register_def sc_connected_def on_connection_def
      new_coordinator_def) (simp add: sc_hello_def)

lemma sc_pick: "pick_worker None sc_registered = Some 0"
  by (simp add: pick_worker_def sc_registered_eq conn_of_def)

lemma sc_issue:
  "\<exists>b. issue_begin sc_object INIT_ENGINE None sc_registered =
     (Some (1, (0, MT_WARM_TOPIC, encode_warm_topic (warm_topic_for sc_object INIT_ENGINE 1 sc_issued))), sc_issued) \<and>
     sc_issued = sc_registered\<lparr>co_budget := b, co_attempt_counter := 2,
       co_in_flight := [(1, \<lparr>at_object = sc_object, at_worker = sc_worker, at_reservation = 1, at_op_reservation = 2\<rparr>)],
       co_in_flight_count := 1\<rparr>"
  unfolding sc_issued_def
  by (simp add: issue_begin_def sc_pick) (simp add: sc_registered_eq new_coordinator_def conn_of_def reserve_def
      new_tracker_def budget_limits_default_def fits_def kDefaultWarmBytes_def next_id_def usage_def usage_at_def Let_def)

lemma sc_reach_registered: "(co_step ^^ 2) new_coordinator sc_registered"
proof -
  have "co_step new_coordinator sc_connected"
    unfolding sc_connected_def by (rule cs_connect) (simp add: new_coordinator_def)
  moreover have "co_step sc_connected sc_registered"
    unfolding sc_registered_def by (rule cs_frame) (simp add: sc_connected_def on_connection_def)
  ultimately show ?thesis by (auto simp: numeral_2_eq_2)
qed

lemma sc_reach_issued: "(co_step ^^ 3) new_coordinator sc_issued"
proof -
  have "co_step sc_registered sc_issued" unfolding sc_issued_def by (rule cs_issue)
  then show ?thesis using sc_reach_registered by (auto simp: numeral_3_eq_3 numeral_2_eq_2)
qed

lemma sc_issued_fields:
  "co_in_flight sc_issued = [(1, \<lparr>at_object = sc_object, at_worker = sc_worker, at_reservation = 1, at_op_reservation = 2\<rparr>)]"
  "conn_of 0 sc_issued = \<lparr>cn_id = sc_worker, cn_boot = sc_boot, cn_node = sc_node, cn_registered = True, cn_backend = ''cpu''\<rparr>"
  "co_epoch sc_issued = co_epoch new_coordinator" "co_warmth_gen sc_issued = 0" "co_dep_gen sc_issued = 0"
proof -
  obtain b where e: "sc_issued = sc_registered\<lparr>co_budget := b, co_attempt_counter := 2,
       co_in_flight := [(1, \<lparr>at_object = sc_object, at_worker = sc_worker, at_reservation = 1, at_op_reservation = 2\<rparr>)],
       co_in_flight_count := 1\<rparr>" using sc_issue by blast
  show "co_in_flight sc_issued = [(1, \<lparr>at_object = sc_object, at_worker = sc_worker, at_reservation = 1, at_op_reservation = 2\<rparr>)]"
    "conn_of 0 sc_issued = \<lparr>cn_id = sc_worker, cn_boot = sc_boot, cn_node = sc_node, cn_registered = True, cn_backend = ''cpu''\<rparr>"
    "co_epoch sc_issued = co_epoch new_coordinator" "co_warmth_gen sc_issued = 0" "co_dep_gen sc_issued = 0"
    unfolding e conn_of_def by (simp_all add: sc_registered_eq new_coordinator_def)
qed

lemma sc_authority:
  "authority_ok 0 (wr_boot sc_result) (wr_epoch sc_result) (wr_warmth_gen sc_result) (wr_dep_gen sc_result) sc_issued"
  by (simp add: authority_ok_def sc_issued_fields sc_result_def)

text \<open>The result is accepted: the attempt is gone.\<close>

lemma sc_result_settles: "co_in_flight (snd (handle_warm_result 0 sc_clock (encode_warm_result sc_result) sc_issued)) = []"
  using sc_authority
  by (simp add: handle_warm_result_def sc_result_decodes Let_def settle_attempt_def worker_objects_insert_def sc_issued_fields)
    (simp add: sc_result_def sc_issued_fields split: option.split)

section \<open>A fabric with room for one warming\<close>

definition sc_policy :: warmth_policy where
  "sc_policy = (policy_defaults 1)\<lparr>pol_budgets := budget_limits_default\<lparr>device_memory_bytes := kDefaultWarmBytes\<rparr>\<rparr>"

definition sc_cold_object :: warmth_object where
  "sc_cold_object = new_object sc_object MODEL_WEIGHTS sc_worker sc_node ''gpu'' ''cpu''"

definition sc_fabric :: fabric where
  "sc_fabric = snd (upsert sc_cold_object (new_fabric sc_worker sc_node ''gpu'' ''cpu'' sc_policy 0))"

definition sc_warming :: fabric where
  "sc_warming = snd (warm_begin sc_object sc_fabric)"

lemma sc_fabric_find: "map_find sc_object (fb_objects sc_fabric) = Some sc_cold_object"
  by (simp add: sc_fabric_def upsert_def new_fabric_def sc_cold_object_def)

lemma sc_fabric_budget: "fb_budget sc_fabric = new_tracker (pol_budgets sc_policy)"
  by (simp add: sc_fabric_def upsert_def new_fabric_def)

lemma sc_fabric_reserve:
  "\<exists>e b. reserve BK_DEVICE_MEMORY kDefaultWarmBytes ''warm'' (fb_budget sc_fabric) = (1, e, b)"
  by (simp add: sc_fabric_budget reserve_def new_tracker_def sc_policy_def fits_def kDefaultWarmBytes_def next_id_def
      usage_def usage_at_def Let_def)

lemma sc_warm_begin: "warm_begin sc_object sc_fabric = (Some (1, 2), sc_warming)"
  unfolding sc_warming_def
  by (simp add: warm_begin_def sc_fabric_find sc_fabric_budget reserve_def new_tracker_def sc_policy_def fits_def
      kDefaultWarmBytes_def next_id_def usage_def usage_at_def Let_def sc_cold_object_def transition_allowed_def
      budget_limits_default_def)

lemma sc_warming_policy: "fb_policy sc_warming = sc_policy"
  unfolding sc_warming_def warm_begin_def sc_fabric_find
  by (simp split: prod.split) (simp add: sc_fabric_def upsert_def new_fabric_def)

lemma sc_reach_warming:
  "(fabric_step ^^ 2) (new_fabric sc_worker sc_node ''gpu'' ''cpu'' sc_policy 0, {#}) (sc_warming, {#(sc_object, 1, 2)#})"
proof -
  have "fabric_step (new_fabric sc_worker sc_node ''gpu'' ''cpu'' sc_policy 0, {#}) (sc_fabric, {#})"
    unfolding sc_fabric_def by (rule fs_upsert)
  moreover have "fabric_step (sc_fabric, {#}) (sc_warming, {#(sc_object, 1, 2)#})"
    using fs_warm_begin[OF sc_warm_begin] .
  ultimately show ?thesis by (auto simp: numeral_2_eq_2)
qed

section \<open>A snapshot\<close>

definition sc_snapshot :: snapshot where
  "sc_snapshot = \<lparr>sn_format_version = 1, sn_epoch = 1, sn_warmth_generation = 1, sn_dependency_generation = 1,
     sn_policy_generation = 1, sn_policy = policy_defaults 1, sn_objects = [sc_cold_object]\<rparr>"

definition sc_io :: file_io where
  "sc_io = \<lparr>io_open_ok = True, io_write_ok = True, io_partial = [], io_tell_ok = True, io_read_ok = True\<rparr>"

lemma sc_object_ok: "obj_wire_ok sc_cold_object" "obj_finite sc_cold_object" "obj_nf sc_cold_object = sc_cold_object"
  by (simp_all add: sc_cold_object_def new_object_def obj_wire_ok_def obj_finite_def obj_nf_def opt_nf_def inv_nf_def
      clamp_unit_def dbl_lt_finite dbl_lit_one)

lemma sc_snapshot_ok: "snap_ok sc_snapshot" "snap_finite sc_snapshot"
proof -
  show "snap_finite sc_snapshot" by (simp add: snap_finite_def sc_snapshot_def policy_finite_defaults sc_object_ok)
  have "length (payload_of sc_snapshot) < 2 ^ 32"
    by (simp add: payload_of_def sc_snapshot_def encode_policy_def encode_object_def sc_cold_object_def new_object_def
        put_u64_def put_u8_def put_id_def put_str_def put_opt_def put_dims_def put_deps_def put_invalidation_def put_bool_def
        policy_defaults_def Let_def dimension_indices_def)
  then show "snap_ok sc_snapshot" using sc_object_ok
    by (simp add: snap_ok_def sc_snapshot_def policy_defaults_def) (simp add: sc_cold_object_def new_object_def)
qed

section \<open>The worker of the run\<close>

definition sc_peer :: worker where
  "sc_peer = (new_worker sc_worker sc_boot sc_node sc_node ''cpu'' [] [])\<lparr>wk_epoch := co_epoch new_coordinator\<rparr>"

lemma sc_peer_in_sync: "in_sync 0 sc_peer sc_registered"
  by (simp add: in_sync_def authority_ok_def sc_registered_eq conn_of_def sc_peer_def new_worker_def new_coordinator_def)

lemma sc_peer_hello_ok: "hello_ok (worker_hello sc_peer)"
  by (simp add: hello_ok_def worker_hello_def sc_peer_def new_worker_def)

section \<open>The same run with its threads\<close>

text \<open>The connection is accepted and gets its thread, which reads the \<open>HELLO\<close> and handles it; a warming is
  issued and a caller of \<open>wait_until_settled\<close> finds it in flight.\<close>

definition sc_events :: "server_event list" where
  "sc_events = [Listener_Accepts, Connection_Starts False,
     Thread_Reads 0 \<lparr>fr_type = MT_HELLO, fr_flags = 0, fr_payload = encode_hello sc_hello\<rparr>, Thread_Handles 0 sc_clock,
     Public (Issue sc_object INIT_ENGINE None), Wait_Checks]"

definition sc_server :: server where
  "sc_server = \<lparr>sv_co = sc_issued, sv_listening = True, sv_stopping = False, sv_joined = False, sv_loop = Accepting,
     sv_open = [0], sv_threads = [0], sv_running = [(0, Reading)], sv_next = 1, sv_waiter = Checked\<rparr>"

lemma sc_not_settled: "\<not> settled sc_issued"
proof -
  obtain b where e: "sc_issued = sc_registered\<lparr>co_budget := b, co_attempt_counter := 2,
       co_in_flight := [(1, \<lparr>at_object = sc_object, at_worker = sc_worker, at_reservation = 1, at_op_reservation = 2\<rparr>)],
       co_in_flight_count := 1\<rparr>" using sc_issue by blast
  show ?thesis unfolding e by (simp add: settled_def)
qed

lemma sc_server_run: "server_run sc_events new_server = Some sc_server"
  using sc_not_settled
  by (simp add: sc_events_def new_server_def start_connection_def notify_all_def sc_server_def
      sc_issued_def sc_registered_def sc_connected_def)

lemma sc_workers: "co_workers sc_issued = [(sc_worker, 0)]"
proof -
  obtain b where e: "sc_issued = sc_registered\<lparr>co_budget := b, co_attempt_counter := 2,
       co_in_flight := [(1, \<lparr>at_object = sc_object, at_worker = sc_worker, at_reservation = 1, at_op_reservation = 2\<rparr>)],
       co_in_flight_count := 1\<rparr>" using sc_issue by blast
  show ?thesis unfolding e by (simp add: sc_registered_eq)
qed

section \<open>A small operating system\<close>

text \<open>Its state is the next descriptor and the open ones; every call succeeds while descriptors are left.\<close>

definition sc_fresh :: "int \<times> int set \<Rightarrow> int \<times> int \<times> int set" where
  "sc_fresh w = (if fst w \<in> snd w \<or> fst w = invalid_socket then (invalid_socket, w) else (fst w, fst w + 1, insert (fst w) (snd w)))"

definition sc_os :: "(int \<times> int set) os" where
  "sc_os = \<lparr>os_socket = sc_fresh, os_reuseaddr = (\<lambda>s w. w), os_pton = (\<lambda>host a. a), os_bind = (\<lambda>s a p w. (0, w)),
     os_listen = (\<lambda>s n w. (0, w)), os_getsockname = (\<lambda>s w. (4000, w)), os_accept = (\<lambda>l w. sc_fresh w),
     os_connect = (\<lambda>s a p w. (- 1, w)), os_shutdown = (\<lambda>s w. w), os_close = (\<lambda>s w. (fst w, snd w - {s}))\<rparr>"

lemma sc_os_ok: "os_ok sc_os snd"
  by (auto simp: os_ok_def sc_os_def sc_fresh_def split: if_splits)

end
