(* ===== verification/Decimal.thy ===== *)
theory Decimal
  imports Ieee_Double
begin

text \<open>
  Decimal text of a double, as \<open>include/warmth/json.hpp\<close> uses it: \<open>snprintf\<close> with \<open>%lld\<close> and
  \<open>%.17g\<close>, and \<open>std::stod\<close>. Both conversions are correctly rounded (ties to even); \<open>stod\<close> throws
  when \<open>strtod\<close> reports a range error, which is overflow, or a result that is both tiny and inexact.
  The main fact is that seventeen significant digits determine a normal double.
\<close>

section \<open>Digits\<close>

definition is_digit :: "char \<Rightarrow> bool" where
  "is_digit c \<longleftrightarrow> 48 \<le> (of_char c :: nat) \<and> (of_char c :: nat) \<le> 57"

definition digit_val :: "char \<Rightarrow> nat" where
  "digit_val c = of_char c - 48"

definition digits_val :: "string \<Rightarrow> nat" where
  "digits_val ds = fold (\<lambda>c n. n * 10 + digit_val c) ds 0"

lemma of_char_digit: "n < 10 \<Longrightarrow> of_char (char_of (n + 48 :: nat) :: char) = n + 48"
  by (simp add: of_char_of)

lemma is_digit_digit [simp]: "n < 10 \<Longrightarrow> is_digit (char_of (n + 48 :: nat))"
  by (simp add: is_digit_def of_char_digit del: of_char_of)

lemma digit_val_digit [simp]: "n < 10 \<Longrightarrow> digit_val (char_of (n + 48 :: nat)) = n"
  by (simp add: digit_val_def of_char_digit del: of_char_of)

lemma digits_val_Nil [simp]: "digits_val [] = 0"
  by (simp add: digits_val_def)

lemma digits_val_snoc [simp]: "digits_val (ds @ [c]) = digits_val ds * 10 + digit_val c"
  by (simp add: digits_val_def)

lemma digits_val_append: "digits_val (ds @ es) = digits_val ds * 10 ^ length es + digits_val es"
proof (induction es rule: rev_induct)
  case (snoc c es)
  have "digits_val (ds @ es @ [c]) = digits_val ((ds @ es) @ [c])" by simp
  then show ?case unfolding digits_val_snoc snoc by (simp add: algebra_simps)
qed simp

lemma digits_val_zeros [simp]: "digits_val (replicate n (CHR ''0'')) = 0"
  by (induction n) (simp_all add: digits_val_append[of "[CHR ''0'']", simplified] digits_val_def digit_val_def)

lemma nat_digits_digits: "list_all is_digit (nat_digits n)"
proof (induction n rule: nat_digits.induct)
  case (1 n)
  then show ?case by (subst nat_digits.simps) simp
qed

lemma nat_digits_val [simp]: "digits_val (nat_digits n) = n"
proof (induction n rule: nat_digits.induct)
  case (1 n)
  then show ?case by (subst nat_digits.simps) (simp add: digits_val_def)
qed

lemma nat_digits_nonempty [simp]: "nat_digits n \<noteq> []"
  by (subst nat_digits.simps) simp

text \<open>The first digit of a positive number is not zero.\<close>

lemma nat_digits_hd: "0 < n \<Longrightarrow> hd (nat_digits n) \<noteq> CHR ''0''"
proof (induction n rule: nat_digits.induct)
  case (1 n)
  show ?case
  proof (cases "n < 10")
    case True
    have "char_of (n + 48) \<noteq> CHR ''0''"
    proof
      assume "char_of (n + 48) = CHR ''0''"
      then have "(of_char (char_of (n + 48) :: char) :: nat) = of_char (CHR ''0'')" by simp
      then show False unfolding of_char_digit[OF True] using 1(2) by simp
    qed
    then show ?thesis using True by (subst nat_digits.simps) simp
  next
    case False
    then have "0 < n div 10" by (simp add: div_greater_zero_iff)
    with False show ?thesis using 1(1) by (subst nat_digits.simps) (simp add: hd_append)
  qed
qed

lemma length_nat_digits: "10 ^ k \<le> n \<Longrightarrow> n < 10 ^ Suc k \<Longrightarrow> length (nat_digits n) = Suc k"
proof (induction k arbitrary: n)
  case 0
  then show ?case by (subst nat_digits.simps) simp
next
  case (Suc k)
  have "(10::nat) \<le> 10 ^ Suc k" by simp
  then have "\<not> n < 10" using Suc.prems(1) by linarith
  moreover have "10 ^ k \<le> n div 10" "n div 10 < 10 ^ Suc k" using Suc.prems by auto
  ultimately show ?case using Suc.IH by (subst nat_digits.simps) simp
qed

text \<open>Removing trailing zeros.\<close>

definition strip_zeros :: "string \<Rightarrow> string" where
  "strip_zeros ds = rev (dropWhile (\<lambda>c. c = CHR ''0'') (rev ds))"

lemma strip_zeros_split: "\<exists>n. ds = strip_zeros ds @ replicate n (CHR ''0'')"
proof -
  have "takeWhile (\<lambda>c. c = CHR ''0'') (rev ds) = replicate (length (takeWhile (\<lambda>c. c = CHR ''0'') (rev ds))) (CHR ''0'')"
    by (intro replicate_eqI) (auto dest: set_takeWhileD)
  then have "rev ds = replicate (length (takeWhile (\<lambda>c. c = CHR ''0'') (rev ds))) (CHR ''0'') @ dropWhile (\<lambda>c. c = CHR ''0'') (rev ds)"
    using takeWhile_dropWhile_id by metis
  then have "ds = strip_zeros ds @ replicate (length (takeWhile (\<lambda>c. c = CHR ''0'') (rev ds))) (CHR ''0'')"
    unfolding strip_zeros_def by (metis rev_append rev_replicate rev_rev_ident)
  then show ?thesis by blast
qed

section \<open>Decimal exponent and significant digits\<close>

fun ilog10 :: "nat \<Rightarrow> nat" where
  "ilog10 n = (if n < 10 then 0 else Suc (ilog10 (n div 10)))"

declare ilog10.simps [simp del]

lemma ilog10_bounds: "0 < n \<Longrightarrow> 10 ^ ilog10 n \<le> n \<and> n < 10 ^ Suc (ilog10 n)"
proof (induction n rule: ilog10.induct)
  case (1 n)
  show ?case
  proof (cases "n < 10")
    case True
    with 1 show ?thesis by (simp add: ilog10.simps[of n])
  next
    case False
    then have "10 ^ ilog10 (n div 10) \<le> n div 10 \<and> n div 10 < 10 ^ Suc (ilog10 (n div 10))"
      by (intro 1) (auto simp: div_greater_zero_iff)
    with False show ?thesis by (auto simp: ilog10.simps[of n])
  qed
qed

lemma ilog10_rat:
  assumes "0 < n"
  shows "(10::rat) ^ ilog10 n \<le> of_nat n" "of_nat n + 1 \<le> (10::rat) ^ Suc (ilog10 n)"
proof -
  have "of_nat (10 ^ ilog10 n) \<le> (of_nat n :: rat)" "of_nat (Suc n) \<le> (of_nat (10 ^ Suc (ilog10 n)) :: rat)"
    using ilog10_bounds[OF assms] by (simp_all only: of_nat_le_iff Suc_le_eq)
  then show "(10::rat) ^ ilog10 n \<le> of_nat n" "of_nat n + 1 \<le> (10::rat) ^ Suc (ilog10 n)"
    by (simp_all add: add.commute)
qed

text \<open>The exponent \<open>%e\<close> would print for \<open>q > 0\<close>.\<close>

definition dec_exp :: "rat \<Rightarrow> int" where
  "dec_exp q = (if 1 \<le> q then int (ilog10 (nat \<lfloor>q\<rfloor>)) else - int (Suc (ilog10 (nat (\<lceil>1 / q\<rceil> - 1)))))"

text \<open>\<open>p\<close> significant digits, as an integer, and the exponent of the first; a carry out of the rounding
  moves the exponent.\<close>

definition sig_digits :: "nat \<Rightarrow> rat \<Rightarrow> nat \<times> int" where
  "sig_digits p q = (let x = dec_exp q; n = nat (rne (q / 10 powi (x - (int p - 1))))
     in if n = 10 ^ p then (10 ^ (p - 1), x + 1) else (n, x))"

abbreviation sig17 :: "rat \<Rightarrow> nat \<times> int" where
  "sig17 \<equiv> sig_digits 17"

lemma sig17_eq:
  "sig17 q = (let x = dec_exp q; n = nat (rne (q / 10 powi (x - 16))) in if n = 10 ^ 17 then (10 ^ 16, x + 1) else (n, x))"
proof -
  have "int 17 - 1 = 16" "17 - 1 = (16::nat)" by simp_all
  then show ?thesis by (simp only: sig_digits_def)
qed

lemma dec_exp_bounds:
  assumes "0 < q"
  shows "10 powi dec_exp q \<le> q" "q < 10 powi (dec_exp q + 1)"
proof -
  have "10 powi dec_exp q \<le> q \<and> q < 10 powi (dec_exp q + 1)"
  proof (cases "1 \<le> q")
    case True
    define n where "n = nat \<lfloor>q\<rfloor>"
    have n: "0 < n" "of_nat n \<le> q" "q < of_nat n + 1"
      using True floor_correct[of q] by (simp_all add: n_def)
    have "(10::rat) ^ ilog10 n \<le> of_nat n" "of_nat n + 1 \<le> (10::rat) ^ Suc (ilog10 n)"
      by (rule ilog10_rat[OF n(1)])+
    then have "10 ^ ilog10 n \<le> q \<and> q < 10 ^ Suc (ilog10 n)" using n by linarith
    moreover have "dec_exp q = int (ilog10 n)" using True by (simp add: dec_exp_def n_def)
    ultimately show ?thesis by (simp add: power_int_add)
  next
    case False
    define m where "m = nat (\<lceil>1 / q\<rceil> - 1)"
    have "1 < 1 / q" using False assms by simp
    then have c: "1 < \<lceil>1 / q\<rceil>" by (simp add: less_ceiling_iff)
    then have m: "0 < m" "int m = \<lceil>1 / q\<rceil> - 1" unfolding m_def by linarith+
    have r: "of_nat m < 1 / q" "1 / q \<le> of_nat m + 1"
    proof -
      have "of_nat m = (of_int (\<lceil>1 / q\<rceil> - 1) :: rat)" by (simp flip: m(2))
      then have "of_nat m = of_int \<lceil>1 / q\<rceil> - (1 :: rat)" by (simp only: of_int_diff of_int_1)
      then show "of_nat m < 1 / q" "1 / q \<le> of_nat m + 1" using ceiling_correct[of "1 / q"] by linarith+
    qed
    define j where "j = ilog10 m"
    have "(10::rat) ^ j \<le> of_nat m" "of_nat m + 1 \<le> (10::rat) ^ Suc j"
      unfolding j_def by (rule ilog10_rat[OF m(1)])+
    then have "10 ^ j < 1 / q" "1 / q \<le> 10 ^ Suc j" using r by linarith+
    then have "q < 1 / 10 ^ j" "1 / 10 ^ Suc j \<le> q" using assms by (simp_all add: field_simps)
    moreover have "dec_exp q = - int (Suc j)" using False by (simp add: dec_exp_def m_def j_def)
    moreover have "(10::rat) powi (- int i) = 1 / 10 ^ i" for i by (simp add: power_int_minus divide_inverse)
    moreover have "- int (Suc j) + 1 = - int j" by simp
    ultimately show ?thesis by (simp only: simp_thms)
  qed
  then show "10 powi dec_exp q \<le> q" "q < 10 powi (dec_exp q + 1)" by blast+
qed

lemma rne_near: "\<bar>of_int (rne q) - q\<bar> \<le> 1 / 2"
proof -
  have "of_int \<lfloor>q\<rfloor> \<le> q" "q < of_int \<lfloor>q\<rfloor> + 1" by linarith+
  then show ?thesis by (auto simp: rne_def Let_def)
qed

lemma rne_unique: "\<bar>q - of_int i\<bar> < 1 / 2 \<Longrightarrow> rne q = i"
proof -
  assume "\<bar>q - of_int i\<bar> < 1 / 2"
  then have "\<bar>of_int (rne q) - of_int i :: rat\<bar> < 1" using rne_near[of q] by linarith
  then have "\<bar>rne q - i\<bar> < 1" by (metis of_int_1_less_iff of_int_abs of_int_diff of_int_1 of_int_less_iff)
  then show ?thesis by simp
qed

text \<open>What the digits say, and how far it is from the number.\<close>

lemma sig17_range:
  assumes "0 < q" "sig17 q = (n, x)"
  shows "10 ^ 16 \<le> n" "n < 10 ^ 17"
    and "\<bar>of_nat n * 10 powi (x - 16) - q\<bar> \<le> 1 / 2 * 10 powi (dec_exp q - 16)"
proof -
  define y where "y = dec_exp q"
  define s where "s = (10::rat) powi (y - 16)"
  have s: "0 < s" by (simp add: s_def)
  have lo: "10 ^ 16 \<le> q / s"
  proof -
    have "10 ^ 16 * s = 10 powi y" unfolding s_def by (simp add: power_int_diff)
    then show ?thesis using dec_exp_bounds(1)[OF assms(1)] s by (simp add: pos_le_divide_eq y_def)
  qed
  have hi: "q / s \<le> 10 ^ 17"
  proof -
    have "10 ^ 17 * s = 10 powi (y + 1)" unfolding s_def by (simp add: power_int_diff power_int_add)
    then show ?thesis using dec_exp_bounds(2)[OF assms(1)] s by (simp add: pos_divide_le_eq y_def)
  qed
  have r1: "10 ^ 16 \<le> rne (q / s)" using rne_mono[OF lo] rne_of_int[of "10 ^ 16"] by simp
  have r2: "rne (q / s) \<le> 10 ^ 17" using rne_mono[OF hi] rne_of_int[of "10 ^ 17"] by simp
  define m where "m = nat (rne (q / s))"
  have m: "int m = rne (q / s)" using r1 by (simp add: m_def)
  have m16: "10 ^ 16 \<le> m" "m \<le> 10 ^ 17" using r1 r2 by (simp_all add: m_def le_nat_iff nat_le_iff)
  have "\<bar>of_nat m - q / s\<bar> \<le> 1 / 2" using rne_near[of "q / s"] by (simp flip: m)
  then have "\<bar>of_nat m - q / s\<bar> * s \<le> 1 / 2 * s" using s by (intro mult_right_mono) simp_all
  moreover have "\<bar>of_nat m - q / s\<bar> * s = \<bar>of_nat m * s - q\<bar>"
  proof -
    have "(of_nat m - q / s) * s = of_nat m * s - q" using s by (simp add: left_diff_distrib)
    then show ?thesis using abs_mult[of "of_nat m - q / s" s] s by simp
  qed
  ultimately have near: "\<bar>of_nat m * s - q\<bar> \<le> 1 / 2 * s" by simp
  have eq: "(n, x) = (if m = 10 ^ 17 then (10 ^ 16, y + 1) else (m, y))"
    using assms(2) unfolding sig17_eq Let_def m_def s_def y_def by (rule sym)
  have carry: "of_nat (10 ^ 16) * 10 powi (y + 1 - 16) = (of_nat (10 ^ 17) * s :: rat)"
    unfolding s_def by (simp add: power_int_diff power_int_add)
  show "10 ^ 16 \<le> n" "n < 10 ^ 17" using eq m16 by (auto split: if_splits)
  show "\<bar>of_nat n * 10 powi (x - 16) - q\<bar> \<le> 1 / 2 * 10 powi (dec_exp q - 16)"
  proof (cases "m = 10 ^ 17")
    case True
    then have nx: "n = 10 ^ 16" "x = y + 1" using eq by auto
    show ?thesis using near unfolding nx carry True by (simp only: s_def y_def)
  next
    case False
    then show ?thesis using near eq by (simp add: s_def y_def)
  qed
qed

section \<open>Seventeen digits determine a normal double\<close>

lemma rat_above_pow2: "2 ^ a + b \<le> M \<Longrightarrow> (2::rat) ^ a + of_nat b \<le> of_nat M"
proof -
  assume "2 ^ a + b \<le> M"
  then have "of_nat (2 ^ a + b) \<le> (of_nat M :: rat)" by (simp only: of_nat_le_iff)
  then show ?thesis by simp
qed

lemma rat_below_pow2: "M < 2 ^ a \<Longrightarrow> of_nat M + 1 \<le> (2::rat) ^ a"
proof -
  assume "M < 2 ^ a"
  then have "of_nat (Suc M) \<le> (of_nat (2 ^ a) :: rat)" by (simp only: of_nat_le_iff Suc_le_eq)
  then show ?thesis by (simp add: add.commute)
qed

lemma scaled_distance: "\<bar>y / 2 ^ k - i\<bar> = \<bar>y - i * 2 ^ k\<bar> / (2::rat) ^ k"
proof -
  have "y / 2 ^ k - i = (y - i * 2 ^ k) / 2 ^ k" by (simp add: diff_divide_distrib)
  then show ?thesis by (simp only: abs_divide) simp
qed

lemma ilog2_floor: "2 ^ a \<le> y \<Longrightarrow> y < 2 ^ Suc a \<Longrightarrow> ilog2 (nat \<lfloor>y\<rfloor>) = a" for y :: rat
proof -
  assume "2 ^ a \<le> y" "y < 2 ^ Suc a"
  then have f: "2 ^ a \<le> \<lfloor>y\<rfloor>" "\<lfloor>y\<rfloor> < 2 ^ Suc a" by (simp_all add: le_floor_iff floor_less_iff)
  then have "0 \<le> \<lfloor>y\<rfloor>" using order_trans[OF zero_le_power[of 2 a] f(1)] by simp
  with f show ?thesis by (intro ilog2_unique) (simp_all add: le_nat_iff nat_less_iff)
qed

lemma mag_round_scaled:
  assumes "ilog2 (nat \<lfloor>y\<rfloor>) - 52 = k" "\<bar>y - of_nat M * 2 ^ k\<bar> < 2 ^ k / 2"
  shows "mag_round y = k * 2 ^ 52 + M"
proof -
  have "\<bar>y / 2 ^ k - of_int (int M)\<bar> < 1 / 2"
    using assms(2) scaled_distance[of y k "of_nat M"] by (simp add: pos_divide_less_eq)
  then have "rne (y / 2 ^ k) = int M" by (rule rne_unique)
  then show ?thesis by (simp add: mag_round_def assms(1) Let_def)
qed

text \<open>A number of units close enough to a normal magnitude rounds to it; just below a power of two the
  doubles are twice as dense.\<close>

lemma mag_round_near:
  assumes u: "2 ^ 52 \<le> M" "M < 2 ^ 53" and near: "\<bar>y - of_nat M * 2 ^ k\<bar> < 2 ^ k / 2"
    and dense: "M = 2 ^ 52 \<Longrightarrow> \<bar>y - of_nat M * 2 ^ k\<bar> < 2 ^ k / 4"
  shows "mag_round y = k * 2 ^ 52 + M"
proof -
  have M: "2 ^ 52 \<le> (of_nat M :: rat)" "of_nat M + 1 \<le> (2 ^ 53 :: rat)"
    using rat_above_pow2[of 52 0 M] rat_below_pow2[of M 53] u by simp_all
  have k2: "(0::rat) < 2 ^ k" by simp
  have "(of_nat M + 1) * 2 ^ k \<le> 2 ^ 53 * (2 :: rat) ^ k" using M(2) by (intro mult_right_mono) simp_all
  moreover have d: "y < of_nat M * 2 ^ k + 2 ^ k" "of_nat M * 2 ^ k - 2 ^ k < y" using near k2 by linarith+
  then have "y < (of_nat M + 1) * 2 ^ k" by (simp add: distrib_right)
  ultimately have "y < 2 ^ 53 * 2 ^ k" by (rule less_le_trans[rotated])
  then have hi: "y < 2 ^ Suc (52 + k)" by (simp add: power_add)
  have lo: "(of_nat M - 1) * 2 ^ k < y" using d(2) by (simp add: left_diff_distrib)
  consider "2 ^ (52 + k) \<le> y" | "y < 2 ^ (52 + k)" "k = 0" | j where "y < 2 ^ (52 + k)" "k = Suc j"
    by (cases k) (auto simp: not_le[symmetric])
  then show ?thesis
  proof cases
    case 1
    then show ?thesis using ilog2_floor[OF _ hi] near by (intro mag_round_scaled) simp_all
  next
    case 2
    then have "\<lfloor>y\<rfloor> < 4503599627370496" by (simp add: floor_less_iff)
    then have "nat \<lfloor>y\<rfloor> < 4503599627370496" by linarith
    then have "nat \<lfloor>y\<rfloor> \<le> 2 ^ 52" by simp
    then have "ilog2 (nat \<lfloor>y\<rfloor>) \<le> ilog2 (2 ^ 52)" by (rule ilog2_mono)
    also have "\<dots> = 52" by (rule ilog2_unique) simp_all
    finally show ?thesis using 2(2) near by (intro mag_round_scaled) simp_all
  next
    case 3
    have "M = 2 ^ 52"
    proof (rule ccontr)
      assume "M \<noteq> 2 ^ 52"
      with u have "2 ^ 52 \<le> (of_nat M - 1 :: rat)" using rat_above_pow2[of 52 1 M] by simp
      then have "2 ^ 52 * 2 ^ k \<le> (of_nat M - 1 :: rat) * 2 ^ k" by (intro mult_right_mono) simp_all
      moreover have "y < 2 ^ 52 * 2 ^ k" using 3(1) by (simp add: power_add)
      ultimately show False using lo by linarith
    qed
    then have d: "\<bar>y - of_nat (2 ^ 53) * 2 ^ j\<bar> < 2 ^ j / 2" using dense by (simp add: 3(2))
    moreover have "(0::rat) < 2 ^ j" by simp
    ultimately have "2 ^ (52 + j) \<le> y" unfolding abs_less_iff by (simp add: power_add)
    then have "ilog2 (nat \<lfloor>y\<rfloor>) = 52 + j" using 3 by (intro ilog2_floor) simp_all
    then show ?thesis using mag_round_scaled[of y j, OF _ d] \<open>M = 2 ^ 52\<close> by (simp add: 3(2))
  qed
qed

section \<open>\<open>std::stod\<close>\<close>

text \<open>\<open>q\<close> is the magnitude the text denotes; \<open>None\<close> is the exception. A result is tiny when it is below
  the smallest normal double after rounding to 53 bits.\<close>

definition stod :: "bool \<Rightarrow> rat \<Rightarrow> double option" where
  "stod neg q = (let u = q * units_per_one in
     if inf_mag \<le> mag_round u \<or> (u < 2 ^ 52 - 1 / 4 \<and> u \<noteq> of_int \<lfloor>u\<rfloor>) then None
     else Some (dbl_pack neg (mag_round u)))"

lemma stod_finite: "stod neg q = Some x \<Longrightarrow> isfinite x"
  using inf_mag_bound by (auto simp: stod_def Let_def isfinite_def split: if_splits)

lemma stod_exact: "isfinite x \<Longrightarrow> stod (dbl_neg x) \<bar>dbl_val x\<bar> = Some x"
proof -
  assume "isfinite x"
  moreover have "\<bar>dbl_val x\<bar> * units_per_one = of_nat (mag_units (dbl_mag x))"
    using units_per_one_pos by (simp add: dbl_val_def dbl_num_def abs_divide abs_of_pos)
  ultimately show ?thesis by (simp add: stod_def mag_round_units isfinite_def dbl_pack_id)
qed

text \<open>Away from the subnormals, reading back seventeen digits is exact.\<close>

lemma stod_sig17:
  assumes "isfinite x" "2 ^ 52 \<le> dbl_mag x" "sig17 \<bar>dbl_val x\<bar> = (n, e)"
  shows "stod (dbl_neg x) (of_nat n * 10 powi (e - 16)) = Some x"
proof -
  define m where "m = dbl_mag x"
  define k M where "k = m div 2 ^ 52 - 1" and "M = 2 ^ 52 + m mod 2 ^ 52"
  have m1: "m div 2 ^ 52 = Suc k" using assms(2) by (simp add: k_def m_def div_greater_zero_iff Suc_diff_le)
  have M: "2 ^ 52 \<le> M" "M < 2 ^ 53" by (simp_all add: M_def)
  have mk: "m = k * 2 ^ 52 + M" using div_mult_mod_eq[of m "2 ^ 52"] unfolding m1 M_def by simp
  define u :: rat where "u = of_nat M * 2 ^ k"
  define q where "q = \<bar>dbl_val x\<bar>"
  have qu: "q * units_per_one = u"
  proof -
    have "q * units_per_one = of_nat (mag_units m)"
      using units_per_one_pos by (simp add: q_def m_def dbl_val_def dbl_num_def abs_divide abs_of_pos)
    moreover have "mag_units m = M * 2 ^ k" unfolding mag_units_def Let_def m1 M_def by simp
    ultimately show ?thesis by (simp add: u_def)
  qed
  have u0: "0 < u" using M(1) by (simp add: u_def)
  then have q0: "0 < q" using qu units_per_one_pos by (metis zero_less_mult_pos2)
  define r :: rat where "r = of_nat n * 10 powi (e - 16)"
  have "\<bar>r - q\<bar> \<le> 1 / 2 * 10 powi (dec_exp q - 16)"
    unfolding r_def using sig17_range(3)[OF q0] assms(3) by (simp add: q_def)
  also have "\<dots> \<le> q / (2 * 10 ^ 16)"
    using dec_exp_bounds(1)[OF q0] by (simp add: power_int_diff)
  finally have "\<bar>r - q\<bar> * units_per_one \<le> q / (2 * 10 ^ 16) * units_per_one"
    by (rule mult_right_mono) (simp add: less_imp_le)
  then have d: "\<bar>r * units_per_one - u\<bar> \<le> u / (2 * 10 ^ 16)"
    using abs_mult[of "r - q" units_per_one] abs_of_pos[OF units_per_one_pos]
    unfolding qu[symmetric] left_diff_distrib by (simp only: times_divide_eq_left)
  have M53: "of_nat M < (2 ^ 53 :: rat)" using rat_below_pow2[OF M(2)] by simp
  have near: "\<bar>r * units_per_one - of_nat M * 2 ^ k\<bar> < 2 ^ k / 2"
  proof -
    have "of_nat M / (2 * 10 ^ 16) * 2 ^ k < (1 / 2 :: rat) * 2 ^ k"
      using M53 by (intro mult_strict_right_mono) simp_all
    moreover have "u / (2 * 10 ^ 16) = of_nat M / (2 * 10 ^ 16) * 2 ^ k" by (simp add: u_def)
    ultimately show ?thesis using d unfolding u_def by linarith
  qed
  have dense: "\<bar>r * units_per_one - of_nat M * 2 ^ k\<bar> < 2 ^ k / 4" if "M = 2 ^ 52"
  proof -
    have "\<bar>r * units_per_one - of_nat M * 2 ^ k\<bar> \<le> 2 ^ 52 / (2 * 10 ^ 16) * 2 ^ k" using d that by (simp add: u_def)
    also have "\<dots> < (1 / 4 :: rat) * 2 ^ k" by (intro mult_strict_right_mono) simp_all
    finally show ?thesis by simp
  qed
  have rnd: "mag_round (r * units_per_one) = m" using mag_round_near[OF M near dense] mk by simp
  have "2 ^ 52 - 1 / 4 \<le> r * units_per_one"
  proof (cases "M = 2 ^ 52")
    case True
    have "(2 ^ 52 - 1 / 4) * 1 \<le> (of_nat M - 1 / 4 :: rat) * 2 ^ k" unfolding True by (intro mult_mono) simp_all
    then show ?thesis using dense[OF True] unfolding left_diff_distrib abs_less_iff by simp
  next
    case False
    then have "2 ^ 52 + 1 \<le> (of_nat M :: rat)" using M(1) rat_above_pow2[of 52 1 M] by simp
    moreover have "(1::rat) \<le> 2 ^ k" by simp
    ultimately have "(2 ^ 52 + 1 - 1 / 2) * 1 \<le> (of_nat M - 1 / 2 :: rat) * 2 ^ k" by (intro mult_mono) simp_all
    then show ?thesis using near unfolding left_diff_distrib abs_less_iff by simp
  qed
  then show ?thesis using rnd assms(1) dbl_pack_id[of x]
    by (simp add: stod_def r_def[symmetric] isfinite_def m_def)
qed

section \<open>\<open>snprintf\<close>\<close>

text \<open>The parts of a number: sign, integer digits, fraction digits and an exponent, which \<open>%e\<close> prints with
  its sign and at least two digits.\<close>

definition exp_digits :: "int \<Rightarrow> string" where
  "exp_digits e = (let ds = nat_digits (nat \<bar>e\<bar>) in if length ds < 2 then CHR ''0'' # ds else ds)"

definition number_parts :: "bool \<Rightarrow> string \<Rightarrow> string \<Rightarrow> int option \<Rightarrow> string" where
  "number_parts neg ds fs eo = (if neg then ''-'' else []) @ ds @ (if fs = [] then [] else CHR ''.'' # fs) @
     (case eo of None \<Rightarrow> [] | Some e \<Rightarrow> CHR ''e'' # (if e < 0 then CHR ''-'' else CHR ''+'') # exp_digits e)"

definition printf_lld :: "int \<Rightarrow> string" where
  "printf_lld i = number_parts (i < 0) (nat_digits (nat \<bar>i\<bar>)) [] None"

text \<open>\<open>%.pg\<close>; plain \<open>%g\<close> has six digits.\<close>

definition printf_g :: "nat \<Rightarrow> double \<Rightarrow> string" where
  "printf_g p x =
    (if isnan x then (if dbl_neg x then ''-nan'' else ''nan'')
     else if isinf x then (if dbl_neg x then ''-inf'' else ''inf'')
     else if dbl_mag x = 0 then (if dbl_neg x then ''-0'' else ''0'')
     else case sig_digits p \<bar>dbl_val x\<bar> of (n, e) \<Rightarrow> let ds = nat_digits n in
       if - 4 \<le> e \<and> e < int p then
         if 0 \<le> e then number_parts (dbl_neg x) (take (nat (e + 1)) ds) (strip_zeros (drop (nat (e + 1)) ds)) None
         else number_parts (dbl_neg x) ''0'' (strip_zeros (replicate (nat (- e - 1)) (CHR ''0'') @ ds)) None
       else number_parts (dbl_neg x) (take 1 ds) (strip_zeros (drop 1 ds)) (Some e))"

abbreviation printf_17g :: "double \<Rightarrow> string" where
  "printf_17g \<equiv> printf_g 17"

text \<open>What such a text denotes.\<close>

definition decimal_value :: "string \<Rightarrow> string \<Rightarrow> int \<Rightarrow> rat" where
  "decimal_value ds fs e = of_nat (digits_val (ds @ fs)) * 10 powi (e - int (length fs))"

definition exp_of :: "int option \<Rightarrow> int" where
  "exp_of eo = (case eo of None \<Rightarrow> 0 | Some e \<Rightarrow> e)"

lemma decimal_value_strip: "decimal_value ds (strip_zeros fs) e = decimal_value ds fs e"
proof -
  define gs where "gs = strip_zeros fs"
  obtain m where fs: "fs = gs @ replicate m (CHR ''0'')" unfolding gs_def using strip_zeros_split by blast
  have "digits_val ((ds @ gs) @ replicate m (CHR ''0'')) = digits_val (ds @ gs) * 10 ^ m"
    by (simp only: digits_val_append[of "ds @ gs"] length_replicate digits_val_zeros add_0_right)
  then have "decimal_value ds fs e = of_nat (digits_val (ds @ gs) * 10 ^ m) * 10 powi (e - int (length gs) - int m)"
    by (simp add: decimal_value_def fs algebra_simps)
  also have "\<dots> = of_nat (digits_val (ds @ gs)) * (10 powi int m * 10 powi (e - int (length gs) - int m))"
    by simp
  also have "\<dots> = decimal_value ds gs e"
    unfolding decimal_value_def by (subst power_int_add[symmetric]) simp_all
  finally show ?thesis by (simp add: gs_def)
qed

lemma strip_zeros_digits: "list_all is_digit fs \<Longrightarrow> list_all is_digit (strip_zeros fs)"
  by (metis strip_zeros_split list_all_append)

definition number_form :: "string \<Rightarrow> string \<Rightarrow> bool" where
  "number_form ds fs \<longleftrightarrow> list_all is_digit ds \<and> list_all is_digit fs \<and> ds \<noteq> [] \<and> (ds = ''0'' \<or> hd ds \<noteq> CHR ''0'')"

lemma printf_17g_parts:
  assumes "isfinite x" "dbl_mag x \<noteq> 0" "sig17 \<bar>dbl_val x\<bar> = (n, e)"
  shows "\<exists>ds fs eo. printf_17g x = number_parts (dbl_neg x) ds fs eo \<and> number_form ds fs \<and>
    decimal_value ds fs (exp_of eo) = of_nat n * 10 powi (e - 16)"
proof -
  have "0 < \<bar>dbl_val x\<bar>" using assms(2) by (simp add: dbl_val_def dbl_num_def)
  then have n: "10 ^ 16 \<le> n" "n < 10 ^ 17" using sig17_range(1,2) assms(3) by blast+
  define ds where "ds = nat_digits n"
  have len: "length ds = 17" unfolding ds_def using length_nat_digits[of 16 n] n by simp
  have dig: "list_all is_digit ds" by (simp add: ds_def nat_digits_digits)
  then have parts: "list_all is_digit (take k ds)" "list_all is_digit (drop k ds)" for k
    by (auto simp: list_all_iff dest: in_set_takeD in_set_dropD)
  have "hd ds \<noteq> CHR ''0''" unfolding ds_def using nat_digits_hd[of n] n(1) by simp
  then have hd: "hd (take (Suc k) ds) \<noteq> CHR ''0''" "take (Suc k) ds \<noteq> []" for k using len by (cases ds; simp)+
  have val: "digits_val ds = n" by (simp add: ds_def)
  have z: "is_digit (CHR ''0'')" by (simp add: is_digit_def)
  have x: "\<not> isnan x" "\<not> isinf x" using assms(1) by (simp_all add: isfinite_iff)
  consider "0 \<le> e" "e < 17" | "- 4 \<le> e" "e < 0" | "\<not> (- 4 \<le> e \<and> e < 17)" by linarith
  then show ?thesis
  proof cases
    case 1
    define k where "k = nat e"
    have k: "nat (e + 1) = Suc k" "e = int k" "k < 17" using 1 by (simp_all add: k_def nat_add_distrib)
    have "printf_17g x = number_parts (dbl_neg x) (take (Suc k) ds) (strip_zeros (drop (Suc k) ds)) None"
      using 1 x assms(2) by (simp add: printf_g_def assms(3) ds_def k(1) Let_def)
    moreover have "decimal_value (take (Suc k) ds) (drop (Suc k) ds) 0 = of_nat n * 10 powi (e - 16)"
      using k(2,3) len by (simp add: decimal_value_def val of_nat_diff)
    ultimately show ?thesis using parts hd
      by (intro exI[of _ "take (Suc k) ds"] exI[of _ "strip_zeros (drop (Suc k) ds)"] exI[of _ None])
        (simp add: exp_of_def number_form_def decimal_value_strip strip_zeros_digits)
  next
    case 2
    define fs where "fs = replicate (nat (- e - 1)) (CHR ''0'') @ ds"
    have "printf_17g x = number_parts (dbl_neg x) ''0'' (strip_zeros fs) None"
      using 2 x assms(2) by (simp add: printf_g_def assms(3) ds_def fs_def Let_def)
    moreover have "decimal_value ''0'' fs 0 = of_nat n * 10 powi (e - 16)"
    proof -
      have "''0'' @ fs = replicate (Suc (nat (- e - 1))) (CHR ''0'') @ ds" by (simp add: fs_def)
      then have "digits_val (''0'' @ fs) = n" by (simp only: digits_val_append digits_val_zeros val)
      moreover have "- int (length fs) = e - 16" using 2 len by (simp add: fs_def)
      ultimately show ?thesis by (simp add: decimal_value_def)
    qed
    moreover have "list_all is_digit fs" using dig z by (auto simp: fs_def list_all_iff)
    ultimately show ?thesis using z
      by (intro exI[of _ "''0''"] exI[of _ "strip_zeros fs"] exI[of _ None])
        (simp add: exp_of_def number_form_def decimal_value_strip strip_zeros_digits)
  next
    case 3
    have "printf_17g x = number_parts (dbl_neg x) (take (Suc 0) ds) (strip_zeros (drop (Suc 0) ds)) (Some e)"
      using 3 x assms(2) unfolding printf_g_def assms(3) ds_def Let_def prod.case by (simp only: if_False if_True One_nat_def of_nat_numeral)
    moreover have "decimal_value (take (Suc 0) ds) (drop (Suc 0) ds) e = of_nat n * 10 powi (e - 16)"
      using len by (simp only: decimal_value_def append_take_drop_id val length_drop) simp
    ultimately show ?thesis using parts hd[of 0]
      by (intro exI[of _ "take (Suc 0) ds"] exI[of _ "strip_zeros (drop (Suc 0) ds)"] exI[of _ "Some e"])
        (simp add: exp_of_def number_form_def decimal_value_strip strip_zeros_digits)
  qed
qed

text \<open>A normal double read back from its seventeen digits, and an integer from its own.\<close>

lemma stod_printf_17g:
  assumes "isfinite x" "2 ^ 52 \<le> dbl_mag x"
  shows "\<exists>ds fs eo. printf_17g x = number_parts (dbl_neg x) ds fs eo \<and> number_form ds fs \<and>
    stod (dbl_neg x) (decimal_value ds fs (exp_of eo)) = Some x"
proof -
  obtain n e where s: "sig17 \<bar>dbl_val x\<bar> = (n, e)" by (cases "sig17 \<bar>dbl_val x\<bar>")
  have "dbl_mag x \<noteq> 0" using assms(2) by auto
  from printf_17g_parts[OF assms(1) this s] stod_sig17[OF assms s] show ?thesis by metis
qed

lemma printf_lld_parts:
  "number_form (nat_digits (nat \<bar>i\<bar>)) []" "decimal_value (nat_digits (nat \<bar>i\<bar>)) [] 0 = of_int \<bar>i\<bar>"
proof -
  have "nat_digits 0 = ''0''" by (subst nat_digits.simps) (simp add: char_of_eq_iff)
  then show "number_form (nat_digits (nat \<bar>i\<bar>)) []"
    using nat_digits_hd[of "nat \<bar>i\<bar>"] by (cases "i = 0") (simp_all add: number_form_def nat_digits_digits is_digit_def)
  show "decimal_value (nat_digits (nat \<bar>i\<bar>)) [] 0 = of_int \<bar>i\<bar>" by (simp add: decimal_value_def)
qed

end
