(* ===== verification/Json.thy ===== *)
theory Json
  imports Decimal "HOL-Library.List_Lexorder" "HOL-Library.Char_ord"
begin

text \<open>
  \<open>include/warmth/json.hpp\<close>: the JSON value, its printer and its parser. The parser's position is the
  text that is still to be read; an error carries the length of that text, which the entry point turns into
  the offset of the message. The mutually recursive part of the parser takes fuel: the C++ recursion has
  no bound of its own, and \<open>json_parse\<close> supplies an amount that is proved to be enough for every text.
\<close>

section \<open>Values\<close>

datatype json = JNull | JBool bool | JNumber double | JString string | JArray "json list"
  | JObject "(string \<times> json) list"

datatype json_error = Parse_error nat string | Out_of_fuel

text \<open>\<open>set\<close> and \<open>push\<close> throw \<open>std::bad_variant_access\<close> on a value of another kind.\<close>

definition json_set :: "string \<Rightarrow> json \<Rightarrow> json \<Rightarrow> json option" where
  "json_set key v o' = (case o' of JObject m \<Rightarrow> Some (JObject (map_set key v m)) | _ \<Rightarrow> None)"

definition json_push :: "json \<Rightarrow> json \<Rightarrow> json option" where
  "json_push v a = (case a of JArray vs \<Rightarrow> Some (JArray (vs @ [v])) | _ \<Rightarrow> None)"

definition json_find :: "string \<Rightarrow> json \<Rightarrow> json option" where
  "json_find key o' = (case o' of JObject m \<Rightarrow> map_find key m | _ \<Rightarrow> None)"

section \<open>Printing\<close>

abbreviation quote_char :: char where
  "quote_char \<equiv> CHR 0x22"

abbreviation backslash :: char where
  "backslash \<equiv> CHR 0x5C"

definition hex_char :: "nat \<Rightarrow> char" where
  "hex_char n = ''0123456789abcdef'' ! n"

text \<open>One character of a string. The case for the quote appends the one-character literal \<open>"\""\<close>.\<close>

definition escape_char :: "char \<Rightarrow> string" where
  "escape_char c =
    (if c = quote_char then [quote_char]
     else if c = backslash then [backslash, backslash]
     else if c = CHR 0x08 then [backslash, CHR ''b'']
     else if c = CHR 0x0C then [backslash, CHR ''f'']
     else if c = CHR 0x0A then [backslash, CHR ''n'']
     else if c = CHR 0x0D then [backslash, CHR ''r'']
     else if c = CHR 0x09 then [backslash, CHR ''t'']
     else let n = of_char c :: nat in
       if n < 32 then [backslash, CHR ''u'', CHR ''0'', CHR ''0'', hex_char (n div 16), hex_char (n mod 16)]
       else [c])"

definition write_escaped :: "string \<Rightarrow> string" where
  "write_escaped s = quote_char # concat (map escape_char s) @ [quote_char]"

text \<open>\<open>static_cast<std::int64_t>(d)\<close>; out of range the conversion is undefined and the value given here
  (what x86-64 delivers) is never printed.\<close>

definition cast_i64 :: "double \<Rightarrow> int" where
  "cast_i64 d = (let i = (if dbl_neg d then - \<lfloor>- dbl_val d\<rfloor> else \<lfloor>dbl_val d\<rfloor>)
     in if isfinite d \<and> - (2 ^ 63) \<le> i \<and> i < 2 ^ 63 then i else - (2 ^ 63))"

definition write_number :: "double \<Rightarrow> string" where
  "write_number d =
    (if dbl_eq d (dbl_of_int (cast_i64 d)) \<and> dbl_lt (dbl_of_int (- (10 ^ 15))) d \<and> dbl_lt d (dbl_of_int (10 ^ 15))
     then printf_lld (cast_i64 d) else printf_17g d)"

text \<open>The line break and indentation of pretty output.\<close>

definition json_pad :: "int \<Rightarrow> nat \<Rightarrow> string" where
  "json_pad indent depth = (if 0 \<le> indent then CHR 0x0A # replicate (nat (int depth * indent)) (CHR '' '') else [])"

fun write_value :: "int \<Rightarrow> nat \<Rightarrow> json \<Rightarrow> string"
  and write_elements :: "int \<Rightarrow> nat \<Rightarrow> json list \<Rightarrow> string"
  and write_members :: "int \<Rightarrow> nat \<Rightarrow> (string \<times> json) list \<Rightarrow> string" where
  "write_value indent depth JNull = ''null''"
| "write_value indent depth (JBool b) = (if b then ''true'' else ''false'')"
| "write_value indent depth (JNumber d) = write_number d"
| "write_value indent depth (JString s) = write_escaped s"
| "write_value indent depth (JArray vs) =
     CHR ''['' # write_elements indent depth vs @ (if vs \<noteq> [] then json_pad indent depth else []) @ '']''"
| "write_value indent depth (JObject m) =
     CHR ''{'' # write_members indent depth m @ (if m \<noteq> [] then json_pad indent depth else []) @ ''}''"
| "write_elements indent depth [] = []"
| "write_elements indent depth (v # vs) = json_pad indent (Suc depth) @ write_value indent (Suc depth) v @
     (if vs = [] then [] else CHR '','' # write_elements indent depth vs)"
| "write_members indent depth [] = []"
| "write_members indent depth ((k, v) # m) = json_pad indent (Suc depth) @ write_escaped k @ '':'' @
     (if 0 \<le> indent then '' '' else []) @ write_value indent (Suc depth) v @
     (if m = [] then [] else CHR '','' # write_members indent depth m)"

definition dump :: "int \<Rightarrow> json \<Rightarrow> string" where
  "dump indent v = write_value indent 0 v"

section \<open>Parsing: characters and literals\<close>

type_synonym 'a json_reader = "string \<Rightarrow> json_error + ('a \<times> string)"

definition jfail :: "string \<Rightarrow> string \<Rightarrow> json_error + 'a" where
  "jfail cs msg = Inl (Parse_error (length cs) msg)"

definition is_ws :: "char \<Rightarrow> bool" where
  "is_ws c \<longleftrightarrow> c = CHR '' '' \<or> c = CHR 0x09 \<or> c = CHR 0x0A \<or> c = CHR 0x0D"

definition skip_ws :: "string \<Rightarrow> string" where
  "skip_ws cs = dropWhile is_ws cs"

definition peek :: "string \<Rightarrow> char" where
  "peek cs = (case cs of [] \<Rightarrow> CHR 0x00 | c # _ \<Rightarrow> c)"

definition take_char :: "char json_reader" where
  "take_char cs = (case cs of [] \<Rightarrow> jfail cs ''unexpected end'' | c # cs' \<Rightarrow> Inr (c, cs'))"

fun json_expect :: "string \<Rightarrow> unit json_reader" where
  "json_expect [] cs = Inr ((), cs)"
| "json_expect (l # lit) cs = (case take_char cs of Inl e \<Rightarrow> Inl e
     | Inr (c, cs') \<Rightarrow> if c \<noteq> l then jfail cs' ''unexpected token'' else json_expect lit cs')"

section \<open>Parsing: strings\<close>

definition hex_value :: "char \<Rightarrow> nat option" where
  "hex_value c = (let n = of_char c in
     if 48 \<le> n \<and> n \<le> 57 then Some (n - 48)
     else if 97 \<le> n \<and> n \<le> 102 then Some (n - 97 + 10)
     else if 65 \<le> n \<and> n \<le> 70 then Some (n - 65 + 10) else None)"

fun parse_hex :: "nat \<Rightarrow> u32 \<Rightarrow> u32 json_reader" where
  "parse_hex 0 v cs = Inr (v, cs)"
| "parse_hex (Suc k) v cs = (case take_char cs of Inl e \<Rightarrow> Inl e
     | Inr (c, cs') \<Rightarrow> (case hex_value c of None \<Rightarrow> jfail cs' ''bad hex''
         | Some n \<Rightarrow> parse_hex k (push_bit 4 v OR of_nat n) cs'))"

definition parse_hex4 :: "u32 json_reader" where
  "parse_hex4 = parse_hex 4 0"

definition low_char :: "u32 \<Rightarrow> char" where
  "low_char w = char_of_byte (ucast w)"

definition utf8 :: "u32 \<Rightarrow> string" where
  "utf8 u =
    (if u < 0x80 then [low_char u]
     else if u < 0x800 then [low_char (0xC0 OR drop_bit 6 u), low_char (0x80 OR (u AND 0x3F))]
     else if u < 0x10000 then
       [low_char (0xE0 OR drop_bit 12 u), low_char (0x80 OR (drop_bit 6 u AND 0x3F)), low_char (0x80 OR (u AND 0x3F))]
     else [low_char (0xF0 OR drop_bit 18 u), low_char (0x80 OR (drop_bit 12 u AND 0x3F)),
       low_char (0x80 OR (drop_bit 6 u AND 0x3F)), low_char (0x80 OR (u AND 0x3F))])"

text \<open>The escape after the backslash: the characters it stands for.\<close>

definition parse_unicode :: "string json_reader" where
  "parse_unicode cs = (case parse_hex4 cs of Inl e \<Rightarrow> Inl e
     | Inr (cp, c1) \<Rightarrow>
       if 0xD800 \<le> cp \<and> cp \<le> 0xDBFF then
         (case c1 of b # u # c2 \<Rightarrow>
            if b = backslash \<and> u = CHR ''u'' then
              (case parse_hex4 c2 of Inl e \<Rightarrow> Inl e
               | Inr (lo, c3) \<Rightarrow> Inr (utf8 (0x10000 + push_bit 10 (cp - 0xD800) + (lo - 0xDC00)), c3))
            else jfail c1 ''lone high surrogate''
          | _ \<Rightarrow> jfail c1 ''lone high surrogate'')
       else Inr (utf8 cp, c1))"

definition parse_escape :: "string json_reader" where
  "parse_escape cs = (case take_char cs of Inl e \<Rightarrow> Inl e
     | Inr (e, cs') \<Rightarrow>
       if e = quote_char then Inr ([quote_char], cs')
       else if e = backslash then Inr ([backslash], cs')
       else if e = CHR ''/'' then Inr (''/'', cs')
       else if e = CHR ''b'' then Inr ([CHR 0x08], cs')
       else if e = CHR ''f'' then Inr ([CHR 0x0C], cs')
       else if e = CHR ''n'' then Inr ([CHR 0x0A], cs')
       else if e = CHR ''r'' then Inr ([CHR 0x0D], cs')
       else if e = CHR ''t'' then Inr ([CHR 0x09], cs')
       else if e = CHR ''u'' then parse_unicode cs'
       else jfail cs' ''bad escape'')"

text \<open>A reader never lengthens the text that is left.\<close>

definition consumes :: "'a json_reader \<Rightarrow> bool" where
  "consumes r \<longleftrightarrow> (\<forall>cs v cs'. r cs = Inr (v, cs') \<longrightarrow> length cs' < length cs)"

lemma take_char_cases:
  "take_char cs = (if cs = [] then jfail cs ''unexpected end'' else Inr (hd cs, tl cs))"
  by (cases cs) (simp_all add: take_char_def)

lemma parse_hex_length: "parse_hex k v cs = Inr (w, cs') \<Longrightarrow> length cs = length cs' + k"
  by (induction k v cs rule: parse_hex.induct)
    (auto simp: take_char_def jfail_def split: sum.splits list.splits option.splits)

lemma parse_hex4_length: "parse_hex4 cs = Inr (w, cs') \<Longrightarrow> length cs' < length cs"
  using parse_hex_length[of 4 0 cs w cs'] by (simp add: parse_hex4_def)

lemma parse_unicode_length: "parse_unicode cs = Inr (s, cs') \<Longrightarrow> length cs' < length cs"
  by (fastforce simp: parse_unicode_def jfail_def split: sum.splits list.splits if_splits dest: parse_hex4_length)

lemma parse_escape_length: "parse_escape cs = Inr (s, cs') \<Longrightarrow> length cs' < length cs"
  by (auto simp: parse_escape_def take_char_def jfail_def split: sum.splits list.splits if_splits dest!: parse_unicode_length)

text \<open>The loop of \<open>parse_string\<close>, after the opening quote.\<close>

function string_loop :: "string \<Rightarrow> string json_reader" where
  "string_loop out cs = (case take_char cs of Inl e \<Rightarrow> Inl e
     | Inr (c, c1) \<Rightarrow>
       if c = quote_char then Inr (out, c1)
       else if c = backslash then (case parse_escape c1 of Inl e \<Rightarrow> Inl e
         | Inr (s, c2) \<Rightarrow> string_loop (out @ s) c2)
       else if (of_char c :: nat) < 32 then jfail c1 ''control char in string''
       else string_loop (out @ [c]) c1)"
  by pat_completeness auto
termination
  by (relation "measure (\<lambda>(out, cs). length cs)")
    (auto simp: take_char_def jfail_def split: list.splits dest: parse_escape_length)

declare string_loop.simps [simp del]

definition parse_string :: "string json_reader" where
  "parse_string cs = (case take_char cs of Inl e \<Rightarrow> Inl e | Inr (_, c1) \<Rightarrow> string_loop [] c1)"

section \<open>Parsing: numbers\<close>

text \<open>The token handed to \<open>stod\<close>, by its parts.\<close>

definition scan_integer :: "string json_reader" where
  "scan_integer cs =
    (if peek cs = CHR ''0'' then Inr (''0'', tl cs)
     else if is_digit (peek cs) then Inr (takeWhile is_digit cs, dropWhile is_digit cs)
     else jfail cs ''bad number'')"

definition scan_fraction :: "string json_reader" where
  "scan_fraction cs =
    (if peek cs = CHR ''.'' then
       if is_digit (peek (tl cs)) then Inr (takeWhile is_digit (tl cs), dropWhile is_digit (tl cs))
       else jfail (tl cs) ''bad fraction''
     else Inr ([], cs))"

definition scan_exponent :: "int json_reader" where
  "scan_exponent cs =
    (if peek cs = CHR ''e'' \<or> peek cs = CHR ''E'' then
       let c1 = tl cs; c2 = (if peek c1 = CHR ''+'' \<or> peek c1 = CHR ''-'' then tl c1 else c1);
           e = int (digits_val (takeWhile is_digit c2))
       in if is_digit (peek c2) then Inr (if peek c1 = CHR ''-'' then - e else e, dropWhile is_digit c2)
          else jfail c2 ''bad exponent''
     else Inr (0, cs))"

definition parse_number :: "json json_reader" where
  "parse_number cs =
    (let neg = (peek cs = CHR ''-''); c0 = (if neg then tl cs else cs) in
     case scan_integer c0 of Inl e \<Rightarrow> Inl e
     | Inr (ds, c1) \<Rightarrow> case scan_fraction c1 of Inl e \<Rightarrow> Inl e
     | Inr (fs, c2) \<Rightarrow> case scan_exponent c2 of Inl e \<Rightarrow> Inl e
     | Inr (e, c3) \<Rightarrow> case stod neg (decimal_value ds fs e) of None \<Rightarrow> jfail c3 ''bad number value''
     | Some d \<Rightarrow> Inr (JNumber d, c3))"

section \<open>Parsing: values\<close>

text \<open>The body of each parsing function, over the functions it calls; a loop is a function that calls
  itself.\<close>

definition value_body :: "json json_reader \<Rightarrow> json json_reader \<Rightarrow> json json_reader" where
  "value_body object array cs =
    (let c1 = skip_ws cs; c = peek c1 in
     if c = CHR ''{'' then object c1
     else if c = CHR ''['' then array c1
     else if c = quote_char then (case parse_string c1 of Inl e \<Rightarrow> Inl e | Inr (s, c2) \<Rightarrow> Inr (JString s, c2))
     else if c = CHR ''t'' then (case json_expect ''true'' c1 of Inl e \<Rightarrow> Inl e | Inr (_, c2) \<Rightarrow> Inr (JBool True, c2))
     else if c = CHR ''f'' then (case json_expect ''false'' c1 of Inl e \<Rightarrow> Inl e | Inr (_, c2) \<Rightarrow> Inr (JBool False, c2))
     else if c = CHR ''n'' then (case json_expect ''null'' c1 of Inl e \<Rightarrow> Inl e | Inr (_, c2) \<Rightarrow> Inr (JNull, c2))
     else parse_number c1)"

definition object_body :: "json json_reader \<Rightarrow> json json_reader" where
  "object_body members cs = (case take_char cs of Inl e \<Rightarrow> Inl e
     | Inr (_, c1) \<Rightarrow> let c2 = skip_ws c1 in
       if peek c2 = CHR ''}'' then Inr (JObject [], tl c2) else members c2)"

definition members_body ::
  "json json_reader \<Rightarrow> ((string, json) std_map \<Rightarrow> json json_reader) \<Rightarrow> (string, json) std_map \<Rightarrow> json json_reader" where
  "members_body value members m cs =
    (let c1 = skip_ws cs in
     if peek c1 \<noteq> quote_char then jfail c1 ''expected object key''
     else case parse_string c1 of Inl e \<Rightarrow> Inl e
     | Inr (key, c2) \<Rightarrow> case take_char (skip_ws c2) of Inl e \<Rightarrow> Inl e
     | Inr (colon, c3) \<Rightarrow>
       if colon \<noteq> CHR '':'' then jfail c3 ''expected colon''
       else case value c3 of Inl e \<Rightarrow> Inl e
       | Inr (v, c4) \<Rightarrow> case take_char (skip_ws c4) of Inl e \<Rightarrow> Inl e
       | Inr (c, c5) \<Rightarrow>
         if c = CHR ''}'' then Inr (JObject (map_set key v m), c5)
         else if c \<noteq> CHR '','' then jfail c5 ''expected comma or closing brace''
         else members (map_set key v m) c5)"

definition array_body :: "json json_reader \<Rightarrow> json json_reader" where
  "array_body elements cs = (case take_char cs of Inl e \<Rightarrow> Inl e
     | Inr (_, c1) \<Rightarrow> let c2 = skip_ws c1 in
       if peek c2 = CHR '']'' then Inr (JArray [], tl c2) else elements c2)"

definition elements_body ::
  "json json_reader \<Rightarrow> (json list \<Rightarrow> json json_reader) \<Rightarrow> json list \<Rightarrow> json json_reader" where
  "elements_body value elements vs cs =
    (case value cs of Inl e \<Rightarrow> Inl e
     | Inr (v, c1) \<Rightarrow> case take_char (skip_ws c1) of Inl e \<Rightarrow> Inl e
     | Inr (c, c2) \<Rightarrow>
       if c = CHR '']'' then Inr (JArray (vs @ [v]), c2)
       else if c \<noteq> CHR '','' then jfail c2 ''expected comma or closing bracket''
       else elements (vs @ [v]) c2)"

function (sequential) parse_value :: "nat \<Rightarrow> json json_reader"
  and parse_object :: "nat \<Rightarrow> json json_reader"
  and parse_members :: "nat \<Rightarrow> (string, json) std_map \<Rightarrow> json json_reader"
  and parse_array :: "nat \<Rightarrow> json json_reader"
  and parse_elements :: "nat \<Rightarrow> json list \<Rightarrow> json json_reader" where
  "parse_value 0 cs = Inl Out_of_fuel"
| "parse_value (Suc n) cs = value_body (\<lambda>c. parse_object n c) (\<lambda>c. parse_array n c) cs"
| "parse_object 0 cs = Inl Out_of_fuel"
| "parse_object (Suc n) cs = object_body (\<lambda>c. parse_members n [] c) cs"
| "parse_members 0 m cs = Inl Out_of_fuel"
| "parse_members (Suc n) m cs = members_body (\<lambda>c. parse_value n c) (\<lambda>m c. parse_members n m c) m cs"
| "parse_array 0 cs = Inl Out_of_fuel"
| "parse_array (Suc n) cs = array_body (\<lambda>c. parse_elements n [] c) cs"
| "parse_elements 0 vs cs = Inl Out_of_fuel"
| "parse_elements (Suc n) vs cs = elements_body (\<lambda>c. parse_value n c) (\<lambda>vs c. parse_elements n vs c) vs cs"
  by pat_completeness auto
termination
  by (relation "measure (\<lambda>x. case x of Inl (Inl (n, _)) \<Rightarrow> n | Inl (Inr (n, _)) \<Rightarrow> n | Inr (Inl (n, _)) \<Rightarrow> n
      | Inr (Inr (Inl (n, _))) \<Rightarrow> n | Inr (Inr (Inr (n, _))) \<Rightarrow> n)") simp_all

definition parse_fuel :: "string \<Rightarrow> nat" where
  "parse_fuel cs = 3 * length cs + 1"

definition parse_document :: "json json_reader" where
  "parse_document text =
    (let c0 = skip_ws text in
     case parse_value (parse_fuel text) c0 of Inl e \<Rightarrow> Inl e
     | Inr (v, c1) \<Rightarrow> let c2 = skip_ws c1 in if c2 \<noteq> [] then jfail c2 ''trailing characters'' else Inr (v, c2))"

text \<open>\<open>Value::parse\<close>: the offset is counted from the start of the text.\<close>

definition json_parse :: "string \<Rightarrow> json_error + json" where
  "json_parse text = (case parse_document text of Inr (v, _) \<Rightarrow> Inr v
     | Inl (Parse_error left msg) \<Rightarrow> Inl (Parse_error (length text - left) msg) | Inl Out_of_fuel \<Rightarrow> Inl Out_of_fuel)"

definition json_what :: "json_error \<Rightarrow> string" where
  "json_what e = (case e of Parse_error off msg \<Rightarrow> ''JSON parse error at offset '' @ nat_digits off @ '': '' @ msg | Out_of_fuel \<Rightarrow> [])"

section \<open>The parser always answers\<close>

text \<open>What a parsed value is like: finite numbers, and objects that are maps.\<close>

fun json_wf :: "json \<Rightarrow> bool" where
  "json_wf (JNumber d) \<longleftrightarrow> isfinite d"
| "json_wf (JArray vs) \<longleftrightarrow> (\<forall>v \<in> set vs. json_wf v)"
| "json_wf (JObject m) \<longleftrightarrow> map_wf m \<and> (\<forall>kv \<in> set m. json_wf (snd kv))"
| "json_wf _ \<longleftrightarrow> True"

text \<open>A reader shortens the text it leaves and gives a well-formed value; it may fail.\<close>

definition shrinks :: "json_error + ('a \<times> string) \<Rightarrow> nat \<Rightarrow> ('a \<Rightarrow> bool) \<Rightarrow> bool" where
  "shrinks r n P \<longleftrightarrow> (case r of Inl _ \<Rightarrow> True | Inr (v, cs) \<Rightarrow> length cs < n \<and> P v)"

lemma shrinks_simps [simp]: "shrinks (Inl e) n P" "shrinks (Inr (v, cs)) n P \<longleftrightarrow> length cs < n \<and> P v" "shrinks (jfail cs msg) n P"
  by (simp_all add: shrinks_def jfail_def)

lemma skip_ws_length: "length (skip_ws cs) \<le> length cs"
  by (simp add: skip_ws_def length_dropWhile_le)

lemma string_loop_Nil: "string_loop out [] = jfail [] ''unexpected end''"
  by (subst string_loop.simps) (simp add: take_char_def jfail_def)

lemma string_loop_Cons:
  "string_loop out (c # cs) =
    (if c = quote_char then Inr (out, cs)
     else if c = backslash then (case parse_escape cs of Inl e \<Rightarrow> Inl e | Inr (s, c2) \<Rightarrow> string_loop (out @ s) c2)
     else if (of_char c :: nat) < 32 then jfail cs ''control char in string'' else string_loop (out @ [c]) cs)"
  by (subst string_loop.simps) (simp add: take_char_def)

lemma string_loop_length: "string_loop out cs = Inr (s, cs') \<Longrightarrow> length cs' < length cs"
proof (induction out cs rule: string_loop.induct)
  case (1 out cs)
  show ?case
  proof (cases cs)
    case (Cons c c1)
    consider "c = quote_char" | "c = backslash" "c \<noteq> quote_char" | "c \<noteq> quote_char" "c \<noteq> backslash" "32 \<le> (of_char c :: nat)"
      using "1.prems" by (auto simp: Cons string_loop_Cons take_char_def jfail_def split: if_splits)
    then show ?thesis
    proof cases
      case 1
      then show ?thesis using "1.prems" by (simp add: Cons string_loop_Cons take_char_def)
    next
      case 2
      then obtain s' c2 where e: "parse_escape c1 = Inr (s', c2)" "string_loop (out @ s') c2 = Inr (s, cs')"
        using "1.prems" by (auto simp: Cons string_loop_Cons take_char_def split: sum.splits)
      then have "length cs' < length c2" using "1.IH"(1) 2 by (simp add: Cons take_char_def)
      then show ?thesis using parse_escape_length[OF e(1)] by (simp add: Cons)
    next
      case 3
      then have "string_loop (out @ [c]) c1 = Inr (s, cs')"
        using "1.prems" by (simp add: Cons string_loop_Cons take_char_def)
      then have "length cs' < length c1" using "1.IH"(2) 3 by (simp add: Cons take_char_def)
      then show ?thesis by (simp add: Cons)
    qed
  qed (use 1 in \<open>simp add: string_loop_Nil take_char_def jfail_def\<close>)
qed

lemma parse_string_length: "parse_string cs = Inr (s, cs') \<Longrightarrow> length cs' < length cs"
  by (auto simp: parse_string_def take_char_def jfail_def split: list.splits dest!: string_loop_length)

lemma json_expect_length: "json_expect lit cs = Inr (u, cs') \<Longrightarrow> length cs = length lit + length cs'"
  by (induction lit cs rule: json_expect.induct) (auto simp: take_char_def jfail_def split: list.splits if_splits)

lemma peek_nonempty: "peek cs = c \<Longrightarrow> c \<noteq> CHR 0x00 \<Longrightarrow> cs \<noteq> []"
  by (auto simp: peek_def)

lemma scan_integer_length: "scan_integer cs = Inr (ds, cs') \<Longrightarrow> length cs' < length cs"
  by (cases cs) (auto simp: scan_integer_def peek_def jfail_def is_digit_def less_Suc_eq_le intro: length_dropWhile_le split: if_splits)

lemma scan_fraction_length: "scan_fraction cs = Inr (ds, cs') \<Longrightarrow> length cs' \<le> length cs"
  by (cases cs) (auto simp: scan_fraction_def jfail_def intro: le_trans[OF length_dropWhile_le] split: if_splits)

lemma scan_exponent_length: "scan_exponent cs = Inr (ds, cs') \<Longrightarrow> length cs' \<le> length cs"
  by (auto simp: scan_exponent_def jfail_def Let_def intro!: le_trans[OF length_dropWhile_le] split: if_splits)

lemma parse_number_shrinks: "shrinks (parse_number cs) (length cs) json_wf"
proof -
  have "length c3 < length cs" if "scan_integer (if peek cs = CHR ''-'' then tl cs else cs) = Inr (ds, c1)"
    "scan_fraction c1 = Inr (fs, c2)" "scan_exponent c2 = Inr (e, c3)" for ds c1 fs c2 e c3
    using scan_integer_length[OF that(1)] scan_fraction_length[OF that(2)] scan_exponent_length[OF that(3)]
    by (simp split: if_splits)
  then show ?thesis by (auto simp: parse_number_def Let_def stod_finite split: sum.splits option.splits)
qed

text \<open>An error is reported at a position of the text, and is not a lack of fuel.\<close>

definition err_within :: "json_error + 'a \<Rightarrow> nat \<Rightarrow> bool" where
  "err_within r n \<longleftrightarrow> (case r of Inr _ \<Rightarrow> True | Inl Out_of_fuel \<Rightarrow> False | Inl (Parse_error l _) \<Rightarrow> l \<le> n)"

lemma within_simps [simp]: "err_within (Inr v) n" "err_within (Inl (Parse_error l msg)) n \<longleftrightarrow> l \<le> n" "\<not> err_within (Inl Out_of_fuel) n"
  by (simp_all add: err_within_def)

lemma within_fail [simp]: "err_within (jfail cs msg) n \<longleftrightarrow> length cs \<le> n"
  by (simp add: jfail_def)

lemma within_mono: "err_within r m \<Longrightarrow> m \<le> n \<Longrightarrow> err_within r n"
  by (auto simp: err_within_def split: sum.splits json_error.splits)

lemma within_Suc [intro]: "err_within r n \<Longrightarrow> err_within r (Suc n)"
  by (erule within_mono) simp

text \<open>Sequencing: an error of the first reader is passed on.\<close>

lemma within_bind:
  assumes "err_within r n" "\<And>v cs. r = Inr (v, cs) \<Longrightarrow> err_within (f v cs) n"
  shows "err_within (case r of Inl e \<Rightarrow> Inl e | Inr (v, cs) \<Rightarrow> f v cs) n"
  using assms by (auto simp: err_within_def split: sum.splits json_error.splits prod.splits)

lemma take_char_within: "length cs \<le> n \<Longrightarrow> err_within (take_char cs) n"
  by (simp add: take_char_cases)

lemma take_char_length: "take_char cs = Inr (c, cs') \<Longrightarrow> cs = c # cs'"
  by (cases cs) (simp_all add: take_char_def jfail_def)

lemma json_expect_within: "err_within (json_expect lit cs) (length cs)"
proof (induction lit cs rule: json_expect.induct)
  case (2 l lit cs)
  then show ?case by (cases cs) (auto simp: take_char_def jfail_def)
qed simp

lemma parse_hex_within: "err_within (parse_hex k v cs) (length cs)"
proof (induction k v cs rule: parse_hex.induct)
  case (2 k v cs)
  then show ?case by (cases cs) (auto simp: take_char_def jfail_def split: option.split)
qed simp

lemma parse_hex4_within: "length cs \<le> n \<Longrightarrow> err_within (parse_hex4 cs) n"
  using within_mono[OF parse_hex_within] by (simp add: parse_hex4_def)

lemma parse_unicode_within: "err_within (parse_unicode cs) (length cs)"
  unfolding parse_unicode_def
  by (auto intro!: within_bind parse_hex4_within dest!: parse_hex4_length split: list.split)

lemma parse_escape_within: "err_within (parse_escape cs) (length cs)"
  unfolding parse_escape_def
  by (cases cs) (auto simp: take_char_def jfail_def intro: within_Suc[OF parse_unicode_within])

lemma string_loop_within: "err_within (string_loop out cs) (length cs)"
proof (induction out cs rule: string_loop.induct)
  case (1 out cs)
  show ?case
  proof (cases cs)
    case (Cons c c1)
    have esc: "err_within (case parse_escape c1 of Inl e \<Rightarrow> Inl e | Inr (s, c2) \<Rightarrow> string_loop (out @ s) c2) (length cs)"
      if "c = backslash"
    proof (rule within_bind)
      show "err_within (parse_escape c1) (length cs)" using within_mono[OF parse_escape_within] by (simp add: Cons)
      fix s c2 assume e: "parse_escape c1 = Inr (s, c2)"
      then have "err_within (string_loop (out @ s) c2) (length c2)" using "1.IH"(1) that by (simp add: Cons take_char_def)
      then show "err_within (string_loop (out @ s) c2) (length cs)"
        using parse_escape_length[OF e] by (elim within_mono) (simp add: Cons)
    qed
    have "err_within (string_loop (out @ [c]) c1) (length cs)"
      if "c \<noteq> quote_char" "c \<noteq> backslash" "\<not> (of_char c :: nat) < 32"
      using within_Suc[OF "1.IH"(2)] that by (simp add: Cons take_char_def)
    with esc show ?thesis by (simp add: Cons string_loop_Cons)
  qed (simp add: string_loop_Nil)
qed

lemma parse_string_within: "length cs \<le> n \<Longrightarrow> err_within (parse_string cs) n"
  unfolding parse_string_def
  by (cases cs) (auto simp: take_char_def jfail_def intro: within_mono[OF string_loop_within])

lemma parse_number_within: "length cs \<le> n \<Longrightarrow> err_within (parse_number cs) n"
proof -
  assume n: "length cs \<le> n"
  have i: "err_within (scan_integer c) (length c)" for c by (simp add: scan_integer_def)
  have f: "err_within (scan_fraction c) (length c)" for c by (simp add: scan_fraction_def)
  have e: "err_within (scan_exponent c) (length c)" for c by (simp add: scan_exponent_def Let_def)
  show ?thesis unfolding parse_number_def Let_def using n
    by (intro within_bind within_mono[OF i] within_mono[OF f] within_mono[OF e])
      (auto dest!: scan_integer_length scan_fraction_length scan_exponent_length split: option.split if_splits)
qed

definition answers :: "json_error + (json \<times> string) \<Rightarrow> nat \<Rightarrow> bool" where
  "answers r n \<longleftrightarrow> err_within r n \<and> shrinks r n json_wf"

lemma answersE:
  assumes "answers r n" "r = Inr (v, cs)"
  shows "length cs < n" "json_wf v"
  using assms by (simp_all add: answers_def)

lemma answers_mono: "answers r m \<Longrightarrow> m \<le> n \<Longrightarrow> answers r n"
  by (auto simp: answers_def shrinks_def elim: within_mono split: sum.splits)

lemma answers_bind:
  assumes "err_within r n" "\<And>v cs. r = Inr (v, cs) \<Longrightarrow> answers (f v cs) n"
  shows "answers (case r of Inl e \<Rightarrow> Inl e | Inr (v, cs) \<Rightarrow> f v cs) n"
  using assms by (auto simp: answers_def err_within_def split: sum.splits json_error.splits prod.splits)

lemma answers_Inr [simp]: "answers (Inr (v, cs)) n \<longleftrightarrow> length cs < n \<and> json_wf v"
  by (simp add: answers_def)

lemma answers_fail [simp]: "answers (jfail cs msg) n \<longleftrightarrow> length cs \<le> n"
  by (simp add: answers_def)

lemma value_body_answers:
  assumes "\<And>c. c \<noteq> [] \<Longrightarrow> length c \<le> length cs \<Longrightarrow> answers (object c) (length c)"
    "\<And>c. c \<noteq> [] \<Longrightarrow> length c \<le> length cs \<Longrightarrow> answers (array c) (length c)"
  shows "answers (value_body object array cs) (length cs)"
proof -
  define c1 where "c1 = skip_ws cs"
  have le: "length c1 \<le> length cs" by (simp add: c1_def skip_ws_length)
  have ex: "answers (case json_expect lit c1 of Inl e \<Rightarrow> Inl e | Inr (_, c2) \<Rightarrow> Inr (v, c2)) (length cs)"
    if "0 < length lit" "json_wf v" for lit v
  proof (rule answers_bind[OF within_mono[OF json_expect_within le]])
    fix u c2 assume "json_expect lit c1 = Inr (u, c2)"
    then have "length c2 < length cs" using json_expect_length[of lit c1 u c2] le that(1) by linarith
    then show "answers (Inr (v, c2)) (length cs)" using that(2) by simp
  qed
  have str: "answers (case parse_string c1 of Inl e \<Rightarrow> Inl e | Inr (s, c2) \<Rightarrow> Inr (JString s, c2)) (length cs)"
    using le by (intro answers_bind parse_string_within) (auto dest!: parse_string_length)
  have num: "answers (parse_number c1) (length cs)"
    using answers_mono[OF _ le] parse_number_within[of c1] parse_number_shrinks by (simp add: answers_def)
  have comp: "answers (object c1) (length cs)" "answers (array c1) (length cs)" if "c1 \<noteq> []"
    using assms[OF that le] le by (auto intro: answers_mono)
  show ?thesis unfolding value_body_def Let_def c1_def[symmetric]
    using ex str num comp by (auto simp del: json_expect.simps dest: peek_nonempty)
qed

lemma object_body_answers:
  assumes "\<And>c. length c < length cs \<Longrightarrow> answers (members c) (length c)"
  shows "answers (object_body members cs) (length cs)"
  unfolding object_body_def Let_def
proof (rule answers_bind[OF take_char_within[OF order_refl]])
  fix c c1 assume "take_char cs = Inr (c, c1)"
  then have le: "length (skip_ws c1) < length cs" using skip_ws_length[of c1] by (auto dest!: take_char_length)
  then have "answers (members (skip_ws c1)) (length cs)" using assms[OF le] by (auto intro: answers_mono)
  then show "answers (if peek (skip_ws c1) = CHR ''}'' then Inr (JObject [], tl (skip_ws c1)) else members (skip_ws c1)) (length cs)"
    using le by (auto intro: le_less_trans[OF diff_le_self])
qed

lemma array_body_answers:
  assumes "\<And>c. length c < length cs \<Longrightarrow> answers (elements c) (length c)"
  shows "answers (array_body elements cs) (length cs)"
  unfolding array_body_def Let_def
proof (rule answers_bind[OF take_char_within[OF order_refl]])
  fix c c1 assume "take_char cs = Inr (c, c1)"
  then have le: "length (skip_ws c1) < length cs" using skip_ws_length[of c1] by (auto dest!: take_char_length)
  then have "answers (elements (skip_ws c1)) (length cs)" using assms[OF le] by (auto intro: answers_mono)
  then show "answers (if peek (skip_ws c1) = CHR '']'' then Inr (JArray [], tl (skip_ws c1)) else elements (skip_ws c1)) (length cs)"
    using le by (auto intro: le_less_trans[OF diff_le_self])
qed

lemma take_ws:
  assumes "take_char (skip_ws cs) = Inr (c, cs')"
  shows "length cs' < length cs"
  using take_char_length[OF assms] skip_ws_length[of cs] by simp

lemma take_ws_within: "length cs \<le> n \<Longrightarrow> err_within (take_char (skip_ws cs)) n"
  using skip_ws_length[of cs] by (intro take_char_within) simp

lemma wf_map_set: "json_wf (JObject m) \<Longrightarrow> json_wf v \<Longrightarrow> json_wf (JObject (map_set k v m))"
proof -
  have "set (map_set k v m) \<subseteq> insert (k, v) (set m)" by (induction k v m rule: map_set.induct) auto
  then show "json_wf (JObject m) \<Longrightarrow> json_wf v \<Longrightarrow> json_wf (JObject (map_set k v m))" by auto
qed

lemma members_body_answers:
  assumes v: "\<And>c. length c < length cs \<Longrightarrow> answers (value c) (length c)"
    and ms: "\<And>m c. length c < length cs \<Longrightarrow> json_wf (JObject m) \<Longrightarrow> answers (members m c) (length c)"
    and m: "json_wf (JObject m)"
  shows "answers (members_body value members m cs) (length cs)"
proof -
  have le: "length (skip_ws cs) \<le> length cs" by (rule skip_ws_length)
  have item: "answers (case value c3 of Inl e \<Rightarrow> Inl e
       | Inr (v, c4) \<Rightarrow> case take_char (skip_ws c4) of Inl e \<Rightarrow> Inl e
       | Inr (c, c5) \<Rightarrow>
         if c = CHR ''}'' then Inr (JObject (map_set key v m), c5)
         else if c \<noteq> CHR '','' then jfail c5 ''expected comma or closing brace''
         else members (map_set key v m) c5) (length cs)" if "length c3 < length cs" for c3 key
  proof (intro answers_bind take_ws_within)
    show "err_within (value c3) (length cs)" using v[OF that] that by (auto simp: answers_def intro: within_mono)
    fix v' c4 assume e: "value c3 = Inr (v', c4)"
    have c4: "length c4 < length cs" "json_wf v'" using answersE[OF v[OF that] e] that by auto
    then show "length c4 \<le> length cs" by simp
    fix c c5 assume "take_char (skip_ws c4) = Inr (c, c5)"
    then have c5: "length c5 < length cs" using take_ws c4(1) less_trans by blast
    have w: "json_wf (JObject (map_set key v' m))" using m c4(2) by (rule wf_map_set)
    then have "answers (members (map_set key v' m) c5) (length cs)"
      using ms[OF c5] c5 answers_mono less_imp_le by blast
    then show "answers (if c = CHR ''}'' then Inr (JObject (map_set key v' m), c5)
         else if c \<noteq> CHR '','' then jfail c5 ''expected comma or closing brace''
         else members (map_set key v' m) c5) (length cs)" using c5 w by simp
  qed
  show ?thesis unfolding members_body_def Let_def
  proof (split if_split, intro conjI impI answers_bind parse_string_within le)
    fix key c2 assume s: "parse_string (skip_ws cs) = Inr (key, c2)"
    then have c2: "length c2 < length cs" using parse_string_length le by fastforce
    show "err_within (take_char (skip_ws c2)) (length cs)" using c2 by (intro take_ws_within) simp
    fix colon c3 assume "take_char (skip_ws c2) = Inr (colon, c3)"
    then have c3: "length c3 < length cs" using take_ws c2 less_trans by blast
    then show "answers (if colon \<noteq> CHR '':'' then jfail c3 ''expected colon''
       else case value c3 of Inl e \<Rightarrow> Inl e
       | Inr (v, c4) \<Rightarrow> case take_char (skip_ws c4) of Inl e \<Rightarrow> Inl e
       | Inr (c, c5) \<Rightarrow>
         if c = CHR ''}'' then Inr (JObject (map_set key v m), c5)
         else if c \<noteq> CHR '','' then jfail c5 ''expected comma or closing brace''
         else members (map_set key v m) c5) (length cs)" using item[OF c3] by simp
  qed (simp add: le)
qed

lemma elements_body_answers:
  assumes v: "answers (value cs) (length cs)"
    and ms: "\<And>vs c. length c < length cs \<Longrightarrow> json_wf (JArray vs) \<Longrightarrow> answers (elements vs c) (length c)"
    and vs: "json_wf (JArray vs)"
  shows "answers (elements_body value elements vs cs) (length cs)"
  unfolding elements_body_def
proof (intro answers_bind take_ws_within)
  show "err_within (value cs) (length cs)" using v by (simp add: answers_def)
  fix v' c1 assume e: "value cs = Inr (v', c1)"
  have c1: "length c1 < length cs" "json_wf v'" using answersE[OF v e] by auto
  then show "length c1 \<le> length cs" by simp
  fix c c2 assume "take_char (skip_ws c1) = Inr (c, c2)"
  then have c2: "length c2 < length cs" using take_ws c1(1) less_trans by blast
  have w: "json_wf (JArray (vs @ [v']))" using vs c1(2) by auto
  then have "answers (elements (vs @ [v']) c2) (length cs)" using ms[OF c2] c2 answers_mono less_imp_le by blast
  then show "answers (if c = CHR '']'' then Inr (JArray (vs @ [v']), c2)
       else if c \<noteq> CHR '','' then jfail c2 ''expected comma or closing bracket''
       else elements (vs @ [v']) c2) (length cs)" using c2 w by simp
qed

text \<open>Three units of fuel per character are enough.\<close>

lemma parse_answers:
  "(\<forall>cs. 3 * length cs + 1 \<le> n \<longrightarrow> answers (parse_value n cs) (length cs)) \<and>
   (\<forall>cs. 3 * length cs \<le> n \<longrightarrow> cs \<noteq> [] \<longrightarrow> answers (parse_object n cs) (length cs)) \<and>
   (\<forall>m cs. 3 * length cs + 2 \<le> n \<longrightarrow> json_wf (JObject m) \<longrightarrow> answers (parse_members n m cs) (length cs)) \<and>
   (\<forall>cs. 3 * length cs \<le> n \<longrightarrow> cs \<noteq> [] \<longrightarrow> answers (parse_array n cs) (length cs)) \<and>
   (\<forall>vs cs. 3 * length cs + 2 \<le> n \<longrightarrow> json_wf (JArray vs) \<longrightarrow> answers (parse_elements n vs cs) (length cs))"
proof (induction n)
  case (Suc n)
  note IH = Suc.IH[THEN conjunct1, rule_format] Suc.IH[THEN conjunct2, THEN conjunct1, rule_format]
    Suc.IH[THEN conjunct2, THEN conjunct2, THEN conjunct1, rule_format]
    Suc.IH[THEN conjunct2, THEN conjunct2, THEN conjunct2, THEN conjunct1, rule_format]
    Suc.IH[THEN conjunct2, THEN conjunct2, THEN conjunct2, THEN conjunct2, rule_format]
  show ?case
    by (intro conjI allI impI; simp only: parse_value.simps parse_object.simps parse_members.simps parse_array.simps parse_elements.simps)
      (rule value_body_answers object_body_answers members_body_answers array_body_answers elements_body_answers; (rule IH)?; simp)+
qed simp

text \<open>Parsing any text ends, either with a well-formed value or with an error at one of its positions.\<close>

lemma parse_document_answers: "err_within (parse_document text) (length text) \<and> (\<forall>v cs. parse_document text = Inr (v, cs) \<longrightarrow> json_wf v \<and> cs = [])"
proof -
  have le: "length (skip_ws text) \<le> length text" by (rule skip_ws_length)
  then have a: "answers (parse_value (parse_fuel text) (skip_ws text)) (length (skip_ws text))"
    using parse_answers[of "parse_fuel text"] by (simp add: parse_fuel_def)
  have "err_within (parse_document text) (length text)"
    unfolding parse_document_def Let_def
  proof (rule within_bind)
    show "err_within (parse_value (parse_fuel text) (skip_ws text)) (length text)"
      using a le by (auto simp: answers_def intro: within_mono)
    fix v c1 assume "parse_value (parse_fuel text) (skip_ws text) = Inr (v, c1)"
    then have "length (skip_ws c1) \<le> length text" using answersE(1)[OF a] le skip_ws_length[of c1] by fastforce
    then show "err_within (if skip_ws c1 \<noteq> [] then jfail (skip_ws c1) ''trailing characters'' else Inr (v, skip_ws c1)) (length text)"
      by simp
  qed
  moreover have "json_wf v \<and> cs = []" if "parse_document text = Inr (v, cs)" for v cs
    using that answersE(2)[OF a] by (auto simp: parse_document_def Let_def jfail_def split: sum.splits if_splits)
  ultimately show ?thesis by blast
qed

section \<open>What is printed is parsed back: strings\<close>

lemma hex_value_char: "n < 16 \<Longrightarrow> hex_value (hex_char n) = Some n"
proof -
  have "list_all (\<lambda>n. hex_value (hex_char n) = Some n) [0..<16]" by code_simp
  then show "n < 16 \<Longrightarrow> hex_value (hex_char n) = Some n" by (simp add: list_all_iff)
qed

lemma control_word:
  assumes "n < 32"
  shows "push_bit 4 (of_nat (n div 16)) OR of_nat (n mod 16) = (of_nat n :: u32)" "utf8 (of_nat n) = [char_of n]"
    "\<not> (0xD800 \<le> (of_nat n :: u32))"
proof -
  have "list_all (\<lambda>n. push_bit 4 (of_nat (n div 16)) OR of_nat (n mod 16) = (of_nat n :: u32) \<and> utf8 (of_nat n) = [char_of n]
    \<and> \<not> (0xD800 \<le> (of_nat n :: u32))) [0..<32]" by code_simp
  then show "push_bit 4 (of_nat (n div 16)) OR of_nat (n mod 16) = (of_nat n :: u32)" "utf8 (of_nat n) = [char_of n]"
    "\<not> (0xD800 \<le> (of_nat n :: u32))" using assms by (simp_all add: list_all_iff)
qed

lemma parse_control:
  assumes "n < 32"
  shows "parse_escape ([CHR ''u'', CHR ''0'', CHR ''0'', hex_char (n div 16), hex_char (n mod 16)] @ cs) = Inr ([char_of n], cs)"
proof -
  have "hex_value (CHR ''0'') = Some 0" by (simp add: hex_value_def)
  then have "parse_hex4 ([CHR ''0'', CHR ''0'', hex_char (n div 16), hex_char (n mod 16)] @ cs) = Inr (of_nat n, cs)"
  proof -
    have four: "parse_hex 4 = parse_hex (Suc (Suc (Suc (Suc 0))))" by (simp add: numeral_eq_Suc)
    have "hex_value (hex_char (n div 16)) = Some (n div 16)" "hex_value (hex_char (n mod 16)) = Some (n mod 16)"
      using assms by (intro hex_value_char; simp)+
    then have "parse_hex4 ([CHR ''0'', CHR ''0'', hex_char (n div 16), hex_char (n mod 16)] @ cs)
        = Inr (push_bit 4 (of_nat (n div 16)) OR of_nat (n mod 16), cs)"
      using \<open>hex_value (CHR ''0'') = Some 0\<close> unfolding parse_hex4_def four by (simp add: take_char_def)
    then show ?thesis unfolding control_word(1)[OF assms] .
  qed
  then show ?thesis using control_word(2,3)[OF assms] by (simp add: parse_escape_def take_char_def parse_unicode_def)
qed

lemma string_loop_escape:
  assumes "quote_char \<noteq> c"
  shows "string_loop out (escape_char c @ cs) = string_loop (out @ [c]) cs"
proof -
  define n where "n = (of_char c :: nat)"
  have c: "char_of n = c" by (simp add: n_def)
  have ctrl: "string_loop out ([backslash, CHR ''u'', CHR ''0'', CHR ''0'', hex_char (n div 16), hex_char (n mod 16)] @ cs)
      = string_loop (out @ [c]) cs" if "n < 32"
    using parse_control[OF that, of cs] c by (simp add: string_loop_Cons)
  have plain: "string_loop out ([c] @ cs) = string_loop (out @ [c]) cs" if "c \<noteq> backslash" "\<not> n < 32"
    using that assms by (simp add: string_loop_Cons n_def)
  show ?thesis using assms ctrl plain
    by (simp add: escape_char_def n_def[symmetric] Let_def string_loop_Cons parse_escape_def take_char_def)
qed

lemma string_loop_text:
  assumes "quote_char \<notin> set s"
  shows "string_loop out (concat (map escape_char s) @ quote_char # rest) = Inr (out @ s, rest)"
  using assms by (induction s arbitrary: out) (simp_all add: string_loop_Cons string_loop_escape)

lemma parse_string_text:
  "quote_char \<notin> set s \<Longrightarrow> parse_string (write_escaped s @ rest) = Inr (s, rest)"
  by (simp add: parse_string_def write_escaped_def take_char_def string_loop_text)

text \<open>A quote inside ends the string early.\<close>

lemma parse_string_quote:
  assumes "quote_char \<notin> set s"
  shows "parse_string (write_escaped (s @ quote_char # t) @ rest) = Inr (s, concat (map escape_char t) @ quote_char # rest)"
  using string_loop_text[OF assms, of "[]" "concat (map escape_char t) @ quote_char # rest"]
  by (simp add: parse_string_def write_escaped_def take_char_def escape_char_def)

section \<open>What is printed is parsed back: numbers\<close>

definition num_end :: "string \<Rightarrow> bool" where
  "num_end cs \<longleftrightarrow> \<not> is_digit (peek cs) \<and> peek cs \<notin> {CHR ''.'', CHR ''e'', CHR ''E''}"

lemma peek_Cons [simp]: "peek (c # cs) = c"
  by (simp add: peek_def)

lemma digit_simps [simp]: "is_digit (CHR ''0'')" "\<not> is_digit (CHR ''.'')" "\<not> is_digit (CHR ''e'')" "\<not> is_digit (CHR ''-'')"
  "\<not> is_digit (CHR ''+'')" "\<not> is_digit (CHR 0x00)"
  by (simp_all add: is_digit_def)

lemma take_digits:
  assumes "list_all is_digit ds" "\<not> is_digit (peek rest)"
  shows "takeWhile is_digit (ds @ rest) = ds" "dropWhile is_digit (ds @ rest) = rest"
proof -
  have "takeWhile is_digit rest = []" "dropWhile is_digit rest = rest" using assms(2) by (cases rest; simp)+
  then show "takeWhile is_digit (ds @ rest) = ds" "dropWhile is_digit (ds @ rest) = rest"
    using assms(1) by (simp_all add: list_all_iff)
qed

lemma peek_digits: "list_all is_digit ds \<Longrightarrow> ds \<noteq> [] \<Longrightarrow> is_digit (peek (ds @ rest))"
  by (cases ds) simp_all

lemma scan_integer_text:
  assumes "number_form ds fs" "\<not> is_digit (peek rest)"
  shows "scan_integer (ds @ rest) = Inr (ds, rest)"
proof (cases "ds = ''0''")
  case False
  with assms(1) have ds: "list_all is_digit ds" "ds \<noteq> []" "hd ds \<noteq> CHR ''0''" by (auto simp: number_form_def)
  then have "peek (ds @ rest) \<noteq> CHR ''0''" by (cases ds) simp_all
  then show ?thesis using peek_digits[OF ds(1,2)] take_digits[OF ds(1) assms(2)] by (simp add: scan_integer_def)
qed (simp add: scan_integer_def)

lemma scan_fraction_text:
  assumes "list_all is_digit fs" "\<not> is_digit (peek rest)" "peek rest \<noteq> CHR ''.''"
  shows "scan_fraction ((if fs = [] then [] else CHR ''.'' # fs) @ rest) = Inr (fs, rest)"
  using assms take_digits[OF assms(1,2)] peek_digits[OF assms(1)] by (simp add: scan_fraction_def)

lemma exp_digits: "list_all is_digit (exp_digits e)" "exp_digits e \<noteq> []" "digits_val (exp_digits e) = nat \<bar>e\<bar>"
proof -
  have "digits_val (CHR ''0'' # ds) = digits_val ds" for ds
    using digits_val_append[of "''0''" ds] by (simp add: digits_val_def digit_val_def)
  then show "list_all is_digit (exp_digits e)" "exp_digits e \<noteq> []" "digits_val (exp_digits e) = nat \<bar>e\<bar>"
    by (simp_all add: exp_digits_def Let_def nat_digits_digits)
qed

lemma scan_exponent_text:
  assumes "num_end rest"
  shows "scan_exponent ((case eo of None \<Rightarrow> [] | Some e \<Rightarrow> CHR ''e'' # (if e < 0 then CHR ''-'' else CHR ''+'') # exp_digits e) @ rest)
    = Inr (exp_of eo, rest)"
proof (cases eo)
  case None
  then show ?thesis using assms by (simp add: scan_exponent_def num_end_def exp_of_def)
next
  case (Some e)
  have r: "\<not> is_digit (peek rest)" using assms by (simp add: num_end_def)
  show ?thesis using peek_digits[OF exp_digits(1,2)] take_digits[OF exp_digits(1) r]
    by (simp add: Some scan_exponent_def exp_digits(3) exp_of_def)
qed

lemma parse_number_text:
  assumes "number_form ds fs" "num_end rest" "stod neg (decimal_value ds fs (exp_of eo)) = Some d"
  shows "parse_number (number_parts neg ds fs eo @ rest) = Inr (JNumber d, rest)"
proof -
  let ?e = "(case eo of None \<Rightarrow> [] | Some e \<Rightarrow> CHR ''e'' # (if e < 0 then CHR ''-'' else CHR ''+'') # exp_digits e) @ rest"
  let ?f = "(if fs = [] then [] else CHR ''.'' # fs) @ ?e"
  have e: "\<not> is_digit (peek ?e)" "peek ?e \<noteq> CHR ''.''" using assms(2) by (simp_all add: num_end_def split: option.split)
  then have f: "\<not> is_digit (peek ?f)" by simp
  have fs: "list_all is_digit fs" and ds: "list_all is_digit ds" "ds \<noteq> []" using assms(1) by (simp_all add: number_form_def)
  have "peek (ds @ ?f) \<noteq> CHR ''-''" using peek_digits[OF ds, of ?f] by auto
  moreover have "number_parts neg ds fs eo @ rest = (if neg then ''-'' else []) @ ds @ ?f" by (simp add: number_parts_def)
  ultimately show ?thesis
    using scan_integer_text[OF assms(1) f] scan_fraction_text[OF fs e] scan_exponent_text[OF assms(2), of eo] assms(3)
    by (cases neg) (simp_all add: parse_number_def Let_def)
qed

text \<open>Numbers the printer and the parser agree on: zero and the normal doubles. Minus zero becomes zero.\<close>

definition num_ok :: "double \<Rightarrow> bool" where
  "num_ok d \<longleftrightarrow> isfinite d \<and> (dbl_mag d = 0 \<or> 2 ^ 52 \<le> dbl_mag d)"

definition num_nf :: "double \<Rightarrow> double" where
  "num_nf d = (if dbl_mag d = 0 then dbl_zero else d)"

lemma dbl_of_int_exact:
  assumes "\<bar>i\<bar> < 2 ^ 53"
  shows "isfinite (dbl_of_int i)" "dbl_val (dbl_of_int i) = of_int i"
proof -
  define n where "n = nat \<bar>i\<bar>"
  have n: "n < 2 ^ 53" using assms by (simp add: n_def nat_less_iff)
  have pos: "isfinite (dbl_rnd False (of_nat n))" "dbl_val (dbl_rnd False (of_nat n)) = of_nat n"
    using dbl_of_nat[OF n] by (simp_all add: dbl_of_int_def dbl_lit_def)
  have abs: "\<bar>of_int i\<bar> = (of_nat n :: rat)" by (simp add: n_def)
  have "isfinite (dbl_rnd s (of_nat n))" for s using pos(1) by (simp only: isfinite_def dbl_mag_rnd)
  then show "isfinite (dbl_of_int i)" by (simp add: dbl_of_int_def dbl_lit_def abs)
  show "dbl_val (dbl_of_int i) = of_int i"
    using pos(2) abs by (cases "i < 0") (simp_all add: dbl_of_int_def dbl_lit_def dbl_val_rnd_True)
qed

definition prints_integer :: "double \<Rightarrow> bool" where
  "prints_integer d \<longleftrightarrow> dbl_eq d (dbl_of_int (cast_i64 d)) \<and> dbl_lt (dbl_of_int (- (10 ^ 15))) d \<and> dbl_lt d (dbl_of_int (10 ^ 15))"

lemma print_range:
  assumes "isfinite d"
  shows "dbl_lt (dbl_of_int (- (10 ^ 15))) d \<longleftrightarrow> - (10 ^ 15) < dbl_val d" "dbl_lt d (dbl_of_int (10 ^ 15)) \<longleftrightarrow> dbl_val d < 10 ^ 15"
  using assms dbl_of_int_exact[of "10 ^ 15"] dbl_of_int_exact[of "- (10 ^ 15)"] by (simp_all add: dbl_lt_finite)

lemma dbl_val_sign: "dbl_neg d \<Longrightarrow> dbl_val d \<le> 0" "\<not> dbl_neg d \<Longrightarrow> 0 \<le> dbl_val d"
  using units_per_one_pos by (simp_all add: dbl_val_def dbl_num_def divide_nonneg_pos)

lemma dbl_val_eq_0: "dbl_val d = 0 \<longleftrightarrow> dbl_mag d = 0"
  by (simp add: dbl_val_def dbl_num_def)

text \<open>The branch for integers is taken only for integers, and always for zero.\<close>

lemma prints_integer_val:
  assumes "isfinite d" "prints_integer d"
  shows "dbl_val d = of_int (cast_i64 d)"
proof -
  have r: "- (10 ^ 15) < dbl_val d" "dbl_val d < 10 ^ 15"
    using assms print_range[OF assms(1)] by (simp_all add: prints_integer_def)
  define f where "f = (if dbl_neg d then - \<lfloor>- dbl_val d\<rfloor> else \<lfloor>dbl_val d\<rfloor>)"
  have "\<bar>f\<bar> < 10 ^ 15"
  proof (cases "dbl_neg d")
    case True
    then have "0 \<le> \<lfloor>- dbl_val d\<rfloor>" "\<lfloor>- dbl_val d\<rfloor> < 10 ^ 15" using dbl_val_sign(1) r by (simp_all add: floor_less_iff)
    then show ?thesis unfolding f_def by (simp only: True if_True abs_minus_cancel abs_of_nonneg)
  next
    case False
    then have "0 \<le> \<lfloor>dbl_val d\<rfloor>" "\<lfloor>dbl_val d\<rfloor> < 10 ^ 15" using dbl_val_sign(2) r by (simp_all add: floor_less_iff)
    then show ?thesis unfolding f_def by (simp only: False if_False abs_of_nonneg)
  qed
  moreover from this have "- 9223372036854775808 \<le> f" "f < 9223372036854775808" by simp_all
  ultimately have i: "\<bar>cast_i64 d\<bar> < 2 ^ 53" using assms(1) by (simp add: cast_i64_def Let_def flip: f_def)
  have "dbl_key d = dbl_key (dbl_of_int (cast_i64 d))" using assms(2) by (simp add: prints_integer_def dbl_eq_def)
  then show ?thesis using dbl_of_int_exact(2)[OF i] dbl_val_le_iff[of d "dbl_of_int (cast_i64 d)"]
      dbl_val_le_iff[of "dbl_of_int (cast_i64 d)" d] by simp
qed

lemma zero_prints_integer:
  assumes "dbl_mag d = 0"
  shows "prints_integer d"
proof -
  have fin: "isfinite d" using assms by (simp add: isfinite_def inf_mag_def)
  have v: "dbl_val d = 0" "dbl_key d = 0" using assms by (simp_all add: dbl_val_eq_0 dbl_key_def)
  have "cast_i64 d = 0" using fin v by (simp add: cast_i64_def)
  moreover have "dbl_of_int 0 = dbl_zero" using dbl_of_u64_0 by (simp add: dbl_of_u64_def)
  ultimately show ?thesis using v fin print_range[OF fin] by (simp add: prints_integer_def dbl_eq_def isfinite_iff)
qed

lemma stod_integer:
  assumes "isfinite d" "dbl_val d = of_int i"
  shows "stod (i < 0) (of_int \<bar>i\<bar>) = Some (num_nf d)"
proof (cases "i = 0")
  case True
  then have "dbl_mag d = 0" using assms(2) dbl_val_eq_0[of d] by simp
  then show ?thesis using True stod_exact[of dbl_zero] by (simp add: num_nf_def dbl_neg_def)
next
  case False
  then have "dbl_mag d \<noteq> 0" using assms(2) dbl_val_eq_0[of d] by simp
  moreover have "(i < 0) = dbl_neg d" using dbl_val_sign[of d] assms(2) False by (cases "dbl_neg d") auto
  ultimately show ?thesis using stod_exact[OF assms(1)] assms(2) by (simp add: num_nf_def)
qed

lemma write_number_text:
  assumes "num_ok d"
  shows "\<exists>neg ds fs eo. write_number d = number_parts neg ds fs eo \<and> number_form ds fs \<and>
    stod neg (decimal_value ds fs (exp_of eo)) = Some (num_nf d)"
proof (cases "prints_integer d")
  case True
  have fin: "isfinite d" using assms by (simp add: num_ok_def)
  let ?i = "cast_i64 d"
  have "write_number d = number_parts (?i < 0) (nat_digits (nat \<bar>?i\<bar>)) [] None"
    unfolding write_number_def printf_lld_def by (rule if_P[OF True[unfolded prints_integer_def]])
  moreover have "stod (?i < 0) (decimal_value (nat_digits (nat \<bar>?i\<bar>)) [] (exp_of None)) = Some (num_nf d)"
    using stod_integer[OF fin prints_integer_val[OF fin True]] printf_lld_parts(2)[of ?i] by (simp add: exp_of_def)
  ultimately show ?thesis using printf_lld_parts(1) by blast
next
  case False
  then have "dbl_mag d \<noteq> 0" using zero_prints_integer by blast
  then have "isfinite d" "2 ^ 52 \<le> dbl_mag d" "num_nf d = d" using assms by (simp_all add: num_ok_def num_nf_def)
  moreover have "write_number d = printf_17g d"
    unfolding write_number_def by (rule if_not_P[OF False[unfolded prints_integer_def]])
  ultimately show ?thesis using stod_printf_17g[of d] by metis
qed

section \<open>What is printed is parsed back: values\<close>

fun json_ok :: "json \<Rightarrow> bool" where
  "json_ok (JNumber d) \<longleftrightarrow> num_ok d"
| "json_ok (JString s) \<longleftrightarrow> quote_char \<notin> set s"
| "json_ok (JArray vs) \<longleftrightarrow> (\<forall>v \<in> set vs. json_ok v)"
| "json_ok (JObject m) \<longleftrightarrow> map_wf m \<and> (\<forall>kv \<in> set m. quote_char \<notin> set (fst kv) \<and> json_ok (snd kv))"
| "json_ok _ \<longleftrightarrow> True"

text \<open>The value that comes back.\<close>

fun json_nf :: "json \<Rightarrow> json" where
  "json_nf (JNumber d) = JNumber (num_nf d)"
| "json_nf (JArray vs) = JArray (map json_nf vs)"
| "json_nf (JObject m) = JObject (map (\<lambda>kv. (fst kv, json_nf (snd kv))) m)"
| "json_nf v = v"

text \<open>Seen by the parser a printed value starts with neither white space nor a closing bracket, and white
  space in front of a value does not matter.\<close>

lemma number_head:
  assumes "number_form ds fs"
  shows "\<exists>c cs. number_parts neg ds fs eo @ rest = c # cs \<and> (is_digit c \<or> c = CHR ''-'')"
proof -
  obtain c ds' where "ds = c # ds'" "is_digit c" using assms by (cases ds) (auto simp: number_form_def)
  then show ?thesis by (cases neg) (simp_all add: number_parts_def)
qed

lemma digit_other: "is_digit c \<or> c = CHR ''-'' \<Longrightarrow> \<not> is_ws c \<and> c \<notin> {CHR ''{'', CHR ''}'', CHR ''['', CHR '']'', quote_char, CHR ''t'', CHR ''f'', CHR ''n''}"
  by (auto simp: is_digit_def is_ws_def)

lemma write_value_head:
  assumes "json_ok v"
  shows "\<exists>c cs. write_value i d v @ rest = c # cs \<and> \<not> is_ws c \<and> c \<noteq> CHR '']'' \<and> c \<noteq> CHR ''}''"
proof (cases v)
  case (JNumber x)
  then have "num_ok x" using assms by simp
  from write_number_text[OF this] obtain neg ds fs eo where
    w: "write_number x = number_parts neg ds fs eo" "number_form ds fs" by blast
  obtain c cs where "number_parts neg ds fs eo @ rest = c # cs" "is_digit c \<or> c = CHR ''-''"
    using number_head[OF w(2)] by blast
  then show ?thesis using digit_other[of c] JNumber w(1) by simp
qed (auto simp: write_escaped_def is_ws_def)

lemma skip_ws_text [simp]: "list_all is_ws ws \<Longrightarrow> skip_ws (ws @ cs) = skip_ws cs"
  by (simp add: skip_ws_def list_all_iff)

lemma skip_ws_Cons [simp]: "\<not> is_ws c \<Longrightarrow> skip_ws (c # cs) = c # cs"
  by (simp add: skip_ws_def)

lemma json_pad_ws [simp]: "list_all is_ws (json_pad i d)"
  by (auto simp: json_pad_def is_ws_def list_all_iff)

lemma parse_value_ws: "list_all is_ws ws \<Longrightarrow> parse_value n (ws @ cs) = parse_value n cs"
  by (cases n) (simp_all add: value_body_def)

lemma num_end_ws:
  assumes "list_all is_ws ws" "c \<in> {CHR '','', CHR '']'', CHR ''}''}"
  shows "num_end (ws @ c # cs)"
  using assms by (cases ws) (auto simp: num_end_def is_digit_def is_ws_def)

text \<open>One element, one member, and the separators between them.\<close>

lemma parse_elements_step:
  assumes "parse_value n cs = Inr (v, ws @ c # cs')" "list_all is_ws ws" "\<not> is_ws c"
  shows "parse_elements (Suc n) vs cs = (if c = CHR '']'' then Inr (JArray (vs @ [v]), cs')
    else if c \<noteq> CHR '','' then jfail cs' ''expected comma or closing bracket'' else parse_elements n (vs @ [v]) cs')"
  using assms by (simp add: elements_body_def take_char_def)

lemma parse_members_step:
  assumes "list_all is_ws pre" "quote_char \<notin> set k" "parse_value n cs = Inr (v, ws @ c # cs')" "list_all is_ws ws" "\<not> is_ws c"
  shows "parse_members (Suc n) m (pre @ write_escaped k @ CHR '':'' # cs) = (if c = CHR ''}'' then Inr (JObject (map_set k v m), cs')
    else if c \<noteq> CHR '','' then jfail cs' ''expected comma or closing brace'' else parse_members n (map_set k v m) cs')"
proof -
  have "skip_ws (write_escaped k @ CHR '':'' # cs) = write_escaped k @ CHR '':'' # cs"
    "peek (write_escaped k @ CHR '':'' # cs) = quote_char"
    by (simp_all add: write_escaped_def is_ws_def)
  moreover have "\<not> is_ws (CHR '':'')" by (simp add: is_ws_def)
  ultimately show ?thesis
    using assms parse_string_text[OF assms(2)] by (simp add: members_body_def take_char_def)
qed

text \<open>Opening an array or an object.\<close>

lemma parse_array_empty: "parse_value (Suc (Suc n)) (CHR ''['' # CHR '']'' # cs) = Inr (JArray [], cs)"
  by (simp add: value_body_def array_body_def take_char_def is_ws_def)

lemma parse_object_empty: "parse_value (Suc (Suc n)) (CHR ''{'' # CHR ''}'' # cs) = Inr (JObject [], cs)"
  by (simp add: value_body_def object_body_def take_char_def is_ws_def)

lemma parse_array_open:
  assumes "list_all is_ws ws" "\<not> is_ws c" "c \<noteq> CHR '']''"
  shows "parse_value (Suc (Suc n)) (CHR ''['' # ws @ c # cs) = parse_elements n [] (ws @ c # cs)"
proof -
  have "parse_elements n [] (ws @ c # cs) = parse_elements n [] (c # cs)"
    using assms(1) by (cases n) (simp_all add: elements_body_def parse_value_ws)
  then show ?thesis using assms by (simp add: value_body_def array_body_def take_char_def is_ws_def[of "CHR ''[''"])
qed

lemma parse_object_open:
  assumes "list_all is_ws ws"
  shows "parse_value (Suc (Suc n)) (CHR ''{'' # ws @ quote_char # cs) = parse_members n [] (ws @ quote_char # cs)"
proof -
  have q: "\<not> is_ws quote_char" "\<not> is_ws (CHR ''{'')" by (simp_all add: is_ws_def)
  have "parse_members n [] (ws @ quote_char # cs) = parse_members n [] (quote_char # cs)"
    using assms q by (cases n) (simp_all add: members_body_def)
  then show ?thesis using assms q by (simp add: value_body_def object_body_def take_char_def)
qed

lemma ws_space [simp]: "is_ws (CHR '' '')" "\<not> is_ws (CHR '','')" "\<not> is_ws (CHR '']'')" "\<not> is_ws (CHR ''}'')"
  by (simp_all add: is_ws_def)

lemma parse_written:
  "json_ok v \<Longrightarrow> num_end rest \<Longrightarrow> 3 * length (write_value i d v @ rest) + 1 \<le> n \<Longrightarrow>
     parse_value n (write_value i d v @ rest) = Inr (json_nf v, rest)"
  "vs \<noteq> [] \<Longrightarrow> \<forall>v \<in> set vs. json_ok v \<Longrightarrow> list_all is_ws ws \<Longrightarrow>
     3 * length (write_elements i d vs @ ws @ CHR '']'' # rest) + 2 \<le> n \<Longrightarrow>
     parse_elements n us (write_elements i d vs @ ws @ CHR '']'' # rest) = Inr (JArray (us @ map json_nf vs), rest)"
  "m \<noteq> [] \<Longrightarrow> map_wf (us' @ m) \<Longrightarrow> \<forall>kv \<in> set m. quote_char \<notin> set (fst kv) \<and> json_ok (snd kv) \<Longrightarrow> list_all is_ws ws \<Longrightarrow>
     3 * length (write_members i d m @ ws @ CHR ''}'' # rest) + 2 \<le> n \<Longrightarrow> map fst us'' = map fst us' \<Longrightarrow>
     parse_members n us'' (write_members i d m @ ws @ CHR ''}'' # rest)
       = Inr (JObject (us'' @ map (\<lambda>kv. (fst kv, json_nf (snd kv))) m), rest)"
proof (induction i d v and i d vs and i d m arbitrary: rest n and ws rest n us and ws rest n us' us''
    rule: write_value_write_elements_write_members.induct)
  case (3 i d x)
  obtain neg ds fs eo where w: "write_number x = number_parts neg ds fs eo" "number_form ds fs"
    "stod neg (decimal_value ds fs (exp_of eo)) = Some (num_nf x)" using write_number_text[of x] 3(1) unfolding json_ok.simps by blast
  obtain c cs where h: "number_parts neg ds fs eo @ rest = c # cs" "is_digit c \<or> c = CHR ''-''"
    using number_head[OF w(2)] by blast
  obtain k where n: "n = Suc k" using 3(3) by (cases n) auto
  have "parse_value n (c # cs) = parse_number (c # cs)"
    using digit_other[OF h(2)] by (simp add: n value_body_def Let_def)
  then show ?case using parse_number_text[OF w(2) 3(2) w(3)] by (simp add: w(1) h(1))
next
  case (4 i d s)
  then show ?case using parse_string_text[of s rest]
    by (cases n) (simp_all add: value_body_def Let_def write_escaped_def is_ws_def)
next
  case (5 i d vs)
  let ?tail = "(if vs \<noteq> [] then json_pad i d else []) @ CHR '']'' # rest"
  obtain k where n: "n = Suc (Suc k)" using 5(4) by (cases n; cases "n - 1") auto
  have t: "write_value i d (JArray vs) @ rest = CHR ''['' # write_elements i d vs @ ?tail" by simp
  show ?case
  proof (cases vs)
    case Nil
    then show ?thesis by (simp add: n parse_array_empty del: parse_value.simps)
  next
    case (Cons v vs')
    then have "json_ok v" using 5(2) by simp
    from write_value_head[OF this, of i "Suc d"] obtain c cs where
      h: "write_value i (Suc d) v @ (if vs' = [] then [] else CHR '','' # write_elements i d vs') @ ?tail = c # cs"
        "\<not> is_ws c" "c \<noteq> CHR '']''" by metis
    have e: "write_elements i d vs @ ?tail = json_pad i (Suc d) @ c # cs" using h(1) by (simp add: Cons)
    have "parse_elements k [] (write_elements i d vs @ ?tail) = Inr (JArray ([] @ map json_nf vs), rest)"
      using 5(2,4) Cons n unfolding t by (intro 5(1)) simp_all
    then show ?thesis unfolding t n e parse_array_open[OF json_pad_ws h(2,3)] by simp
  qed
next
  case (6 i d m)
  let ?tail = "(if m \<noteq> [] then json_pad i d else []) @ CHR ''}'' # rest"
  obtain k where n: "n = Suc (Suc k)" using 6(4) by (cases n; cases "n - 1") auto
  have t: "write_value i d (JObject m) @ rest = CHR ''{'' # write_members i d m @ ?tail" by simp
  show ?case
  proof (cases m)
    case Nil
    then show ?thesis by (simp add: n parse_object_empty del: parse_value.simps)
  next
    case (Cons kv m')
    obtain cs where e: "write_members i d m @ ?tail = json_pad i (Suc d) @ quote_char # cs"
      by (cases kv) (simp add: Cons write_escaped_def)
    have "parse_members k [] (write_members i d m @ ?tail) = Inr (JObject ([] @ map (\<lambda>kv. (fst kv, json_nf (snd kv))) m), rest)"
      using 6(2,4) Cons n unfolding t by (intro 6(1)[where us' = "[]"]) simp_all
    then show ?thesis unfolding t n e parse_object_open[OF json_pad_ws] by simp
  qed
next
  case (8 i d v vs)
  obtain k where n: "n = Suc k" using 8(6) by (cases n) auto
  let ?tail = "ws @ CHR '']'' # rest"
  have pv: "parse_value k (json_pad i (Suc d) @ write_value i (Suc d) v @ r) = Inr (json_nf v, r)"
    if "num_end r" "3 * length (write_value i (Suc d) v @ r) + 1 \<le> k" for r
    using 8(1)[OF _ that] 8(4) by (simp add: parse_value_ws)
  show ?case
  proof (cases "vs = []")
    case True
    have "parse_value k (json_pad i (Suc d) @ write_value i (Suc d) v @ ?tail) = Inr (json_nf v, ?tail)"
      using 8(5,6) n True by (intro pv num_end_ws) simp_all
    from parse_elements_step[OF this 8(5)] show ?thesis by (simp add: n True del: parse_elements.simps)
  next
    case False
    let ?r = "CHR '','' # write_elements i d vs @ ?tail"
    have "parse_value k (json_pad i (Suc d) @ write_value i (Suc d) v @ ?r) = Inr (json_nf v, [] @ ?r)"
      using 8(6) n False pv[of ?r] num_end_ws[of "[]" "CHR '',''"] by simp
    from parse_elements_step[OF this] 8(2)[OF False False _ 8(5), where n = k] 8(4,6) show ?thesis
      by (simp add: n False del: parse_elements.simps)
  qed
next
  case (10 i d key v m)
  obtain k where n: "n = Suc k" using 10(7) by (cases n) auto
  let ?tail = "ws @ CHR ''}'' # rest"
  let ?sp = "if 0 \<le> i then '' '' else []"
  have pv: "parse_value k (?sp @ write_value i (Suc d) v @ r) = Inr (json_nf v, r)"
    if "num_end r" "3 * length (write_value i (Suc d) v @ r) + 1 \<le> k" for r
    using 10(1)[OF _ that] 10(5) by (simp add: parse_value_ws[of ?sp, simplified] parse_value_ws[of "'' ''", simplified])
  have key: "quote_char \<notin> set key" using 10(5) by simp
  have "fst ` set us'' = fst ` set us'" using 10(8) by (metis list.set_map)
  then have "map_set key (json_nf v) us'' = us'' @ [(key, json_nf v)]"
    using 10(4) by (intro map_set_last) (auto simp: map_wf_append)
  note last = this
  show ?case
  proof (cases "m = []")
    case True
    have "parse_value k (?sp @ write_value i (Suc d) v @ ?tail) = Inr (json_nf v, ?tail)"
      using 10(6,7) n True by (intro pv num_end_ws) simp_all
    from parse_members_step[OF json_pad_ws key this 10(6)] show ?thesis
      by (simp add: n True last del: parse_members.simps)
  next
    case False
    let ?r = "CHR '','' # write_members i d m @ ?tail"
    have pr: "parse_value k (?sp @ write_value i (Suc d) v @ ?r) = Inr (json_nf v, [] @ ?r)"
      using 10(7) n False pv[of ?r] num_end_ws[of "[]" "CHR '',''"] by simp
    have "parse_members k (us'' @ [(key, json_nf v)]) (write_members i d m @ ?tail)
        = Inr (JObject ((us'' @ [(key, json_nf v)]) @ map (\<lambda>kv. (fst kv, json_nf (snd kv))) m), rest)"
      using 10(2)[of "us' @ [(key, v)]" ws rest k "us'' @ [(key, json_nf v)]"] False 10(4-8) n by simp
    then show ?thesis using parse_members_step[OF json_pad_ws[of i "Suc d"] key pr]
      by (simp add: n False last del: parse_members.simps)
  qed
next
  case (1 i d)
  then show ?case by (cases n) (simp_all add: value_body_def is_ws_def take_char_def)
next
  case (2 i d b)
  then show ?case by (cases n) (simp_all add: value_body_def is_ws_def take_char_def)
qed simp_all

text \<open>The whole document.\<close>

lemma json_parse_dump_ws:
  assumes "json_ok v" "list_all is_ws ws"
  shows "json_parse (dump indent v @ ws) = Inr (json_nf v)"
proof -
  obtain c cs where h: "write_value indent 0 v @ ws = c # cs" "\<not> is_ws c"
    using write_value_head[OF assms(1), of indent 0 ws] by auto
  have "num_end ws" using assms(2) by (cases ws) (auto simp: num_end_def peek_def is_digit_def is_ws_def)
  from parse_written(1)[OF assms(1) this order_refl, of indent 0]
  have "parse_value (3 * length (dump indent v @ ws) + 1) (dump indent v @ ws) = Inr (json_nf v, ws)" by (simp add: dump_def)
  moreover have "skip_ws (dump indent v @ ws) = dump indent v @ ws" using h by (simp add: dump_def)
  moreover have "skip_ws ws = []" using assms(2) by (simp add: skip_ws_def list_all_iff)
  ultimately show ?thesis by (simp add: json_parse_def parse_document_def parse_fuel_def Let_def del: parse_value.simps)
qed

lemma json_parse_dump: "json_ok v \<Longrightarrow> json_parse (dump indent v) = Inr (json_nf v)"
  using json_parse_dump_ws[of v "[]"] by simp

text \<open>A string with a quote in it is never parsed back: the text after the first inner quote is left over.\<close>

lemma json_parse_quote:
  assumes "quote_char \<notin> set s"
  shows "json_parse (dump indent (JString (s @ quote_char # t)))
    = Inl (Parse_error (length (concat (map escape_char s)) + 2 + length (takeWhile is_ws (concat (map escape_char t)))) ''trailing characters'')"
proof -
  define remaining where "remaining = concat (map escape_char t) @ [quote_char]"
  define doc where "doc = dump indent (JString (s @ quote_char # t))"
  have doc: "doc = write_escaped (s @ quote_char # t)" by (simp add: doc_def dump_def)
  have p: "parse_string doc = Inr (s, remaining)" using parse_string_quote[OF assms, of t "[]"] by (simp add: doc remaining_def)
  have h: "doc = quote_char # tl doc" by (simp add: doc write_escaped_def)
  have q: "\<not> is_ws quote_char" by (simp add: is_ws_def)
  then have sk: "skip_ws doc = doc" by (subst (1 2) h) simp
  have pk: "peek doc = quote_char" by (subst h) simp
  have v: "parse_value (parse_fuel doc) doc = Inr (JString s, remaining)"
    unfolding parse_fuel_def Suc_eq_plus1[symmetric] parse_value.simps value_body_def Let_def sk pk by (simp add: p)
  let ?w = "takeWhile is_ws (concat (map escape_char t))"
  have l1: "length (skip_ws remaining) = length remaining - length ?w" "skip_ws remaining \<noteq> []"
  proof -
    have "takeWhile is_ws (xs @ [quote_char]) = takeWhile is_ws xs" for xs using q by (induction xs) simp_all
    then have "takeWhile is_ws remaining = ?w" by (simp add: remaining_def)
    then have "remaining = ?w @ skip_ws remaining" unfolding skip_ws_def using takeWhile_dropWhile_id[of is_ws remaining] by simp
    then show "length (skip_ws remaining) = length remaining - length ?w" by (metis add_diff_cancel_left' length_append)
    show "skip_ws remaining \<noteq> []" using q by (auto simp: skip_ws_def remaining_def)
  qed
  have lt: "length doc = length (concat (map escape_char s)) + 2 + length remaining"
    by (simp add: doc remaining_def write_escaped_def escape_char_def)
  have le: "length ?w \<le> length remaining" using length_takeWhile_le[of is_ws "concat (map escape_char t)"] by (simp add: remaining_def)
  have "json_parse doc = Inl (Parse_error (length doc - length (skip_ws remaining)) ''trailing characters'')"
    using l1(2) by (simp add: json_parse_def parse_document_def Let_def sk v jfail_def)
  then show ?thesis using l1(1) lt le by (simp add: doc_def[symmetric])
qed

text \<open>Setting members one after the other, as the builders of \<open>explanation.hpp\<close> do.\<close>

definition json_object :: "(string \<times> json) list \<Rightarrow> json" where
  "json_object kvs = JObject (fold (\<lambda>(k, v). map_set k v) kvs [])"

lemma json_object_set: "json_set k v (json_object kvs) = Some (json_object (kvs @ [(k, v)]))"
  by (simp add: json_set_def json_object_def)

lemma fold_map_set_ok:
  assumes "\<forall>(k, v) \<in> set kvs. quote_char \<notin> set k \<and> json_ok v" "json_ok (JObject m)"
  shows "json_ok (JObject (fold (\<lambda>(k, v). map_set k v) kvs m))"
  using assms
proof (induction kvs arbitrary: m)
  case (Cons kv kvs)
  obtain k v where kv: "kv = (k, v)" by (cases kv)
  have "set (map_set k v m) \<subseteq> insert (k, v) (set m)" by (induction k v m rule: map_set.induct) auto
  moreover have "map_wf m" "\<forall>kv \<in> set m. quote_char \<notin> set (fst kv) \<and> json_ok (snd kv)" "quote_char \<notin> set k" "json_ok v"
    using Cons.prems by (simp_all add: kv)
  ultimately have "json_ok (JObject (map_set k v m))" unfolding json_ok.simps by (auto dest: subsetD)
  then show ?case using Cons.IH[of "map_set k v m"] Cons.prems(1) by (simp add: kv del: json_ok.simps)
qed simp

lemma json_object_ok: "\<forall>(k, v) \<in> set kvs. quote_char \<notin> set k \<and> json_ok v \<Longrightarrow> json_ok (json_object kvs)"
  unfolding json_object_def by (rule fold_map_set_ok) simp_all

lemma json_find_object: "json_find k (json_object kvs) = map_of (rev kvs) k"
proof -
  have "map_find k (fold (\<lambda>(k, v). map_set k v) kvs m) = (case map_of (rev kvs) k of None \<Rightarrow> map_find k m | Some v \<Rightarrow> Some v)" for m
  proof (induction kvs arbitrary: m)
    case (Cons kv kvs)
    then show ?case by (cases kv; cases "map_of (rev kvs) k") (simp_all add: map_add_def)
  qed simp
  then show ?thesis by (simp add: json_find_def json_object_def split: option.split)
qed

end
