(* ===== verification/Explanation_Json.thy ===== *)
theory Explanation_Json
  imports Fabric Json
begin

text \<open>
  The JSON forms of \<open>include/warmth/explanation.hpp\<close>. A document is built by setting members one after
  the other; a 64-bit count goes through \<open>std::int64_t\<close> to a double, as \<open>Value(std::int64_t)\<close> stores it.
\<close>

definition json_count :: "u64 \<Rightarrow> json" where
  "json_count w = JNumber (dbl_of_int (sint w))"

definition json_id :: "id128 \<Rightarrow> json" where
  "json_id i = JString (id_to_string i)"

definition dimension_to_json :: "dimension_readiness \<Rightarrow> json" where
  "dimension_to_json d = json_object [(''name'', JString (dimension_name (dr_index d))), (''status'', JString (status_name (dr_status d)))]"

definition cost_to_json :: "readiness_cost \<Rightarrow> json" where
  "cost_to_json c = (let e = rc_estimated c in json_object
     [(''kind'', JString (cost_kind_name (rc_kind c))),
      (''bytes_to_transfer'', json_count (bytes_to_transfer e)),
      (''bytes_resident'', json_count (bytes_resident (rc_measured c))),
      (''artifacts_to_validate'', json_count (artifacts_to_validate e)),
      (''kernels_to_prepare'', json_count (kernels_to_prepare e)),
      (''graphs_to_prepare'', json_count (graphs_to_prepare e)),
      (''context_init_steps'', json_count (context_init_steps e)),
      (''adapter_activation_bytes'', json_count (adapter_activation_bytes e)),
      (''tokenizer_init_steps'', json_count (tokenizer_init_steps e)),
      (''prefix_kv_bytes'', json_count (prefix_kv_bytes e)),
      (''allocator_init_steps'', json_count (allocator_init_steps e)),
      (''engine_startup_ms'', json_count (engine_startup_ms e)),
      (''sync_cost_ms'', json_count (sync_cost_ms e)),
      (''dependency_checks'', json_count (dependency_checks e)),
      (''expected_ttfu_ms'', JNumber (rc_expected_ttfu_ms c)),
      (''observed_ttfu_ms'', JNumber (rc_observed_ttfu_ms c))])"

definition readiness_to_json :: "readiness_explanation \<Rightarrow> json" where
  "readiness_to_json e = json_object (
     [(''object'', json_id (re_object e)),
      (''state'', JString (state_to_string (re_state e))),
      (''category'', JString (category_name (re_category e))),
      (''composite'', JString (composite_name (re_composite e))),
      (''execution_ready'', JBool (re_execution_ready e)),
      (''dimensions'', JArray (map dimension_to_json (re_dimensions e))),
      (''cost'', cost_to_json (re_cost e)),
      (''residency'', JString (re_residency e)),
      (''chosen_action'', JString (re_chosen_action e)),
      (''tie_break'', JString (re_tie_break e)),
      (''priority'', JString (re_priority e)),
      (''deadline'', JString (re_deadline e)),
      (''fairness'', JString (re_fairness e)),
      (''budget_constraints'', JString (re_budget_constraints e)),
      (''missing_preparation'', JString (re_missing_preparation e)),
      (''measured_warm_start_ms'', JNumber (re_measured_warm_start_ms e)),
      (''measured_cold_start_ms'', JNumber (re_measured_cold_start_ms e))] @
     (if re_invalidation_reason e \<noteq> [] then [(''invalidation_reason'', JString (re_invalidation_reason e))] else []) @
     (if re_decay_reason e \<noteq> [] then [(''decay_reason'', JString (re_decay_reason e))] else []) @
     [(''alternatives'', JArray (map JString (re_alternatives e)))])"

definition step_to_json :: "plan_step \<Rightarrow> json" where
  "step_to_json st = json_object
     [(''object'', json_id (ps_object st)),
      (''action'', JString (action_name (ps_action st))),
      (''score'', JNumber (ps_score st)),
      (''estimated_cost_ms'', JNumber (ps_estimated_cost_ms st)),
      (''rationale'', JString (ps_rationale st))]"

definition plan_to_json :: "plan_explanation \<Rightarrow> json" where
  "plan_to_json p = json_object
     [(''workload'', json_id (pe_workload p)),
      (''replica'', json_id (pe_replica p)),
      (''policy_generation'', json_count (pe_policy_generation p)),
      (''tie_break'', JString (pe_tie_break p)),
      (''steps'', JArray (map step_to_json (pe_steps p)))]"

section \<open>What the documents are made of\<close>

text \<open>An integer of at most 64 bits is zero or a normal double.\<close>

lemma num_ok_of_int:
  assumes "\<bar>i\<bar> \<le> 2 ^ 63"
  shows "num_ok (dbl_of_int i)"
proof -
  have mag: "dbl_mag (dbl_of_int i) = min inf_mag (mag_round (\<bar>of_int i\<bar> * units_per_one))"
    by (simp add: dbl_of_int_def dbl_lit_def)
  have fin: "isfinite (dbl_of_int i)"
  proof -
    have "isfinite (dbl_of_u64 (of_int \<bar>i\<bar>))" by (rule isfinite_of_u64)
    moreover have "uint (of_int \<bar>i\<bar> :: u64) = \<bar>i\<bar>" using assms by (simp add: unsigned_of_int take_bit_int_eq_self)
    ultimately have "isfinite (dbl_of_int \<bar>i\<bar>)" by (simp add: dbl_of_u64_def)
    then show ?thesis by (simp add: isfinite_def mag) (simp add: dbl_of_int_def dbl_lit_def)
  qed
  show ?thesis
  proof (cases "i = 0")
    case True
    have "dbl_of_int 0 = dbl_zero" using dbl_of_u64_0 by (simp add: dbl_of_u64_def)
    then show ?thesis by (simp add: True num_ok_def dbl_mag_def)
  next
    case False
    then have "1 \<le> \<bar>i\<bar>" by simp
    then have one: "1 \<le> \<bar>of_int i :: rat\<bar>" by (metis of_int_1_le_iff of_int_abs)
    have "of_nat (mag_units (2 ^ 52)) = (2 ^ 52 :: rat)" by (simp add: mag_units_def)
    also have "\<dots> \<le> 1 * units_per_one" unfolding units_per_one_def by (simp add: power_increasing)
    also have "\<dots> \<le> \<bar>of_int i\<bar> * units_per_one" using one by (intro mult_right_mono) (simp_all add: less_imp_le)
    finally have "mag_round (of_nat (mag_units (2 ^ 52))) \<le> mag_round (\<bar>of_int i\<bar> * units_per_one)"
      by (intro mag_round_mono) simp_all
    then have "2 ^ 52 \<le> mag_round (\<bar>of_int i\<bar> * units_per_one)" by (simp only: mag_round_units)
    then have "2 ^ 52 \<le> dbl_mag (dbl_of_int i)" unfolding mag by (simp add: inf_mag_def)
    then show ?thesis using fin by (simp add: num_ok_def)
  qed
qed

lemma json_count_ok [simp]: "json_ok (json_count w)"
proof -
  have "\<bar>sint w\<bar> \<le> 2 ^ 63" using sint_ge[of w] sint_lt[of w] by simp
  then show ?thesis by (simp add: json_count_def num_ok_of_int)
qed

lemma hex16_quote: "quote_char \<notin> set (hex16 v)"
proof
  assume "quote_char \<in> set (hex16 v)"
  then obtain i where "quote_char = hex_digit (take_bit 4 (drop_bit (4 * i) v))" by (auto simp: hex16_def)
  moreover have "unat (take_bit 4 (drop_bit (4 * i) v)) < 16" using take_bit_4_less by (simp add: word_less_nat_alt)
  moreover have "list_all (\<lambda>n. quote_char \<noteq> ''0123456789abcdef'' ! n) [0..<16]" by code_simp
  ultimately show False by (auto simp: hex_digit_def list_all_iff)
qed

lemma json_id_ok [simp]: "json_ok (json_id i)"
  by (simp add: json_id_def id_to_string_def hex16_quote)

lemma names_quote [simp]:
  "quote_char \<notin> set (dimension_name d)" "quote_char \<notin> set (status_name s)" "quote_char \<notin> set (cost_kind_name k)"
  "quote_char \<notin> set (state_to_string st)" "quote_char \<notin> set (category_name c)" "quote_char \<notin> set (composite_name l)"
  "quote_char \<notin> set (action_name a)" "quote_char \<notin> set (residency_name r)"
proof -
  show "quote_char \<notin> set (dimension_name d)" by (cases d) simp_all
  show "quote_char \<notin> set (status_name s)" by (cases s) simp_all
  show "quote_char \<notin> set (cost_kind_name k)" by (cases k) simp_all
  show "quote_char \<notin> set (state_to_string st)" by (cases st) simp_all
  show "quote_char \<notin> set (category_name c)" by (cases c) simp_all
  show "quote_char \<notin> set (composite_name l)" by (cases l) simp_all
  show "quote_char \<notin> set (action_name a)" by (cases a) simp_all
  show "quote_char \<notin> set (residency_name r)" by (cases r) simp_all
qed

definition explanation_ok :: "readiness_explanation \<Rightarrow> bool" where
  "explanation_ok e \<longleftrightarrow>
     (\<forall>s \<in> set (re_residency e # re_chosen_action e # re_tie_break e # re_priority e # re_deadline e # re_fairness e #
        re_budget_constraints e # re_missing_preparation e # re_invalidation_reason e # re_decay_reason e # re_alternatives e).
        quote_char \<notin> set s) \<and>
     (\<forall>d \<in> {rc_expected_ttfu_ms (re_cost e), rc_observed_ttfu_ms (re_cost e), re_measured_warm_start_ms e, re_measured_cold_start_ms e}.
        num_ok d)"

lemma readiness_to_json_ok: "explanation_ok e \<Longrightarrow> json_ok (readiness_to_json e)"
proof -
  assume e: "explanation_ok e"
  have d: "json_ok (dimension_to_json d)" for d unfolding dimension_to_json_def by (rule json_object_ok) simp
  have c: "json_ok (cost_to_json (re_cost e))"
    unfolding cost_to_json_def Let_def using e by (intro json_object_ok) (simp add: explanation_ok_def)
  show ?thesis unfolding readiness_to_json_def using e c d by (intro json_object_ok) (auto simp: explanation_ok_def)
qed

definition plan_ok :: "plan_explanation \<Rightarrow> bool" where
  "plan_ok p \<longleftrightarrow> quote_char \<notin> set (pe_tie_break p) \<and>
     (\<forall>st \<in> set (pe_steps p). quote_char \<notin> set (ps_rationale st) \<and> num_ok (ps_score st) \<and> num_ok (ps_estimated_cost_ms st))"

lemma plan_to_json_ok: "plan_ok p \<Longrightarrow> json_ok (plan_to_json p)"
proof -
  assume p: "plan_ok p"
  have "json_ok (step_to_json st)" if "st \<in> set (pe_steps p)" for st
    unfolding step_to_json_def using p that by (intro json_object_ok) (simp add: plan_ok_def)
  then show ?thesis unfolding plan_to_json_def using p by (intro json_object_ok) (simp add: plan_ok_def)
qed

text \<open>Looking a member up in what came back.\<close>

lemma json_find_nf: "json_find k (json_nf v) = map_option json_nf (json_find k v)"
proof (cases v)
  case (JObject m)
  have "map_find k (map (\<lambda>kv. (fst kv, json_nf (snd kv))) m) = map_option json_nf (map_find k m)" by (induction m) auto
  then show ?thesis by (simp add: JObject json_find_def)
qed (simp_all add: json_find_def)

lemma readiness_to_json_find:
  "json_find ''execution_ready'' (readiness_to_json e) = Some (JBool (re_execution_ready e))"
  "json_find ''state'' (readiness_to_json e) = Some (JString (state_to_string (re_state e)))"
  "json_find ''object'' (readiness_to_json e) = Some (json_id (re_object e))"
  "json_find ''dimensions'' (readiness_to_json e) = Some (JArray (map dimension_to_json (re_dimensions e)))"
  "json_find ''invalidation_reason'' (readiness_to_json e) = (if re_invalidation_reason e = [] then None else Some (JString (re_invalidation_reason e)))"
  by (simp_all add: readiness_to_json_def json_find_object)

lemma dimension_to_json_nf: "json_nf (dimension_to_json d) = dimension_to_json d"
  by (simp add: dimension_to_json_def json_object_def)

section \<open>The explanations of the fabric\<close>

lemma missing_text_quote: "quote_char \<notin> set (missing_text o')"
  by (simp add: missing_text_def Let_def)

lemma num_ok_estimate: "num_ok (rc_expected_ttfu_ms (estimate o' mb))"
  using ttf_total_tidy[of o' mb] by (auto simp: dbl_tidy_def dbl_within_def num_ok_def dbl_mag_def)

text \<open>All of an explanation's strings are names, except the invalidation reason.\<close>

lemma explain_ok:
  assumes "map_find i (fb_objects f) = Some o'" "explain i f = Some e"
  shows "explanation_ok e \<longleftrightarrow> quote_char \<notin> set (re_invalidation_reason e) \<and> num_ok (wo_observed_ttr_ms o')"
proof -
  have z: "num_ok dbl_zero" by (simp add: num_ok_def dbl_mag_def)
  have "rc_observed_ttfu_ms (estimate o' mb) = dbl_zero" for mb
    by (simp add: estimate_def Let_def readiness_cost_default_def)
  moreover note num_ok_estimate[of o']
  ultimately show ?thesis using assms z
    by (auto simp: explain_def Let_def explanation_ok_def missing_text_quote)
qed

end
