(* ===== verification/Cli.thy ===== *)
theory Cli
  imports Explanation_Json Server
begin

text \<open>
  The command line \<open>tools/warmth_cli.cpp\<close> off Windows: the sample fabric it works on, one definition per
  command, and the dispatch of \<open>main\<close>. A command ends with its exit code and what it wrote to standard
  output and standard error; or it hangs after some output, on a lock it holds itself, on a peer, or
  in the accept loop; or what it prints is not determined by the source. The clocks, the files and the
  operating system are a parameter. What \<open>multiprocess\<close> and \<open>cuda\<close> do on Windows is in \<open>Multiprocess\<close> and \<open>Windows_Cli\<close>.
\<close>

section \<open>Outcomes and surroundings\<close>

datatype cli_outcome = Exits int string string | Hangs string | Unspecified

text \<open>\<open>env_millis k\<close> is the \<open>k\<close>-th interval the benchmark measures.\<close>

record 'w cli_env =
  env_clock :: "nat \<Rightarrow> timestamp"
  env_millis :: "nat \<Rightarrow> double"
  env_io :: file_io
  env_files :: file_system
  env_os :: "'w os"
  env_world :: 'w
  env_send :: "'w send_fn"
  env_recv :: "'w recv_fn"
  env_frame_clock :: "nat \<Rightarrow> nat \<Rightarrow> nat \<Rightarrow> timestamp"

definition print_out :: "string \<Rightarrow> cli_outcome" where
  "print_out s = Exits 0 s []"

definition print_err :: "string \<Rightarrow> cli_outcome" where
  "print_err s = Exits 1 [] s"

fun getarg :: "string list \<Rightarrow> string \<Rightarrow> string \<Rightarrow> string" where
  "getarg (x # y # a) key d = (if x = key then y else getarg (y # a) key d)"
| "getarg _ key d = d"

definition hasarg :: "string list \<Rightarrow> string \<Rightarrow> bool" where
  "hasarg a key \<longleftrightarrow> key \<in> set a"

text \<open>\<open>%-ns\<close>.\<close>

definition left_field :: "nat \<Rightarrow> string \<Rightarrow> string" where
  "left_field n s = s @ replicate (n - length s) (CHR '' '')"

definition yes_no :: "bool \<Rightarrow> string" where
  "yes_no b = (if b then ''yes'' else ''no'')"

definition show_u64 :: "u64 \<Rightarrow> string" where
  "show_u64 w = nat_digits (unat w)"

section \<open>The sample fabric\<close>

definition demo_fabric :: fabric where
  "demo_fabric = new_fabric (derive ''demo-workload'') (derive ''node-0'') ''cuda:0'' ''cuda'' (policy_defaults 1) (2 ^ 30)"

definition sample_dims :: warmth_dimensions where
  "sample_dims = dims_default\<lparr>model_residency := D_PARTIAL, artifact_availability := D_VALID,
     artifact_validation := D_VALID, local_dependency_readiness := D_VALID, tokenizer_readiness := D_VALID\<rparr>"

definition build_sample_fabric :: fabric where
  "build_sample_fabric =
    (let wm = Some (derive ''demo-model''); art = Some (derive ''demo-artifact'');
         repl = Some (derive ''replica-0''); eng = Some (derive ''engine-0'');
         (idw, f1) = register_object MODEL_WEIGHTS ''model.weights'' wm art repl eng demo_fabric;
         (ida, f2) = register_object ADAPTERS ''model.adapters'' wm art repl eng f1;
         (idk, f3) = register_object KERNEL_ARTIFACTS ''kernels'' wm art repl eng f2;
         (idg, f4) = register_object EXECUTION_GRAPHS ''graphs'' wm art repl eng f3;
         (ide, f5) = register_object ENGINE_RUNTIME_PROCESS ''engine'' wm art repl eng f4;
         f6 = snd (fabric_set_dimensions idw sample_dims f5);
         f7 = snd (fabric_set_dimension ida AdapterResidency D_COLD f6);
         f8 = snd (fabric_set_dimension idk KernelReadiness D_COLD f7);
         f9 = snd (fabric_set_dimension idg GraphReadiness D_COLD f8)
     in snd (fabric_set_dimension ide EngineReadiness D_COLD f9))"

section \<open>Commands that look\<close>

text \<open>The explanation \<open>print_objects\<close> fills in itself; the other members keep their defaults.\<close>

definition listed_explanation :: "warmth_object \<Rightarrow> readiness_explanation" where
  "listed_explanation o' =
     \<lparr>re_object = wo_id o', re_category = wo_category o', re_state = wo_state o', re_composite = obj_composite_level o',
      re_dimensions = map (\<lambda>d. \<lparr>dr_index = d, dr_status = dimension d o'\<rparr>) dimension_indices,
      re_cost = estimate o' (2 ^ 30), re_execution_ready = execution_ready o',
      re_invalidation_reason = [], re_decay_reason = [], re_policy_generation = 0, re_residency = [],
      re_chosen_action = [], re_alternatives = [], re_tie_break = [], re_priority = [], re_deadline = [], re_fairness = [],
      re_budget_constraints = [], re_missing_preparation = [],
      re_measured_warm_start_ms = dbl_zero, re_measured_cold_start_ms = dbl_zero\<rparr>"

definition objects_line :: "warmth_object \<Rightarrow> string" where
  "objects_line o' = id_to_string (wo_id o') @ ''  '' @ left_field 18 (category_name (wo_category o')) @ '' '' @
     left_field 8 (state_to_string (wo_state o')) @ '' composite='' @ left_field 10 (composite_name (obj_composite_level o')) @
     '' ready='' @ yes_no (execution_ready o') @
     ''  ttf='' @ printf_g 6 (rc_expected_ttfu_ms (estimate o' (2 ^ 30))) @ ''ms'' @ nl"

definition print_objects :: "fabric \<Rightarrow> bool \<Rightarrow> cli_outcome" where
  "print_objects f json = (case fabric_objects False f of Deadlock \<Rightarrow> Hangs []
     | Done objs \<Rightarrow> print_out (if json
         then dump 2 (JArray (map (\<lambda>o'. readiness_to_json (listed_explanation o')) objs)) @ nl
         else concat (map objects_line objs)))"

definition run_list :: "bool \<Rightarrow> cli_outcome" where
  "run_list json = print_objects build_sample_fabric json"

definition print_explanation :: "id128 \<Rightarrow> bool \<Rightarrow> cli_outcome" where
  "print_explanation i json = (case explain i build_sample_fabric of None \<Rightarrow> Unspecified
     | Some e \<Rightarrow> print_out (if json then dump 2 (readiness_to_json e) @ nl else readiness_to_text e))"

definition run_inspect :: "string list \<Rightarrow> bool \<Rightarrow> cli_outcome" where
  "run_inspect a json = (case id_from_string (getarg a ''inspect'' []) of None \<Rightarrow> print_err (''invalid id'' @ nl)
     | Some i \<Rightarrow> print_explanation i json)"

definition run_explain :: "string list \<Rightarrow> bool \<Rightarrow> cli_outcome" where
  "run_explain a json = (case id_from_string (getarg a ''explain'' []) of None \<Rightarrow> print_err []
     | Some i \<Rightarrow> print_explanation i json)"

definition run_readiness :: "bool \<Rightarrow> cli_outcome" where
  "run_readiness json = (case fabric_objects False build_sample_fabric of Deadlock \<Rightarrow> Hangs []
     | Done objs \<Rightarrow> let ready = length (filter execution_ready objs); total = length objs in
         print_out (if json
           then dump 2 (json_object [(''workload'', JString ''demo-workload''),
             (''total_objects'', JNumber (dbl_of_int (int total))), (''execution_ready'', JNumber (dbl_of_int (int ready)))]) @ nl
           else ''workload=demo-workload objects='' @ nat_digits total @ '' ready='' @ nat_digits ready @ nl))"

definition run_plan :: "bool \<Rightarrow> cli_outcome" where
  "run_plan json = (let pe = explain_plan build_sample_fabric
     in print_out (if json then dump 2 (plan_to_json pe) @ nl else plan_to_text pe))"

definition run_budgets :: "bool \<Rightarrow> cli_outcome" where
  "run_budgets json = (let f = build_sample_fabric; n = outstanding_reservations f in print_out (if json
     then dump 2 (json_object [(''device_memory'', json_count (budget_usage BK_DEVICE_MEMORY f)),
        (''concurrent_warming_ops'', json_count (budget_usage BK_CONCURRENT_WARMING_OPS f)),
        (''outstanding_reservations'', JNumber (dbl_of_int (int n))), (''balanced'', JBool (budgets_balanced f))]) @ nl
     else ''device_memory='' @ show_u64 (budget_usage BK_DEVICE_MEMORY f) @ '' concurrent_ops='' @
       show_u64 (budget_usage BK_CONCURRENT_WARMING_OPS f) @ '' outstanding='' @ nat_digits n @
       '' balanced='' @ yes_no (budgets_balanced f) @ nl))"

section \<open>Commands that act\<close>

definition reason_text :: "warmth_object \<Rightarrow> string" where
  "reason_text o' = (case wo_invalidation_reason o' of Some r \<Rightarrow> r | None \<Rightarrow> [])"

text \<open>\<open>id -> state\<close>, when the object is still there.\<close>

definition print_object_state :: "id128 \<Rightarrow> (warmth_object \<Rightarrow> string) \<Rightarrow> fabric \<Rightarrow> cli_outcome" where
  "print_object_state i extra f = (case fabric_get i f of None \<Rightarrow> print_out []
     | Some o' \<Rightarrow> print_out (id_to_string i @ '' -> '' @ state_to_string (wo_state o') @ extra o' @ nl))"

definition measured_text :: "warmth_action \<Rightarrow> string" where
  "measured_text action = (case synthetic_warm action of (ok, ms, bs) \<Rightarrow> printf_g 6 ms @ '' ms, '' @ show_u64 bs @ '' bytes'')"

definition run_warm :: "'w cli_env \<Rightarrow> string list \<Rightarrow> cli_outcome" where
  "run_warm env a = (case id_from_string (getarg a ''warm'' []) of None \<Rightarrow> print_err (''invalid id'' @ nl)
     | Some i \<Rightarrow> case warm (\<lambda>f. f) (env_clock env 0) (env_clock env 1) i TRANSFER_HOST_DEVICE build_sample_fabric of (ok, f) \<Rightarrow>
         if \<not> ok then print_err (''warm failed'' @ nl)
         else print_object_state i (\<lambda>_. '' (measured '' @ measured_text TRANSFER_HOST_DEVICE @ '')'') f)"

definition run_invalidate :: "string list \<Rightarrow> cli_outcome" where
  "run_invalidate a = (case id_from_string (getarg a ''invalidate'' []) of None \<Rightarrow> print_err []
     | Some i \<Rightarrow> case invalidate i IR_MODEL_REVISION_CHANGE build_sample_fabric of (ok, f) \<Rightarrow>
         if \<not> ok then print_err (''invalidate failed'' @ nl)
         else print_object_state i (\<lambda>o'. '' ('' @ reason_text o' @ '')'') f)"

definition run_demote :: "string list \<Rightarrow> cli_outcome" where
  "run_demote a = (case id_from_string (getarg a ''demote'' []) of None \<Rightarrow> print_err []
     | Some i \<Rightarrow> case warm_to_ready i build_sample_fabric of (ok, f) \<Rightarrow>
         if \<not> ok then print_err (''warm failed'' @ nl)
         else case demote i f of (ok', f') \<Rightarrow>
           if \<not> ok' then print_err (''demote failed'' @ nl) else print_object_state i (\<lambda>_. []) f')"

definition run_evict :: "string list \<Rightarrow> cli_outcome" where
  "run_evict a = (case id_from_string (getarg a ''evict'' []) of None \<Rightarrow> print_err []
     | Some i \<Rightarrow> case warm_to_ready i build_sample_fabric of (ok, f) \<Rightarrow>
         if \<not> ok then print_err (''warm failed'' @ nl)
         else case evict i f of (ok', f') \<Rightarrow>
           if \<not> ok' then print_err (''evict failed'' @ nl)
           else print_object_state i (\<lambda>o'. '' (residency='' @ residency_name (wo_residency o') @ '')'') f')"

section \<open>Snapshots\<close>

text \<open>An exception of \<open>encode_snapshot\<close> would leave \<open>main\<close>; its outcome is not specified here.\<close>

definition run_snapshot :: cli_outcome where
  "run_snapshot = (case fabric_snapshot False build_sample_fabric of Deadlock \<Rightarrow> Hangs []
     | Done snap \<Rightarrow> case encode_snapshot snap of Inl _ \<Rightarrow> Unspecified
       | Inr bs \<Rightarrow> print_out (''snapshot: '' @ nat_digits (length bs) @ '' bytes, '' @
           nat_digits (length (sn_objects snap)) @ '' objects'' @ nl))"

definition run_save :: "'w cli_env \<Rightarrow> string list \<Rightarrow> cli_outcome" where
  "run_save env a = (let path = getarg a ''save'' ''snapshot.wfbin'' in
     case fabric_save (env_io env) path build_sample_fabric (env_files env) of Deadlock \<Rightarrow> Hangs []
     | Done (Inl e, _) \<Rightarrow> print_err (''save failed: '' @ e @ nl)
     | Done (Inr _, _) \<Rightarrow> print_out (''saved '' @ path @ nl))"

definition run_recover :: "'w cli_env \<Rightarrow> string list \<Rightarrow> cli_outcome" where
  "run_recover env a = (case recover (env_io env) (getarg a ''recover'' ''snapshot.wfbin'') (env_files env) demo_fabric of
       (Inl e, _) \<Rightarrow> print_err (''recover failed: '' @ e @ nl)
     | (Inr _, f) \<Rightarrow> print_out (''recovered '' @ nat_digits (object_count f) @ '' objects (live dims must be revalidated)'' @ nl))"

section \<open>The synthetic demo\<close>

text \<open>\<open>f.get(id)->...\<close>: undefined on an absent object.\<close>

definition with_object :: "id128 \<Rightarrow> fabric \<Rightarrow> (warmth_object \<Rightarrow> string) \<Rightarrow> string option" where
  "with_object i f k = map_option k (fabric_get i f)"

definition synthetic_id :: id128 where
  "synthetic_id = fst (register_object MODEL_WEIGHTS ''model.weights'' (Some (derive ''demo-model'')) None None None demo_fabric)"

definition synthetic_fabric :: fabric where
  "synthetic_fabric = snd (register_object MODEL_WEIGHTS ''model.weights'' (Some (derive ''demo-model'')) None None None demo_fabric)"

text \<open>\<open>ms\<close> and \<open>bytes\<close> keep their zeros when the warming fails.\<close>

definition demo_measured :: "bool \<Rightarrow> warmth_action \<Rightarrow> string" where
  "demo_measured ok action = (case (if ok then snd (synthetic_warm action) else (dbl_zero, 0)) of (ms, bs) \<Rightarrow>
     printf_g 6 ms @ ''ms, '' @ show_u64 bs @ '' bytes'')"

definition synthetic_lines :: "'w cli_env \<Rightarrow> string option list" where
  "synthetic_lines env =
    (let i = synthetic_id; f0 = synthetic_fabric;
         (ok, f1) = warm (\<lambda>f. f) (env_clock env 0) (env_clock env 1) i TRANSFER_HOST_DEVICE f0;
         f2 = snd (invalidate i IR_MODEL_REVISION_CHANGE f1);
         f3 = snd (warm (\<lambda>f. f) (env_clock env 2) (env_clock env 3) i INIT_ENGINE f2)
     in [with_object i f0 (\<lambda>o'. ''cold: state='' @ state_to_string (wo_state o') @ '' composite='' @ composite_name (obj_composite_level o') @ nl),
         with_object i f1 (\<lambda>o'. ''warm: measured '' @ demo_measured ok TRANSFER_HOST_DEVICE @ '', state='' @
           state_to_string (wo_state o') @ '' execution_ready='' @ yes_no (execution_ready o') @ nl),
         with_object i f2 (\<lambda>o'. ''invalidated: state='' @ state_to_string (wo_state o') @ '' reason='' @ reason_text o' @ nl),
         with_object i f3 (\<lambda>o'. ''rewarmed: state='' @ state_to_string (wo_state o') @ '' ready='' @ yes_no (execution_ready o') @ nl),
         Some (''budgets_balanced='' @ yes_no (budgets_balanced f3) @ nl)])"

definition run_synthetic :: "'w cli_env \<Rightarrow> cli_outcome" where
  "run_synthetic env = (if None \<in> set (synthetic_lines env) then Unspecified
     else print_out (concat (map the (synthetic_lines env))))"

section \<open>The worker process\<close>

text \<open>\<open>std::atoi\<close> on the digits of the argument.\<close>

definition atoi :: "string \<Rightarrow> int" where
  "atoi s = (let t = dropWhile (\<lambda>c. c \<in> {CHR '' '', CHR 0x09, CHR 0x0A, CHR 0x0B, CHR 0x0C, CHR 0x0D}) s in
     case t of [] \<Rightarrow> 0
     | c # u \<Rightarrow> let ds = (if c = CHR ''-'' \<or> c = CHR ''+'' then u else t); n = int (digits_val (takeWhile is_digit ds))
         in if c = CHR ''-'' then - n else n)"

definition id_argument :: "string list \<Rightarrow> string \<Rightarrow> string \<Rightarrow> id128" where
  "id_argument a key text' = (case id_from_string (getarg a key []) of Some i \<Rightarrow> i | None \<Rightarrow> derive text')"

definition worker_of_args :: "string list \<Rightarrow> worker" where
  "worker_of_args a = new_worker (id_argument a ''--worker-id'' ''worker'') (id_argument a ''--boot'' ''boot'')
     (derive (getarg a ''--node'' ''node'')) (derive (getarg a ''--workload'' ''workload'')) ''cuda'' [''cuda:0'']
     [0, 1, 2, 3, 4, 5, 6, 7, 8, 9, 10, 11, 12, 13]"

text \<open>\<open>static_cast<std::uint16_t>(std::atoi(...))\<close>.\<close>

definition port_argument :: "string list \<Rightarrow> string \<Rightarrow> u16" where
  "port_argument a key = of_int (atoi (getarg a key ''0''))"

definition run_worker_mode :: "'w cli_env \<Rightarrow> string list \<Rightarrow> cli_outcome" where
  "run_worker_mode env a =
    (case tcp_connect (env_os env) (getarg a ''--coordinator-host'' ''127.0.0.1'') (port_argument a ''--coordinator-port'') (env_world env) of
     (sock, w0) \<Rightarrow>
     case worker_connect (env_send env) (env_recv env) \<lparr>conn_valid = tcp_valid sock, conn_world = w0\<rparr> (worker_of_args a) of (ok, conn, w) \<Rightarrow>
       if \<not> ok then print_err (''worker connect failed'' @ nl)
       else case worker_run (env_send env) (env_recv env) synthetic_hook (env_frame_clock env) conn ((), w) of
         None \<Rightarrow> Hangs [] | Some _ \<Rightarrow> print_out [])"

text \<open>The coordinator process: its \<open>stop\<close> flag is local and never set, and nobody calls \<open>stop()\<close>.\<close>

definition run_coordinator_mode :: "'w cli_env \<Rightarrow> string list \<Rightarrow> cli_outcome" where
  "run_coordinator_mode env a =
    (case coordinator_start (env_os env) ''127.0.0.1'' (port_argument a ''--port'') (new_listener, env_world env) of (ok, l, w) \<Rightarrow>
     if \<not> ok then print_err (''coordinator bind failed'' @ nl)
     else let greeting = ''coordinator listening on '' @ nat_digits (unat (coordinator_port l)) @ nl in
       case run_accept_loop (\<lambda>_. False) (\<lambda>_. False) (tcp_accept (env_os env) l) 0 w new_server of
         None \<Rightarrow> Hangs greeting | Some _ \<Rightarrow> print_out greeting)"

section \<open>The benchmark\<close>

definition bench_fabric :: "nat \<Rightarrow> id128 list \<times> fabric" where
  "bench_fabric n = fold (\<lambda>i (ids, f). case register_object APPLICATION_DEFINED (''bench-object-'' @ nat_digits i) None None None None f of
       (i', f') \<Rightarrow> (ids @ [i'], f')) [0..<n]
     ([], new_fabric (derive ''bench'') (derive ''n'') ''cuda:0'' ''cuda'' (policy_defaults 1) (2 ^ 30))"

definition run_benchmark :: "'w cli_env \<Rightarrow> cli_outcome" where
  "run_benchmark env = (case bench_fabric 2000 of (ids, f) \<Rightarrow>
     let ready = length (filter (\<lambda>i. case fabric_get i f of Some o' \<Rightarrow> execution_ready o' | None \<Rightarrow> False) ids)
     in print_out (''objects=2000 create_ms='' @ printf_g 6 (env_millis env 0) @ '' query_ms='' @ printf_g 6 (env_millis env 1) @
          '' read3x_ms='' @ printf_g 6 (env_millis env 2) @ '' ready='' @ nat_digits ready @ nl))"

section \<open>\<open>main\<close>\<close>

definition help_text :: string where
  "help_text =
     ''warmth_cli - Warmth Fabric command line'' @ nl @
     ''Usage: warmth_cli <command> [options]'' @ nl @
     ''Commands:'' @ nl @
     ''  list                         list warmth objects'' @ nl @
     ''  inspect <id>                 inspect a warmth object'' @ nl @
     ''  readiness                    show workload readiness'' @ nl @
     ''  warm <id>                    warm an object'' @ nl @
     ''  invalidate <id>              invalidate an object'' @ nl @
     ''  demote <id>                  demote an object'' @ nl @
     ''  evict <id>                   evict an object'' @ nl @
     ''  explain <id>                 explain readiness for an object'' @ nl @
     ''  plan                         explain the warming plan'' @ nl @
     ''  budgets                      show budgets and usage'' @ nl @
     ''  snapshot <path>              print/encode a snapshot'' @ nl @
     ''  save <path>                  persist a snapshot to a file'' @ nl @
     ''  recover <path>               recover a snapshot from a file'' @ nl @
     ''  synthetic                    run the synthetic cold->warm demo'' @ nl @
     ''  multiprocess                 run the atomic multiprocess restart proof'' @ nl @
     ''  cuda                         run the CUDA cold/warm proof'' @ nl @
     ''  benchmark                    run the microbenchmarks'' @ nl @
     ''  --coordinator [--port N]     run as a coordinator process'' @ nl @
     ''  --worker (options)           run as a worker process'' @ nl @
     ''Options: --json                emit JSON where applicable'' @ nl"

definition cli_main :: "'w cli_env \<Rightarrow> string list \<Rightarrow> cli_outcome" where
  "cli_main env a = (case a of [] \<Rightarrow> print_out help_text
     | cmd # _ \<Rightarrow> let json = hasarg a ''--json'' in
       if cmd = ''list'' then run_list json
       else if cmd = ''inspect'' then run_inspect a json
       else if cmd = ''readiness'' then run_readiness json
       else if cmd = ''warm'' then run_warm env a
       else if cmd = ''invalidate'' then run_invalidate a
       else if cmd = ''demote'' then run_demote a
       else if cmd = ''evict'' then run_evict a
       else if cmd = ''explain'' then run_explain a json
       else if cmd = ''plan'' then run_plan json
       else if cmd = ''budgets'' then run_budgets json
       else if cmd = ''snapshot'' then run_snapshot
       else if cmd = ''save'' then run_save env a
       else if cmd = ''recover'' then run_recover env a
       else if cmd = ''synthetic'' then run_synthetic env
       else if cmd = ''benchmark'' then run_benchmark env
       else if cmd = ''multiprocess'' then print_err (''multiprocess requires Windows'' @ nl)
       else if cmd = ''cuda'' then print_err (''cuda requires Windows'' @ nl)
       else if cmd = ''--worker'' then run_worker_mode env a
       else if cmd = ''--coordinator'' then run_coordinator_mode env a
       else if cmd \<in> {''help'', ''--help'', ''-h''} then print_out help_text
       else Exits 1 help_text [])"

section \<open>Facts\<close>

lemma listed_explanation_ok: "explanation_ok (listed_explanation o')"
proof -
  have "num_ok dbl_zero" by (simp add: num_ok_def dbl_mag_def)
  moreover have "rc_observed_ttfu_ms (estimate o' mb) = dbl_zero" for mb
    by (simp add: estimate_def Let_def readiness_cost_default_def)
  ultimately show ?thesis using num_ok_estimate[of o' "2 ^ 30"] by (simp add: explanation_ok_def listed_explanation_def)
qed

text \<open>A command that saves takes the lock of the fabric twice.\<close>

lemma snapshot_deadlocks: "fabric_snapshot False f = Deadlock"
  by (simp add: fabric_snapshot_def fabric_objects_def lock_guard_def)

lemma cli_save_hangs: "run_snapshot = Hangs []" "run_save env a = Hangs []"
  by (simp_all add: run_snapshot_def run_save_def fabric_save_def snapshot_deadlocks Let_def)

section \<open>The synthetic demo, step by step\<close>

definition demo_object :: warmth_object where
  "demo_object = (new_object synthetic_id MODEL_WEIGHTS (derive ''demo-workload'') (derive ''node-0'') ''cuda:0'' ''cuda'')
     \<lparr>wo_logical_owner := ''model.weights'', wo_model := Some (derive ''demo-model''), wo_warmth_gen := 1\<rparr>"

lemma synthetic_fabric_eq: "synthetic_fabric = demo_fabric\<lparr>fb_objects := [(synthetic_id, demo_object)]\<rparr>"
  by (simp add: synthetic_fabric_def synthetic_id_def demo_object_def register_object_def demo_fabric_def new_fabric_def new_object_def Let_def)

lemma demo_object_fields: "wo_state demo_object = COLD" "wo_dims demo_object = dims_default"
  by (simp_all add: demo_object_def new_object_def)

definition warmed :: "warmth_action \<Rightarrow> timestamp \<Rightarrow> timestamp \<Rightarrow> warmth_object \<Rightarrow> warmth_object" where
  "warmed action t t' o' = (case synthetic_warm action of (ok, d, bs) \<Rightarrow> record_warm d bs t t'
     ((try_transition WARM ''warm_completed'' (try_transition PREPARING ''warming'' o'))\<lparr>wo_invalidation_reason := None\<rparr>))"

definition idle_budget :: "u64 \<Rightarrow> (u8, u64) std_map \<Rightarrow> budget_tracker" where
  "idle_budget k u = \<lparr>bt_limits = budget_limits_default, bt_reservations = [], bt_usage = u, bt_next_id = k\<rparr>"

lemma idle_warm:
  assumes "fb_op f = None" "fb_objects f = [(i, o')]" "fb_budget f = idle_budget k u" "transition_allowed (wo_state o') PREPARING"
    "k \<noteq> 0" "k + 1 \<noteq> 0"
  shows "\<exists>f' u'. warm (\<lambda>f. f) t t' i action f = (True, f') \<and> fb_objects f' = [(i, warmed action t t' o')]
    \<and> fb_op f' = None \<and> fb_budget f' = idle_budget (k + 2) u' \<and> fb_policy f' = fb_policy f"
proof -
  have k: "k + 1 + 1 = k + 2" by simp
  show ?thesis using assms
    by (simp add: warm_def warm_begin_def warm_finish_def on_object_def reserve_def idle_budget_def budget_limits_default_def
      fits_def next_id_def kDefaultWarmBytes_def release_pair_def release_def Let_def synthetic_warm_def warmed_def map_emplace_def k)
qed

lemma warmed_fields:
  assumes "transition_allowed (wo_state o') PREPARING"
  shows "wo_state (warmed action t t' o') = WARM" "wo_invalidation_reason (warmed action t t' o') = None"
  using assms by (simp_all add: warmed_def synthetic_warm_def record_warm_def transition_allowed_def)

lemma demo_budget: "fb_op demo_fabric = None" "fb_budget demo_fabric = idle_budget 1 []"
  by (simp_all add: demo_fabric_def new_fabric_def policy_defaults_def new_tracker_def idle_budget_def)

lemma dims_default_cold: "dims_composite_level dims_default = C_COLD"
  unfolding composite_cold_iff
proof
  fix d
  show "dimension_score (dims_get d dims_default) = 0" by (cases d) (simp_all add: dims_default_def)
qed

lemma demo_invalidate:
  assumes "fb_objects f = [(i, o')]" "wo_state o' = WARM"
  shows "\<exists>f' o1. invalidate i IR_MODEL_REVISION_CHANGE f = (True, f') \<and> fb_objects f' = [(i, o1)] \<and> wo_state o1 = INVALIDATED
    \<and> wo_invalidation_reason o1 = Some ''MODEL_REVISION_CHANGE'' \<and> fb_op f' = fb_op f \<and> fb_budget f' = fb_budget f"
  using assms by (simp add: invalidate_def on_object_def transition_allowed_def)

text \<open>An object warmed, invalidated and warmed again in a fabric of its own.\<close>

lemma warm_cycle:
  assumes "fb_op f0 = None" "fb_objects f0 = [(i, o0)]" "fb_budget f0 = idle_budget 1 []" "wo_state o0 = COLD"
  shows "\<exists>f1 f2 f3 o1 o2 o3. warm (\<lambda>f. f) t0 t1 i action f0 = (True, f1) \<and> invalidate i IR_MODEL_REVISION_CHANGE f1 = (True, f2)
     \<and> warm (\<lambda>f. f) t2 t3 i INIT_ENGINE f2 = (True, f3)
     \<and> fabric_get i f1 = Some o1 \<and> wo_state o1 = WARM
     \<and> fabric_get i f2 = Some o2 \<and> wo_state o2 = INVALIDATED \<and> wo_invalidation_reason o2 = Some ''MODEL_REVISION_CHANGE''
     \<and> fabric_get i f3 = Some o3 \<and> wo_state o3 = WARM \<and> budgets_balanced f3"
proof -
  have c: "transition_allowed (wo_state o0) PREPARING" by (simp add: assms(4) transition_allowed_def)
  obtain f1 u1 where 1: "warm (\<lambda>f. f) t0 t1 i action f0 = (True, f1)" "fb_objects f1 = [(i, warmed action t0 t1 o0)]"
    "fb_op f1 = None" "fb_budget f1 = idle_budget (1 + 2) u1"
    using idle_warm[OF assms(1-3) c, of t0 t1 action] by auto
  note o1 = warmed_fields(1)[OF c, of action t0 t1]
  obtain f2 o2 where 2: "invalidate i IR_MODEL_REVISION_CHANGE f1 = (True, f2)" "fb_objects f2 = [(i, o2)]"
    "wo_state o2 = INVALIDATED" "wo_invalidation_reason o2 = Some ''MODEL_REVISION_CHANGE''" "fb_op f2 = None"
    "fb_budget f2 = idle_budget (1 + 2) u1"
    using demo_invalidate[OF 1(2) o1] 1(3,4) by auto
  have p: "transition_allowed (wo_state o2) PREPARING" by (simp add: 2(3) transition_allowed_def)
  obtain f3 u3 where 3: "warm (\<lambda>f. f) t2 t3 i INIT_ENGINE f2 = (True, f3)"
    "fb_objects f3 = [(i, warmed INIT_ENGINE t2 t3 o2)]" "fb_budget f3 = idle_budget (1 + 2 + 2) u3"
    using idle_warm[OF 2(5,2,6) p, of t2 t3 INIT_ENGINE] by auto
  have bal: "budgets_balanced f3" by (simp add: budgets_balanced_def balanced_def 3(3) idle_budget_def)
  show ?thesis
    by (rule exI[of _ f1], rule exI[of _ f2], rule exI[of _ f3]) (use 1(1,2) o1 2 3 bal warmed_fields(1)[OF p] in \<open>simp add: fabric_get_def\<close>)
qed

lemma synthetic_fabric_fields:
  "fb_op synthetic_fabric = None" "fb_objects synthetic_fabric = [(synthetic_id, demo_object)]" "fb_budget synthetic_fabric = idle_budget 1 []"
  by (simp_all add: synthetic_fabric_eq demo_budget)

lemmas demo_history = warm_cycle[OF synthetic_fabric_fields demo_object_fields(1), where action = TRANSFER_HOST_DEVICE]

lemma synthetic_lines_eq:
  "synthetic_lines env = map Some [''cold: state=COLD composite=COLD'' @ nl,
     ''warm: measured '' @ printf_g 6 (fst (snd (synthetic_warm TRANSFER_HOST_DEVICE))) @
       ''ms, 268435456 bytes, state=WARM execution_ready=yes'' @ nl,
     ''invalidated: state=INVALIDATED reason=MODEL_REVISION_CHANGE'' @ nl,
     ''rewarmed: state=WARM ready=yes'' @ nl, ''budgets_balanced=yes'' @ nl]"
proof -
  obtain f1 f2 f3 o1 o2 o3 where h:
    "warm (\<lambda>f. f) (env_clock env 0) (env_clock env 1) synthetic_id TRANSFER_HOST_DEVICE synthetic_fabric = (True, f1)"
    "invalidate synthetic_id IR_MODEL_REVISION_CHANGE f1 = (True, f2)"
    "warm (\<lambda>f. f) (env_clock env 2) (env_clock env 3) synthetic_id INIT_ENGINE f2 = (True, f3)"
    and get: "fabric_get synthetic_id f1 = Some o1" "fabric_get synthetic_id f2 = Some o2" "fabric_get synthetic_id f3 = Some o3"
    and o: "wo_state o1 = WARM" "wo_state o2 = INVALIDATED" "wo_invalidation_reason o2 = Some ''MODEL_REVISION_CHANGE''"
      "wo_state o3 = WARM" "budgets_balanced f3"
    using demo_history[where ?t0.0 = "env_clock env 0" and ?t1.0 = "env_clock env 1" and ?t2.0 = "env_clock env 2" and ?t3.0 = "env_clock env 3"] by blast
  have get0: "fabric_get synthetic_id synthetic_fabric = Some demo_object" by (simp add: fabric_get_def synthetic_fabric_eq)
  have bytes: "show_u64 (2 ^ 28) = ''268435456''" unfolding show_u64_def by (simp add: nat_digits.simps) code_simp
  show ?thesis
    unfolding synthetic_lines_def Let_def h prod.case snd_conv with_object_def get get0
    by (simp add: o demo_object_fields obj_composite_level_def dims_default_cold execution_ready_def is_execution_ready_def
        yes_no_def reason_text_def demo_measured_def synthetic_warm_def bytes[simplified])
qed


text \<open>The objects a listing shows, as a reader of the JSON sees them.\<close>

definition shows_object :: "warmth_object \<Rightarrow> json \<Rightarrow> bool" where
  "shows_object o' v \<longleftrightarrow> json_find ''object'' v = Some (JString (id_to_string (wo_id o')))
     \<and> json_find ''state'' v = Some (JString (state_to_string (wo_state o')))
     \<and> json_find ''execution_ready'' v = Some (JBool (execution_ready o'))
     \<and> json_find ''dimensions'' v = Some (JArray (map (\<lambda>d. dimension_to_json \<lparr>dr_index = d, dr_status = dimension d o'\<rparr>) dimension_indices))"

lemma listed_shows: "shows_object o' (json_nf (readiness_to_json (listed_explanation o')))"
  by (simp add: shows_object_def json_find_nf readiness_to_json_find listed_explanation_def json_id_def dimension_to_json_nf)

lemma listing_parses:
  "\<exists>out vs. print_objects f True = Exits 0 out [] \<and> json_parse out = Inr (JArray vs)
     \<and> list_all2 shows_object (map snd (fb_objects f)) vs"
proof -
  let ?v = "JArray (map (\<lambda>o'. readiness_to_json (listed_explanation o')) (map snd (fb_objects f)))"
  have "json_ok ?v" using readiness_to_json_ok[OF listed_explanation_ok] by (auto simp: list_all_iff)
  then have "json_parse (dump 2 ?v @ nl) = Inr (json_nf ?v)" by (rule json_parse_dump_ws) (simp add: nl_def is_ws_def)
  moreover have "print_objects f True = Exits 0 (dump 2 ?v @ nl) []"
    by (simp add: print_objects_def fabric_objects_def lock_guard_def print_out_def)
  ultimately show ?thesis by (auto simp: listed_shows list_all2_conv_all_nth)
qed

section \<open>How commands end\<close>

definition ends_well :: "cli_outcome \<Rightarrow> bool" where
  "ends_well r \<longleftrightarrow> (case r of Exits c out err \<Rightarrow> c = 0 \<or> c = 1 | _ \<Rightarrow> False)"

lemma ends_well_prints [simp]: "ends_well (print_out s)" "ends_well (print_err s)" "ends_well (Exits 1 s t)"
  by (simp_all add: ends_well_def print_out_def print_err_def)

lemma ends_well_state [simp]: "ends_well (print_object_state i extra f)"
  by (simp add: print_object_state_def split: option.split)

lemma looking_ends [simp]:
  "ends_well (print_objects f json)" "ends_well (run_readiness json)" "ends_well (run_plan json)" "ends_well (run_budgets json)"
  by (simp_all add: print_objects_def run_readiness_def run_plan_def run_budgets_def fabric_objects_def lock_guard_def Let_def)

lemma acting_ends [simp]:
  "ends_well (run_warm env a)" "ends_well (run_invalidate a)" "ends_well (run_demote a)" "ends_well (run_evict a)"
  "ends_well (run_recover env a)" "ends_well (run_benchmark env)"
  by (auto simp: run_warm_def run_invalidate_def run_demote_def run_evict_def run_recover_def run_benchmark_def Let_def
      split: option.split prod.split sum.split)

lemma synthetic_ends [simp]: "ends_well (run_synthetic env)"
  by (simp add: run_synthetic_def synthetic_lines_eq)

text \<open>Only an identifier that names no object of the sample leaves the output unspecified.\<close>

lemma print_explanation_ends:
  "print_explanation i json = Unspecified \<longleftrightarrow> fabric_get i build_sample_fabric = None"
  "print_explanation i json \<noteq> Unspecified \<Longrightarrow> ends_well (print_explanation i json)"
proof -
  have n: "explain i f = None \<longleftrightarrow> fabric_get i f = None" for f by (simp add: explain_def fabric_get_def)
  show "print_explanation i json = Unspecified \<longleftrightarrow> fabric_get i build_sample_fabric = None"
    by (simp add: print_explanation_def n[symmetric] print_out_def split: option.split)
  show "print_explanation i json \<noteq> Unspecified \<Longrightarrow> ends_well (print_explanation i json)"
    by (auto simp: print_explanation_def split: option.splits)
qed

lemma coordinator_mode_ends: "ends_well (run_coordinator_mode env a) \<or> (\<exists>p. run_coordinator_mode env a = Hangs (''coordinator listening on '' @ p @ nl))"
  by (auto simp: run_coordinator_mode_def accept_loop_runs_on Let_def split: prod.split)

end
