(* ===== verification/Cursor.thy ===== *)
theory Cursor
  imports Messages
begin

text \<open>
  The classes \<open>WireEncoder\<close> and \<open>WireDecoder\<close> of \<open>include/warmth/protocol.hpp\<close> as they are written: a growing
  buffer, and a span with a position and a flag that the operations update. The other theories use
  encoders as byte lists and decoders as readers; here these are shown to be abstractions of the
  classes. \<open>implements\<close> is the simulation between a cursor operation and a reader, kept by sequencing,
  tests and counted loops, so that it carries over to whole message decoders.
\<close>

section \<open>The encoder\<close>

type_synonym wire_encoder = bytes

definition we_u8 :: "u8 \<Rightarrow> wire_encoder \<Rightarrow> wire_encoder" where
  "we_u8 v out = out @ [v]"

definition we_u16 :: "u16 \<Rightarrow> wire_encoder \<Rightarrow> wire_encoder" where
  "we_u16 v out = we_u8 (ucast v) (we_u8 (ucast (drop_bit 8 v)) out)"

definition we_u32 :: "u32 \<Rightarrow> wire_encoder \<Rightarrow> wire_encoder" where
  "we_u32 v out = we_u8 (ucast v) (we_u8 (ucast (drop_bit 8 v)) (we_u8 (ucast (drop_bit 16 v)) (we_u8 (ucast (drop_bit 24 v)) out)))"

definition we_u64 :: "u64 \<Rightarrow> wire_encoder \<Rightarrow> wire_encoder" where
  "we_u64 v out = fold (\<lambda>i. we_u8 (ucast (drop_bit (i * 8) v))) [7, 6, 5, 4, 3, 2, 1, 0] out"

text \<open>\<open>memcpy\<close> of a double to its bits.\<close>

definition we_f64 :: "double \<Rightarrow> wire_encoder \<Rightarrow> wire_encoder" where
  "we_f64 d out = we_u64 d out"

definition we_bytes :: "bytes \<Rightarrow> wire_encoder \<Rightarrow> wire_encoder" where
  "we_bytes bs out = out @ bs"

definition we_id :: "id128 \<Rightarrow> wire_encoder \<Rightarrow> wire_encoder" where
  "we_id i out = we_bytes (to_bytes i) out"

definition we_str :: "string \<Rightarrow> wire_encoder \<Rightarrow> wire_encoder" where
  "we_str s out = we_bytes (map byte_of_char s) (we_u32 (of_nat (length s)) out)"

lemma encoder_appends:
  "we_u8 v1 out = out @ put_u8 v1" "we_u16 v2 out = out @ put_u16 v2" "we_u32 v4 out = out @ put_u32 v4"
  "we_u64 v8 out = out @ put_u64 v8" "we_f64 d out = out @ put_u64 d" "we_id i out = out @ put_id i" "we_str s out = out @ put_str s"
proof -
  show "we_u8 v1 out = out @ put_u8 v1" by (simp add: we_u8_def put_u8_def)
  show "we_u16 v2 out = out @ put_u16 v2"
    by (simp add: we_u16_def we_u8_def put_u16_def be_bytes_def upt_rec)
  show u32: "we_u32 v4 out = out @ put_u32 v4" for v4 out
    by (simp add: we_u32_def we_u8_def put_u32_def be_bytes_def upt_rec)
  show u64: "we_u64 v8 out = out @ put_u64 v8" for v8 out
    by (simp add: we_u64_def we_u8_def put_u64_def be_bytes_def upt_rec)
  show "we_f64 d out = out @ put_u64 d" by (simp add: we_f64_def u64)
  show "we_id i out = out @ put_id i" by (simp add: we_id_def we_bytes_def put_id_def)
  show "we_str s out = out @ put_str s" by (simp add: we_str_def we_bytes_def put_str_def u32)
qed

section \<open>The decoder\<close>

record cursor =
  cu_span :: bytes
  cu_pos :: nat
  cu_ok :: bool

type_synonym 'a cursor_op = "cursor \<Rightarrow> 'a option \<times> cursor"

definition new_cursor :: "bytes \<Rightarrow> cursor" where
  "new_cursor s = \<lparr>cu_span = s, cu_pos = 0, cu_ok = True\<rparr>"

definition cu_remaining :: "cursor \<Rightarrow> nat" where
  "cu_remaining c = length (cu_span c) - cu_pos c"

definition cu_take :: "nat \<Rightarrow> cursor \<Rightarrow> bool \<times> cursor" where
  "cu_take n c = (if n > cu_remaining c then (False, c\<lparr>cu_ok := False\<rparr>) else (True, c\<lparr>cu_pos := cu_pos c + n\<rparr>))"

text \<open>The \<open>n\<close> bytes before the position, \<open>s_[i_ - n + k]\<close>.\<close>

definition cu_last :: "nat \<Rightarrow> cursor \<Rightarrow> bytes" where
  "cu_last n c = map (\<lambda>k. cu_span c ! (cu_pos c - n + k)) [0..<n]"

definition cu_peek_u8 :: "cursor \<Rightarrow> u8 option" where
  "cu_peek_u8 c = (if length (cu_span c) \<le> cu_pos c then None else Some (cu_span c ! cu_pos c))"

definition cu_u8 :: "u8 cursor_op" where
  "cu_u8 c = (case cu_take 1 c of (ok, c') \<Rightarrow> if \<not> ok then (None, c') else (Some (cu_span c' ! (cu_pos c' - 1)), c'))"

definition cu_u16 :: "u16 cursor_op" where
  "cu_u16 c = (case cu_u8 c of (None, c1) \<Rightarrow> (None, c1)
     | (Some a, c1) \<Rightarrow> (case cu_u8 c1 of (None, c2) \<Rightarrow> (None, c2)
        | (Some b, c2) \<Rightarrow> (Some (push_bit 8 (ucast a) OR ucast b), c2)))"

definition cu_u32 :: "u32 cursor_op" where
  "cu_u32 c = (case cu_take 4 c of (ok, c') \<Rightarrow> if \<not> ok then (None, c')
     else let b = cu_last 4 c' in
       (Some (push_bit 24 (ucast (b ! 0)) OR push_bit 16 (ucast (b ! 1)) OR push_bit 8 (ucast (b ! 2)) OR ucast (b ! 3)), c'))"

definition cu_u64 :: "u64 cursor_op" where
  "cu_u64 c = (case cu_take 8 c of (ok, c') \<Rightarrow> if \<not> ok then (None, c')
     else let b = cu_last 8 c' in (Some (fold (\<lambda>k v. push_bit 8 v OR ucast (b ! k)) [0..<8] 0), c'))"

definition cu_f64 :: "double cursor_op" where
  "cu_f64 c = cu_u64 c"

definition cu_id :: "id128 cursor_op" where
  "cu_id c = (case cu_take 16 c of (ok, c') \<Rightarrow> if \<not> ok then (None, c') else (Some (from_bytes (cu_last 16 c')), c'))"

text \<open>A length beyond the end fails without clearing the flag.\<close>

definition cu_str :: "string cursor_op" where
  "cu_str c = (case cu_u32 c of (None, c1) \<Rightarrow> (None, c1)
     | (Some len, c1) \<Rightarrow> if unat len > cu_remaining c1 then (None, c1)
        else (Some (map char_of_byte (take (unat len) (drop (cu_pos c1) (cu_span c1)))), c1\<lparr>cu_pos := cu_pos c1 + unat len\<rparr>))"

text \<open>\<open>if (!r.op(x)) return false; ...\<close> and a loop of a given number of turns that appends what it reads.\<close>

definition cu_ret :: "'a \<Rightarrow> 'a cursor_op" where
  "cu_ret x c = (Some x, c)"

definition cu_bind :: "'a cursor_op \<Rightarrow> ('a \<Rightarrow> 'b cursor_op) \<Rightarrow> 'b cursor_op" where
  "cu_bind r f c = (case r c of (None, c') \<Rightarrow> (None, c') | (Some x, c') \<Rightarrow> f x c')"

definition cu_guard :: "bool \<Rightarrow> 'a cursor_op \<Rightarrow> 'a cursor_op" where
  "cu_guard b r c = (if b then r c else (None, c))"

definition cu_enum :: "'a option \<Rightarrow> ('a \<Rightarrow> 'b cursor_op) \<Rightarrow> 'b cursor_op" where
  "cu_enum x f c = (case x of None \<Rightarrow> (None, c) | Some y \<Rightarrow> f y c)"

fun cu_times :: "nat \<Rightarrow> 'a cursor_op \<Rightarrow> 'a list \<Rightarrow> 'a list cursor_op" where
  "cu_times 0 r acc = cu_ret acc"
| "cu_times (Suc n) r acc = cu_bind r (\<lambda>x. cu_times n r (acc @ [x]))"

section \<open>The simulation\<close>

definition cu_wf :: "cursor \<Rightarrow> bool" where
  "cu_wf c \<longleftrightarrow> cu_pos c \<le> length (cu_span c)"

definition cu_rest :: "cursor \<Rightarrow> bytes" where
  "cu_rest c = drop (cu_pos c) (cu_span c)"

definition implements :: "'a cursor_op \<Rightarrow> (unit, 'a) reader \<Rightarrow> bool" where
  "implements op r \<longleftrightarrow> (\<forall>c. cu_wf c \<longrightarrow> cu_wf (snd (op c)) \<and> cu_span (snd (op c)) = cu_span c \<and>
     (case r (cu_rest c) of Inl _ \<Rightarrow> fst (op c) = None
      | Inr (v, s) \<Rightarrow> fst (op c) = Some v \<and> cu_rest (snd (op c)) = s \<and> cu_ok (snd (op c)) = cu_ok c))"

lemma implementsI:
  assumes "\<And>c. cu_wf c \<Longrightarrow> cu_wf (snd (op c)) \<and> cu_span (snd (op c)) = cu_span c"
    and "\<And>c. cu_wf c \<Longrightarrow> r (cu_rest c) = Inl () \<Longrightarrow> fst (op c) = None"
    and "\<And>c v s. cu_wf c \<Longrightarrow> r (cu_rest c) = Inr (v, s) \<Longrightarrow> fst (op c) = Some v \<and> cu_rest (snd (op c)) = s \<and> cu_ok (snd (op c)) = cu_ok c"
  shows "implements op r"
  using assms unfolding implements_def by (auto split: sum.split)

lemma implementsD:
  assumes "implements op r" "cu_wf c"
  shows "cu_wf (snd (op c))" "cu_span (snd (op c)) = cu_span c"
    and "r (cu_rest c) = Inl () \<Longrightarrow> fst (op c) = None"
    and "r (cu_rest c) = Inr (v, s) \<Longrightarrow> op c = (Some v, snd (op c)) \<and> cu_rest (snd (op c)) = s \<and> cu_ok (snd (op c)) = cu_ok c"
  using assms unfolding implements_def by (auto simp: prod_eq_iff)

lemma implements_ret: "implements (cu_ret x) (rret x)"
  by (rule implementsI) (auto simp: cu_ret_def)

lemma cu_bind_None: "op c = (None, c') \<Longrightarrow> cu_bind op f c = (None, c')"
  by (simp add: cu_bind_def)

lemma cu_bind_Some: "op c = (Some x, c') \<Longrightarrow> cu_bind op f c = f x c'"
  by (simp add: cu_bind_def)

lemma implements_bind:
  assumes "implements op r" "\<And>x. implements (f x) (g x)"
  shows "implements (cu_bind op f) (rbind r g)"
proof (rule implementsI)
  fix c assume wf: "cu_wf c"
  note d = implementsD[OF assms(1) wf]
  show "cu_wf (snd (cu_bind op f c)) \<and> cu_span (snd (cu_bind op f c)) = cu_span c"
    using d(1,2) implementsD(1,2)[OF assms(2) d(1)] by (auto simp: cu_bind_def split: prod.splits option.splits)
  {
    assume n: "rbind r g (cu_rest c) = Inl ()"
    show "fst (cu_bind op f c) = None"
    proof (cases "r (cu_rest c)")
      case (Inl e)
      then have "op c = (None, snd (op c))" using d(3) by (simp add: prod_eq_iff)
      then show ?thesis using cu_bind_None by (metis fst_conv)
    next
      case (Inr xs)
      obtain x s where xs: "xs = (x, s)" by (cases xs)
      note o = d(4)[OF Inr[unfolded xs]]
      have "g x (cu_rest (snd (op c))) = Inl ()" using n Inr xs o by (simp add: rbind_def)
      from implementsD(3)[OF assms(2) d(1) this] show ?thesis using cu_bind_Some[of op c x "snd (op c)" f] o by simp
    qed
  next
    fix v s assume y: "rbind r g (cu_rest c) = Inr (v, s)"
    then obtain x s1 where x: "r (cu_rest c) = Inr (x, s1)" "g x s1 = Inr (v, s)" by (auto simp: rbind_def split: sum.splits)
    note o = d(4)[OF x(1)]
    have "g x (cu_rest (snd (op c))) = Inr (v, s)" using o x(2) by simp
    from implementsD(4)[OF assms(2) d(1) this]
    show "fst (cu_bind op f c) = Some v \<and> cu_rest (snd (cu_bind op f c)) = s \<and> cu_ok (snd (cu_bind op f c)) = cu_ok c"
      using o cu_bind_Some[of op c x "snd (op c)" f] by (metis fst_conv)
  }
qed

lemma implements_cong: "implements op r \<Longrightarrow> (\<And>c. op' c = op c) \<Longrightarrow> (\<And>s. r' s = r s) \<Longrightarrow> implements op' r'"
proof -
  assume "implements op r" and e: "\<And>c. op' c = op c" "\<And>s. r' s = r s"
  moreover have "op' = op" "r' = r" by (simp_all add: e fun_eq_iff)
  ultimately show ?thesis by simp
qed

lemma implements_guard: "implements op r \<Longrightarrow> implements (cu_guard b op) (rguard b () r)"
  by (cases b) (auto intro: implements_cong implementsI simp: cu_guard_def)

lemma implements_enum: "(\<And>y. implements (f y) (g y)) \<Longrightarrow> implements (cu_enum x f) (renum () x g)"
proof (cases x)
  case None
  have "implements (cu_guard False (cu_ret undefined)) (rguard False () (rret undefined))"
    by (intro implements_guard implements_ret)
  then show ?thesis by (rule implements_cong) (simp_all add: None cu_enum_def cu_guard_def)
next
  case (Some y)
  assume "\<And>y. implements (f y) (g y)"
  from this[of y] show ?thesis by (rule implements_cong) (simp_all add: Some cu_enum_def)
qed

lemma implements_label: "implements op r \<Longrightarrow> implements op (label () r)"
  by (rule implements_cong) (auto simp: label_def split: sum.split)

lemma implements_if: "implements op r \<Longrightarrow> implements op' r' \<Longrightarrow> implements (if b then op else op') (if b then r else r')"
  by simp

lemma implements_times:
  assumes "implements op r"
  shows "implements (cu_times n op acc) (rbind (rtimes n r) (\<lambda>xs. rret (acc @ xs)))"
proof (induction n arbitrary: acc)
  case 0
  have "implements (cu_ret acc) (rret acc)" by (rule implements_ret)
  then show ?case by (rule implements_cong) (simp_all add: rbind_def)
next
  case (Suc n)
  have "implements (cu_bind op (\<lambda>x. cu_times n op (acc @ [x]))) (rbind r (\<lambda>x. rbind (rtimes n r) (\<lambda>xs. rret ((acc @ [x]) @ xs))))"
    by (rule implements_bind[OF assms Suc.IH])
  then show ?case
    by (rule implements_cong) (auto simp: rbind_def split: sum.split)
qed

section \<open>The primitives\<close>

lemma cu_take_fail: "n > length (cu_rest c) \<Longrightarrow> cu_take n c = (False, c\<lparr>cu_ok := False\<rparr>)"
  by (simp add: cu_take_def cu_remaining_def cu_rest_def)

lemma cu_take_ok:
  assumes "cu_wf c" "n \<le> length (cu_rest c)"
  shows "cu_take n c = (True, c\<lparr>cu_pos := cu_pos c + n\<rparr>)" "cu_wf (c\<lparr>cu_pos := cu_pos c + n\<rparr>)"
    "cu_last n (c\<lparr>cu_pos := cu_pos c + n\<rparr>) = take n (cu_rest c)" "cu_rest (c\<lparr>cu_pos := cu_pos c + n\<rparr>) = drop n (cu_rest c)"
proof -
  show "cu_take n c = (True, c\<lparr>cu_pos := cu_pos c + n\<rparr>)" "cu_wf (c\<lparr>cu_pos := cu_pos c + n\<rparr>)"
    "cu_rest (c\<lparr>cu_pos := cu_pos c + n\<rparr>) = drop n (cu_rest c)"
    using assms by (simp_all add: cu_take_def cu_remaining_def cu_rest_def cu_wf_def add.commute)
  show "cu_last n (c\<lparr>cu_pos := cu_pos c + n\<rparr>) = take n (cu_rest c)"
    using assms by (intro nth_equalityI) (simp_all add: cu_last_def cu_rest_def cu_wf_def)
qed

text \<open>Everything that takes \<open>n\<close> bytes and computes a value of them.\<close>

lemma implements_taking:
  assumes "\<And>c. op c = (case cu_take n c of (ok, c') \<Rightarrow> if \<not> ok then (None, c') else (Some (h (cu_last n c')), c'))"
  shows "implements op (rbind (take_n n) (\<lambda>b. rret (h b)))"
proof -
  have "cu_wf (snd (op c)) \<and> cu_span (snd (op c)) = cu_span c \<and>
     (case rbind (take_n n) (\<lambda>b. rret (h b)) (cu_rest c) of Inl _ \<Rightarrow> fst (op c) = None
      | Inr (v, s) \<Rightarrow> fst (op c) = Some v \<and> cu_rest (snd (op c)) = s \<and> cu_ok (snd (op c)) = cu_ok c)" if wf: "cu_wf c" for c
  proof (cases "n \<le> length (cu_rest c)")
    case True
    show ?thesis using cu_take_ok[OF wf True] True by (simp add: assms rbind_def take_n_def)
  next
    case False
    then show ?thesis using wf cu_take_fail[of c n] by (simp add: assms rbind_def take_n_def cu_wf_def)
  qed
  then show ?thesis by (simp add: implements_def)
qed

lemma implements_u8: "implements cu_u8 get_u8"
  unfolding get_u8_def by (rule implements_taking) (simp add: cu_u8_def cu_last_def split: prod.split)

lemma be_val_2: "be_val [a, b] = (push_bit 8 (ucast a) OR ucast b :: u16)"
  by (simp add: be_val_def)

lemma be_val_4: "be_val [a, b, c, d] = (push_bit 24 (ucast a) OR push_bit 16 (ucast b) OR push_bit 8 (ucast c) OR ucast d :: u32)"
  by (simp add: be_val_def push_bit_or or.assoc)

lemma implements_u16: "implements cu_u16 get_u16"
proof -
  have "implements (cu_bind cu_u8 (\<lambda>a. cu_bind cu_u8 (\<lambda>b. cu_ret (push_bit 8 (ucast a) OR ucast b)))) get_u16"
    unfolding get_u16_def be_val_2 by (intro implements_bind implements_u8 implements_ret)
  then show ?thesis by (rule implements_cong) (auto simp: cu_u16_def cu_bind_def cu_ret_def split: prod.split option.split)
qed

lemma list_4: "length xs = 4 \<Longrightarrow> xs = [xs ! 0, xs ! 1, xs ! 2, xs ! 3]"
  by (auto simp: numeral_eq_Suc length_Suc_conv)

lemma length_cu_last [simp]: "length (cu_last n c) = n"
  by (simp add: cu_last_def)

lemma implements_u32: "implements cu_u32 get_u32"
  unfolding get_u32_def
proof (rule implements_taking)
  fix c
  have "be_val (cu_last 4 c') = (push_bit 24 (ucast (cu_last 4 c' ! 0)) OR push_bit 16 (ucast (cu_last 4 c' ! 1)) OR
      push_bit 8 (ucast (cu_last 4 c' ! 2)) OR ucast (cu_last 4 c' ! 3) :: u32)" for c'
    using be_val_4 list_4[of "cu_last 4 c'"] by (metis length_cu_last)
  then show "cu_u32 c = (case cu_take 4 c of (ok, c') \<Rightarrow> if \<not> ok then (None, c') else (Some (be_val (cu_last 4 c')), c'))"
    by (simp only: cu_u32_def Let_def)
qed

lemma fold_index: "fold (\<lambda>k. f (xs ! k)) [0..<length xs] a = fold f xs a"
proof -
  have "fold (\<lambda>k. f (xs ! k)) [0..<length xs] a = fold f (map (\<lambda>k. xs ! k) [0..<length xs]) a" by (simp add: fold_map comp_def)
  then show ?thesis by (simp add: map_nth)
qed

lemma implements_u64: "implements cu_u64 get_u64"
  unfolding get_u64_def
proof (rule implements_taking)
  fix c
  have "fold (\<lambda>k v. push_bit 8 v OR ucast (cu_last 8 c' ! k)) [0..<8] 0 = (be_val (cu_last 8 c') :: u64)" for c'
    using fold_index[of "\<lambda>b v. push_bit 8 v OR ucast b" "cu_last 8 c'" 0] unfolding be_val_def length_cu_last .
  then show "cu_u64 c = (case cu_take 8 c of (ok, c') \<Rightarrow> if \<not> ok then (None, c') else (Some (be_val (cu_last 8 c')), c'))"
    by (simp only: cu_u64_def Let_def)
qed

lemma implements_f64: "implements cu_f64 get_u64"
  using implements_u64 by (rule implements_cong) (simp_all add: cu_f64_def)

lemma implements_id: "implements cu_id get_id"
  unfolding get_id_def by (rule implements_taking) (simp add: cu_id_def)

lemma implements_str: "implements cu_str get_str"
proof -
  define body :: "u32 \<Rightarrow> string cursor_op" where "body = (\<lambda>len c1. if unat len > cu_remaining c1 then (None, c1)
     else (Some (map char_of_byte (take (unat len) (drop (cu_pos c1) (cu_span c1)))), c1\<lparr>cu_pos := cu_pos c1 + unat len\<rparr>))"
  have "implements (body len) (\<lambda>s. if unat len > length s then Inl () else Inr (map char_of_byte (take (unat len) s), drop (unat len) s))" for len
    by (rule implementsI) (auto simp: body_def cu_remaining_def cu_rest_def cu_wf_def add.commute split: if_splits)
  then have "implements (cu_bind cu_u32 body) get_str" unfolding get_str_def by (intro implements_bind implements_u32)
  then show ?thesis by (rule implements_cong) (auto simp: cu_str_def cu_bind_def body_def split: prod.split option.split)
qed

lemmas implements_rules = implements_bind implements_ret implements_u8 implements_u32 implements_u64 implements_f64
  implements_id implements_str implements_guard implements_enum implements_label implements_if

section \<open>Message decoders on the classes\<close>

text \<open>A length-prefixed vector with its bound.\<close>

definition cu_vec :: "nat \<Rightarrow> 'a cursor_op \<Rightarrow> 'a list cursor_op" where
  "cu_vec m op = cu_bind cu_u32 (\<lambda>n. cu_guard (unat n \<le> m) (cu_times (unat n) op []))"

lemma implements_vec:
  assumes "implements op r"
  shows "implements (cu_vec m op) (get_vec m r)"
proof -
  have "implements (cu_times n op []) (rtimes n r)" for n
    by (rule implements_cong[OF implements_times[OF assms]]) (auto simp: rbind_def split: sum.split)
  then show ?thesis unfolding cu_vec_def get_vec_def by (intro implements_bind implements_u32 implements_guard)
qed

definition cu_decode_hello_ack :: "hello_ack cursor_op" where
  "cu_decode_hello_ack =
     cu_bind cu_u8 (\<lambda>acc. cu_bind cu_str (\<lambda>reason.
     cu_bind cu_u64 (\<lambda>epoch. cu_bind cu_u64 (\<lambda>wg. cu_bind cu_u64 (\<lambda>dg. cu_bind cu_u64 (\<lambda>pg.
     cu_ret \<lparr>ha_accepted = (acc \<noteq> 0), ha_reason = reason, ha_epoch = epoch, ha_warmth_gen = wg,
       ha_dep_gen = dg, ha_policy_gen = pg\<rparr>))))))"

definition cu_decode_cmd :: "warm_cmd cursor_op" where
  "cu_decode_cmd = cu_bind cu_id (\<lambda>object. cu_bind cu_u8 (\<lambda>act. cu_bind cu_u64 (\<lambda>attempt.
     cu_ret \<lparr>wc_object = object, wc_action = act, wc_attempt = attempt\<rparr>)))"

definition cu_decode_warm_topic :: "warm_topic cursor_op" where
  "cu_decode_warm_topic = cu_bind cu_u64 (\<lambda>epoch. cu_bind cu_u64 (\<lambda>wg. cu_bind (cu_vec 4096 cu_decode_cmd) (\<lambda>cmds.
     cu_ret \<lparr>wt_epoch = epoch, wt_warmth_gen = wg, wt_cmds = cmds\<rparr>)))"

definition cu_decode_warm_result :: "warm_result cursor_op" where
  "cu_decode_warm_result =
     cu_bind cu_id (\<lambda>boot. cu_bind cu_u64 (\<lambda>epoch. cu_bind cu_u64 (\<lambda>wg. cu_bind cu_u64 (\<lambda>dg.
     cu_bind cu_id (\<lambda>object. cu_bind cu_u8 (\<lambda>act. cu_bind cu_u64 (\<lambda>attempt.
     cu_bind cu_u8 (\<lambda>ok. cu_bind cu_f64 (\<lambda>duration. cu_bind cu_u64 (\<lambda>bs. cu_bind cu_str (\<lambda>err.
     cu_ret \<lparr>wr_boot = boot, wr_epoch = epoch, wr_warmth_gen = wg, wr_dep_gen = dg, wr_object = object, wr_action = act,
       wr_attempt = attempt, wr_success = (ok \<noteq> 0), wr_duration_ms = duration, wr_bytes = bs, wr_error = err\<rparr>)))))))))))"

text \<open>Objects.\<close>

definition cu_read_opt :: "id128 option cursor_op" where
  "cu_read_opt = cu_bind cu_u8 (\<lambda>present. if present = 0 then cu_ret None
     else cu_guard (present = 1) (cu_bind cu_id (\<lambda>v. cu_ret (Some v))))"

fun cu_dims :: "dimension_index list \<Rightarrow> warmth_object \<Rightarrow> warmth_object cursor_op" where
  "cu_dims [] o' = cu_ret o'"
| "cu_dims (i # is) o' = cu_bind (cu_bind cu_u8 (\<lambda>d. cu_enum (dim_of_code d) (\<lambda>st. cu_ret (set_dimension i st o')))) (cu_dims is)"

definition cu_read_dims :: "warmth_object \<Rightarrow> warmth_object cursor_op" where
  "cu_read_dims = cu_dims dimension_indices"

fun cu_read_deps :: "nat \<Rightarrow> u8 list \<Rightarrow> warmth_object \<Rightarrow> warmth_object cursor_op" where
  "cu_read_deps 0 seen o' = cu_ret o'"
| "cu_read_deps (Suc n) seen o' = cu_bind cu_u8 (\<lambda>dk.
     cu_enum (dep_of_code dk) (\<lambda>k.
     cu_guard (dk \<notin> set seen) (
     cu_bind cu_u64 (\<lambda>g.
     cu_read_deps n (dk # seen) (set_dependency_generation k g o')))))"

definition cu_decode_object :: "warmth_object cursor_op" where
  "cu_decode_object =
     cu_bind cu_id (\<lambda>id. cu_bind cu_u8 (\<lambda>cat. cu_bind cu_id (\<lambda>workload. cu_bind cu_id (\<lambda>node.
     cu_enum (category_of_code cat) (\<lambda>category.
     cu_bind cu_str (\<lambda>device. cu_bind cu_str (\<lambda>backend. cu_bind cu_str (\<lambda>owner.
     cu_bind (cu_read_opt) (\<lambda>model. cu_bind (cu_read_opt) (\<lambda>artifact.
     cu_bind (cu_read_opt) (\<lambda>replica. cu_bind (cu_read_opt) (\<lambda>engine.
     cu_bind cu_u8 (\<lambda>st. cu_enum (state_of_code st) (\<lambda>state.
     cu_bind cu_str (\<lambda>reason.
     let obj = restore_state state reason ((new_object id category workload node device backend)
           \<lparr>wo_logical_owner := owner, wo_model := model, wo_artifact := artifact,
            wo_replica := replica, wo_engine := engine\<rparr>) in
     cu_bind (cu_read_dims obj) (\<lambda>obj.
     cu_bind cu_u64 (\<lambda>lp. cu_bind cu_u64 (\<lambda>lu.
     cu_bind cu_u64 (\<lambda>ecb. cu_bind cu_u64 (\<lambda>mcb. cu_bind cu_f64 (\<lambda>ettr. cu_bind cu_f64 (\<lambda>ottr.
     cu_bind cu_u8 (\<lambda>res. cu_enum (residency_of_code res) (\<lambda>residency.
     cu_bind cu_u8 (\<lambda>lc. cu_enum (lifecycle_of_code lc) (\<lambda>lifecycle.
     cu_bind cu_f64 (\<lambda>conf. cu_bind cu_f64 (\<lambda>fresh.
     cu_bind cu_u64 (\<lambda>wg.
     cu_bind cu_u32 (\<lambda>nd. cu_guard (unat nd \<le> 64) (
     let obj = (set_freshness fresh (set_confidence conf (obj
           \<lparr>wo_last_prepared := lp, wo_last_used := lu,
            wo_estimated_cost_bytes := ecb, wo_measured_cost_bytes := mcb,
            wo_estimated_ttr_ms := ettr, wo_observed_ttr_ms := ottr,
            wo_residency := residency, wo_lifecycle := lifecycle\<rparr>)))\<lparr>wo_warmth_gen := wg\<rparr> in
     cu_bind (cu_read_deps (unat nd) [] obj) (\<lambda>obj.
     cu_bind cu_u8 (\<lambda>hasInv.
     cu_bind (if hasInv = 1 then cu_bind cu_str (\<lambda>inv. cu_ret (obj\<lparr>wo_invalidation_reason := Some inv\<rparr>))
            else cu_guard (hasInv = 0) (cu_ret obj)) (\<lambda>obj.
     cu_bind cu_u8 (\<lambda>prov. cu_enum (provenance_of_code prov) (\<lambda>provenance.
     cu_ret (obj\<lparr>wo_provenance := provenance\<rparr>)
     ))))))))))))))))))))))))))))))))))))"

definition cu_decode_hello :: "hello cursor_op" where
  "cu_decode_hello =
     cu_bind cu_u32 (\<lambda>version. cu_bind cu_id (\<lambda>worker. cu_bind cu_id (\<lambda>boot. cu_bind cu_id (\<lambda>node.
     cu_bind cu_u64 (\<lambda>epoch. cu_bind cu_str (\<lambda>backend.
     cu_bind (cu_vec 4096 cu_str) (\<lambda>devices.
     cu_bind (cu_vec 64 cu_u8) (\<lambda>actions.
     cu_bind (cu_vec 4096 cu_decode_object) (\<lambda>observed.
     cu_ret \<lparr>h_protocol_version = version, h_worker = worker, h_boot = boot, h_node = node,
       h_epoch_guess = epoch, h_backend = backend, h_devices = devices, h_actions = actions,
       h_observed = observed\<rparr>)))))))))"

definition cu_decode_report :: "report_payload cursor_op" where
  "cu_decode_report =
     cu_bind cu_id (\<lambda>boot. cu_bind cu_u64 (\<lambda>epoch. cu_bind cu_u64 (\<lambda>wg. cu_bind cu_u64 (\<lambda>dg.
     cu_bind (cu_vec 8192 cu_decode_object) (\<lambda>objs.
     cu_ret \<lparr>rp_boot = boot, rp_epoch = epoch, rp_warmth_gen = wg, rp_dep_gen = dg, rp_objects = objs\<rparr>)))))"

lemma implements_read_opt: "implements cu_read_opt (read_opt () () ())"
  unfolding cu_read_opt_def read_opt_def by (intro implements_rules)

lemma implements_read_dims: "implements (cu_read_dims o') (read_dims () () o')"
proof -
  have "implements (cu_dims is o') (rfold (\<lambda>i a. rbind (label () get_u8) (\<lambda>d.
     renum () (dim_of_code d) (\<lambda>st. rret (set_dimension i st a)))) is o')" for "is"
  proof (induction "is" arbitrary: o')
    case (Cons i "is")
    then show ?case unfolding cu_dims.simps rfold.simps by (intro implements_rules)
  qed (simp only: cu_dims.simps rfold.simps implements_ret)
  then show ?thesis by (simp add: cu_read_dims_def read_dims_def)
qed

lemma implements_read_deps: "implements (cu_read_deps n seen o') (read_deps () () () () n seen o')"
proof (induction n arbitrary: seen o')
  case (Suc n)
  then show ?case unfolding cu_read_deps.simps read_deps.simps by (intro implements_rules)
qed (simp only: cu_read_deps.simps read_deps.simps implements_ret)

lemma implements_object: "implements cu_decode_object decode_object"
  unfolding cu_decode_object_def decode_object_def Let_def
  by (intro implements_rules implements_read_opt implements_read_dims implements_read_deps)

lemma implements_hello: "implements cu_decode_hello decode_hello"
  unfolding cu_decode_hello_def decode_hello_def by (intro implements_rules implements_vec implements_object)

lemma implements_report: "implements cu_decode_report decode_report"
  unfolding cu_decode_report_def decode_report_def by (intro implements_rules implements_vec implements_object)

lemma implements_hello_ack: "implements cu_decode_hello_ack decode_hello_ack"
  unfolding cu_decode_hello_ack_def decode_hello_ack_def by (intro implements_rules)

lemma implements_cmd: "implements cu_decode_cmd decode_cmd"
  unfolding cu_decode_cmd_def decode_cmd_def by (intro implements_rules)

lemma implements_warm_topic: "implements cu_decode_warm_topic decode_warm_topic"
  unfolding cu_decode_warm_topic_def decode_warm_topic_def by (intro implements_rules implements_vec implements_cmd)

lemma implements_warm_result: "implements cu_decode_warm_result decode_warm_result"
  unfolding cu_decode_warm_result_def decode_warm_result_def by (intro implements_rules)

section \<open>Message encoders on the classes\<close>

text \<open>Objects.\<close>

definition we_opt :: "id128 option \<Rightarrow> wire_encoder \<Rightarrow> wire_encoder" where
  "we_opt i out = (case i of Some v \<Rightarrow> if is_valid v then we_id v (we_u8 1 out) else we_u8 0 out | None \<Rightarrow> we_u8 0 out)"

definition we_invalidation :: "string option \<Rightarrow> wire_encoder \<Rightarrow> wire_encoder" where
  "we_invalidation r out = (case r of Some t \<Rightarrow> if t \<noteq> [] then we_str t (we_u8 1 out) else we_u8 0 out | None \<Rightarrow> we_u8 0 out)"

definition we_object :: "warmth_object \<Rightarrow> wire_encoder \<Rightarrow> wire_encoder" where
  "we_object o' out0 =
     (let out1 = we_str (wo_logical_owner o') (we_str (wo_backend o') (we_str (wo_device o')
            (we_id (wo_node o') (we_id (wo_workload o') (we_u8 (category_code (wo_category o')) (we_id (wo_id o') out0))))));
          out2 = we_opt (wo_engine o') (we_opt (wo_replica o') (we_opt (wo_artifact o') (we_opt (wo_model o') out1)));
          out3 = we_str (wo_state_change_reason o') (we_u8 (state_code (wo_state o')) out2);
          out4 = fold (\<lambda>i. we_u8 (dim_code (dimension i o'))) dimension_indices out3;
          out5 = we_u64 (wo_measured_cost_bytes o') (we_u64 (wo_estimated_cost_bytes o') (we_u64 (wo_last_used o') (we_u64 (wo_last_prepared o') out4)));
          out6 = we_f64 (wo_observed_ttr_ms o') (we_f64 (wo_estimated_ttr_ms o') out5);
          out7 = we_u8 (lifecycle_code (wo_lifecycle o')) (we_u8 (residency_code (wo_residency o')) out6);
          out8 = we_u64 (wo_warmth_gen o') (we_f64 (wo_freshness o') (we_f64 (wo_confidence o') out7));
          out9 = fold (\<lambda>(k, g) out. we_u64 g (we_u8 (dep_code k) out)) (wo_dep_gens o') (we_u32 (of_nat (length (wo_dep_gens o'))) out8)
      in we_u8 (provenance_code (wo_provenance o')) (we_invalidation (wo_invalidation_reason o') out9))"

definition we_vec :: "('a \<Rightarrow> wire_encoder \<Rightarrow> wire_encoder) \<Rightarrow> 'a list \<Rightarrow> wire_encoder \<Rightarrow> wire_encoder" where
  "we_vec enc xs out = fold enc xs (we_u32 (of_nat (length xs)) out)"

definition we_hello :: "hello \<Rightarrow> wire_encoder \<Rightarrow> wire_encoder" where
  "we_hello h out = we_vec we_object (h_observed h) (we_vec we_u8 (h_actions h) (we_vec we_str (h_devices h)
     (we_str (h_backend h) (we_u64 (h_epoch_guess h) (we_id (h_node h) (we_id (h_boot h) (we_id (h_worker h)
     (we_u32 (h_protocol_version h) out))))))))"

definition we_report :: "report_payload \<Rightarrow> wire_encoder \<Rightarrow> wire_encoder" where
  "we_report p out = we_vec we_object (rp_objects p) (we_u64 (rp_dep_gen p) (we_u64 (rp_warmth_gen p)
     (we_u64 (rp_epoch p) (we_id (rp_boot p) out))))"

lemma fold_appends: "(\<And>x out. f x out = out @ g x) \<Longrightarrow> fold f xs out = out @ concat (map g xs)"
  by (induction xs arbitrary: out) simp_all

lemma we_vec_appends: "(\<And>x out. enc x out = out @ put x) \<Longrightarrow> we_vec enc xs out = out @ put_vec put xs"
  using fold_appends[of enc put] by (simp add: we_vec_def put_vec_def encoder_appends)

lemma object_appends: "we_object o' out = out @ encode_object o'"
proof -
  have opt: "we_opt i out = out @ put_opt i" for i out
    by (simp add: we_opt_def put_opt_def encoder_appends split: option.split)
  have inv: "we_invalidation r out = out @ put_invalidation r" for r out
    by (simp add: we_invalidation_def put_invalidation_def encoder_appends split: option.split)
  have dims: "fold (\<lambda>i. we_u8 (dim_code (dimension i o'))) is out = out @ concat (map (\<lambda>i. put_u8 (dim_code (dimension i o'))) is)" for "is" out
    by (rule fold_appends) (simp add: encoder_appends)
  have deps: "fold (\<lambda>(k, g) out. we_u64 g (we_u8 (dep_code k) out)) m out = out @ concat (map (\<lambda>(k, g). put_u8 (dep_code k) @ put_u64 g) m)" for m out
    by (rule fold_appends) (auto simp: encoder_appends)
  show ?thesis unfolding we_object_def encode_object_def Let_def put_dims_def put_deps_def dims deps
    by (simp only: opt inv encoder_appends append_assoc)
qed

lemma hello_report_append: "we_hello h out = out @ encode_hello h" "we_report p out = out @ encode_report p"
  by (simp_all add: we_hello_def encode_hello_def we_report_def encode_report_def encoder_appends we_vec_appends[OF object_appends]
      we_vec_appends[OF encoder_appends(1)] we_vec_appends[OF encoder_appends(7)])

definition we_hello_ack :: "hello_ack \<Rightarrow> wire_encoder \<Rightarrow> wire_encoder" where
  "we_hello_ack a out = we_u64 (ha_policy_gen a) (we_u64 (ha_dep_gen a) (we_u64 (ha_warmth_gen a) (we_u64 (ha_epoch a)
     (we_str (ha_reason a) (we_u8 (if ha_accepted a then 1 else 0) out)))))"

definition we_warm_topic :: "warm_topic \<Rightarrow> wire_encoder \<Rightarrow> wire_encoder" where
  "we_warm_topic t out = fold (\<lambda>c o'. we_u64 (wc_attempt c) (we_u8 (wc_action c) (we_id (wc_object c) o'))) (wt_cmds t)
     (we_u32 (of_nat (length (wt_cmds t))) (we_u64 (wt_warmth_gen t) (we_u64 (wt_epoch t) out)))"

definition we_warm_result :: "warm_result \<Rightarrow> wire_encoder \<Rightarrow> wire_encoder" where
  "we_warm_result r out = we_str (wr_error r) (we_u64 (wr_bytes r) (we_f64 (wr_duration_ms r) (we_u8 (if wr_success r then 1 else 0)
     (we_u64 (wr_attempt r) (we_u8 (wr_action r) (we_id (wr_object r) (we_u64 (wr_dep_gen r) (we_u64 (wr_warmth_gen r)
     (we_u64 (wr_epoch r) (we_id (wr_boot r) out))))))))))"

lemma fold_append: "fold (\<lambda>x o'. o' @ f x) xs out = out @ concat (map f xs)"
  by (induction xs arbitrary: out) simp_all

lemma encoders_append:
  "we_hello_ack a out = out @ encode_hello_ack a" "we_warm_topic t out = out @ encode_warm_topic t"
  "we_warm_result r out = out @ encode_warm_result r"
  by (simp_all add: we_hello_ack_def encode_hello_ack_def we_warm_topic_def encode_warm_topic_def we_warm_result_def
      encode_warm_result_def encoder_appends put_flag_def put_vec_def encode_cmd_def[abs_def] fold_append)

section \<open>What a caller of the decoder sees\<close>

text \<open>A decoder run on a whole payload and the reader agree on the value; the position stays inside the
  span, and after a success it stands where the reader's rest begins and the flag is still set.\<close>

definition agrees_on :: "bytes \<Rightarrow> 'a cursor_op \<Rightarrow> (unit, 'a) reader \<Rightarrow> bool" where
  "agrees_on bs op r \<longleftrightarrow> cu_pos (snd (op (new_cursor bs))) \<le> length bs \<and>
     (case r bs of Inl _ \<Rightarrow> fst (op (new_cursor bs)) = None
      | Inr (v, s) \<Rightarrow> fst (op (new_cursor bs)) = Some v \<and> drop (cu_pos (snd (op (new_cursor bs)))) bs = s \<and> cu_ok (snd (op (new_cursor bs))))"

lemma implements_agrees:
  assumes "implements op r"
  shows "agrees_on bs op r"
proof -
  have c: "cu_wf (new_cursor bs)" "cu_rest (new_cursor bs) = bs" "cu_span (new_cursor bs) = bs" "cu_ok (new_cursor bs)"
    by (simp_all add: new_cursor_def cu_wf_def cu_rest_def)
  have "cu_wf (snd (op (new_cursor bs)))" "cu_span (snd (op (new_cursor bs))) = bs"
    using implementsD(1,2)[OF assms c(1)] c(3) by simp_all
  moreover have "case r bs of Inl _ \<Rightarrow> fst (op (new_cursor bs)) = None
      | Inr (v, s) \<Rightarrow> fst (op (new_cursor bs)) = Some v \<and> cu_rest (snd (op (new_cursor bs))) = s \<and> cu_ok (snd (op (new_cursor bs)))"
    using assms[unfolded implements_def, rule_format, OF c(1)] c by (simp add: c split: sum.splits prod.splits)
  ultimately show ?thesis by (auto simp: agrees_on_def cu_wf_def cu_rest_def split: sum.splits)
qed

lemmas message_decoders_agree = implements_hello[THEN implements_agrees] implements_hello_ack[THEN implements_agrees]
  implements_report[THEN implements_agrees] implements_warm_topic[THEN implements_agrees] implements_warm_result[THEN implements_agrees]

text \<open>A string whose length runs past the end is refused, but the flag the class keeps for its callers is
  not cleared: \<open>ok()\<close> still answers true.\<close>

lemma overrun_string_keeps_ok:
  assumes "cu_wf c" "get_u32 (cu_rest c) = Inr (len, s)" "length s < unat len"
  shows "fst (cu_str c) = None \<and> cu_ok (snd (cu_str c)) = cu_ok c"
proof -
  note d = implementsD(4)[OF implements_u32 assms(1,2)]
  have "cu_remaining (snd (cu_u32 c)) = length s" using d by (auto simp: cu_remaining_def cu_rest_def)
  then have g: "unat len > cu_remaining (snd (cu_u32 c))" using assms(3) by simp
  have "cu_str c = (None, snd (cu_u32 c))" using d g by (cases "cu_u32 c") (auto simp: cu_str_def)
  then show ?thesis using d by simp
qed

lemma lost_ok: "fst (cu_str (new_cursor [0, 0, 0, 1])) = None \<and> cu_ok (snd (cu_str (new_cursor [0, 0, 0, 1])))"
proof -
  have "get_u32 (cu_rest (new_cursor [0, 0, 0, 1])) = Inr (1, [])"
    by (simp add: new_cursor_def cu_rest_def get_u32_def rbind_def take_n_def be_val_4)
  from overrun_string_keeps_ok[OF _ this] show ?thesis by (simp add: new_cursor_def cu_wf_def)
qed

end
