(* ===== verification/Sha256_Eval.thy ===== *)
theory Sha256_Eval
  imports Sha256
begin

unbundle bit_operations_syntax

text \<open>
  Computing digests in the kernel. The compression of \<open>Sha256\<close> is restated on integers, where the
  simplifier evaluates shifts and logical operations quickly, with one reduction per sum; the
  restatement is proved equal to it, and short messages are digested by simplification alone. The test
  vector of the standard shows that the definitions taken from \<open>hash.hpp\<close> are those of SHA-256.
\<close>

section \<open>Words as integers\<close>

definition red32 :: "int \<Rightarrow> int" where
  "red32 x = x AND 0xFFFFFFFF"

definition rotr32 :: "int \<Rightarrow> nat \<Rightarrow> int" where
  "rotr32 x n = drop_bit n x + (x AND (2 ^ n - 1)) * 2 ^ (32 - n)"

lemma red32_take_bit: "red32 x = take_bit 32 x"
proof -
  have "(0xFFFFFFFF :: int) = mask 32" by (simp add: mask_eq_exp_minus_1)
  then show ?thesis unfolding red32_def take_bit_eq_mask by simp
qed

lemma red32_word: "red32 x = uint (word_of_int x :: u32)"
  by (simp add: red32_take_bit unsigned_of_int)

lemma take_bit_uint32 [simp]: "take_bit 32 (uint (w :: u32)) = uint w"
  using uint_lt2p[of w] by (intro take_bit_int_eq_self) simp_all

lemma rotr32_uint: "n \<le> 32 \<Longrightarrow> rotr32 (uint w) n = uint (rotr w n)"
proof -
  assume n: "n \<le> 32"
  have "uint (rotr w n) = drop_bit n (uint w) OR push_bit (32 - n) (take_bit n (uint w))"
    using n by (simp add: rotr_def unsigned_or_eq unsigned_drop_bit_eq unsigned_push_bit_eq take_bit_push_bit)
  also have "\<dots> = drop_bit n (uint w) + push_bit (32 - n) (take_bit n (uint w))"
  proof (rule disjunctive_add[symmetric])
    fix k
    have "take_bit (32 - n) (drop_bit n (uint w)) = drop_bit n (uint w)"
      using n by (simp add: take_bit_drop_bit)
    then have "bit (drop_bit n (uint w)) k \<Longrightarrow> k < 32 - n" by (metis bit_take_bit_iff)
    then show "\<not> bit (drop_bit n (uint w)) k \<or> \<not> bit (push_bit (32 - n) (take_bit n (uint w))) k"
      by (auto simp: bit_push_bit_iff)
  qed
  also have "push_bit (32 - n) (take_bit n (uint w)) = (uint w AND (2 ^ n - 1)) * 2 ^ (32 - n)"
    by (simp add: push_bit_eq_mult take_bit_eq_mask mask_eq_exp_minus_1)
  finally show ?thesis by (simp add: rotr32_def)
qed

lemma not_and_uint: "NOT (uint e) AND uint g = uint (NOT e AND (g :: u32))"
proof -
  have "uint (NOT e AND g) = take_bit 32 (NOT (uint e)) AND take_bit 32 (uint g)"
    by (simp add: unsigned_and_eq unsigned_not_eq)
  also have "\<dots> = take_bit 32 (NOT (uint e) AND uint g)" by (simp only: take_bit_and)
  also have "\<dots> = NOT (uint e) AND uint g"
    by (metis take_bit_and take_bit_uint32 take_bit_eq_mask and.assoc and.commute)
  finally show ?thesis by simp
qed

lemma drop_uint: "drop_bit n (uint (w :: u32)) = uint (drop_bit n w)"
  by (simp add: unsigned_drop_bit_eq)

lemmas uint_ops = unsigned_xor_eq[symmetric] unsigned_and_eq[symmetric] not_and_uint rotr32_uint drop_uint

section \<open>The compression on integers\<close>

definition round_mix :: "int \<Rightarrow> int \<Rightarrow> int list \<Rightarrow> int list" where
  "round_mix t1 t2 st = [red32 (t1 + t2), st ! 0, st ! 1, st ! 2, red32 (st ! 3 + t1), st ! 4, st ! 5, st ! 6]"

fun round32 :: "int \<times> int \<Rightarrow> int list \<Rightarrow> int list" where
  "round32 (k, w) [a, b, c, d, e, f, g, h] =
     round_mix (h + (rotr32 e 6 XOR rotr32 e 11 XOR rotr32 e 25) + ((e AND f) XOR (NOT e AND g)) + k + w)
       ((rotr32 a 2 XOR rotr32 a 13 XOR rotr32 a 22) + ((a AND b) XOR (a AND c) XOR (b AND c))) [a, b, c, d, e, f, g, h]"
| "round32 kw st = st"

lemma list_8: "length xs = 8 \<Longrightarrow> \<exists>a b c d e f g h. xs = [a, b, c, d, e, f, g, h]"
  by (auto simp: numeral_eq_Suc length_Suc_conv)

lemma round32_uint:
  assumes "length st = 8"
  shows "round32 (uint k, uint w) (map uint st) = map uint (sha_round (k, w) st)"
proof -
  obtain a b c d e f g h where "st = [a, b, c, d, e, f, g, h]" using list_8[OF assms] by blast
  then show ?thesis by (simp add: round_mix_def red32_word uint_ops Let_def)
qed

lemma length_sha_round: "length st = 8 \<Longrightarrow> length (sha_round kw st) = 8"
  using list_8[of st] by (cases kw) (auto simp: Let_def)

lemma rounds32_uint:
  "length st = 8 \<Longrightarrow> fold round32 (map (\<lambda>(k, w). (uint k, uint w)) kws) (map uint st) = map uint (fold sha_round kws st)"
proof (induction kws arbitrary: st)
  case (Cons kw kws)
  then show ?case using Cons.IH[OF length_sha_round[OF Cons.prems]] by (cases kw) (simp add: round32_uint)
qed simp

text \<open>The schedule with a window of sixteen words.\<close>

definition next32 :: "int list \<Rightarrow> int" where
  "next32 w = red32 (w ! 0 + (rotr32 (w ! 1) 7 XOR rotr32 (w ! 1) 18 XOR drop_bit 3 (w ! 1)) + w ! 9
     + (rotr32 (w ! 14) 17 XOR rotr32 (w ! 14) 19 XOR drop_bit 10 (w ! 14)))"

fun window32 :: "nat \<Rightarrow> int list \<Rightarrow> int list" where
  "window32 0 w = w"
| "window32 (Suc n) w = hd w # window32 n (tl w @ [next32 w])"

lemma next32_uint: "length w = 16 \<Longrightarrow> next32 (map uint w) = uint (sha_next_word (p @ w))"
  by (simp add: next32_def sha_next_word_def red32_word uint_ops nth_append Let_def add.assoc add.left_commute add.commute)

lemma window32_uint:
  "length w = 16 \<Longrightarrow> map uint (((\<lambda>w. w @ [sha_next_word w]) ^^ n) (p @ w)) = map uint p @ window32 n (map uint w)"
proof (induction n arbitrary: p w)
  case (Suc n)
  have "((\<lambda>w. w @ [sha_next_word w]) ^^ Suc n) (p @ w)
      = ((\<lambda>w. w @ [sha_next_word w]) ^^ n) ((p @ [hd w]) @ (tl w @ [sha_next_word (p @ w)]))"
    using Suc.prems by (cases w) (simp_all add: funpow_Suc_right del: funpow.simps)
  then show ?case using Suc.IH[of "tl w @ [sha_next_word (p @ w)]" "p @ [hd w]"] Suc.prems next32_uint[OF Suc.prems, of p]
    by (cases w) simp_all
qed simp

lemma schedule32: "map uint (sha_schedule p) = window32 48 (map uint (sha_load p))"
  using window32_uint[of "sha_load p" 48 "[]"] by (simp add: sha_schedule_def sha_load_def)

text \<open>A message of at most 55 bytes fills one block.\<close>

definition compress32 :: "int list \<Rightarrow> int list" where
  "compress32 block = fold round32 (zip (map uint sha_K) (window32 48 block)) (map uint sha_init)"

definition words_of :: "int list \<Rightarrow> u32 list" where
  "words_of ws = map2 (\<lambda>a b. a + word_of_int b) sha_init ws"

lemma transform32: "sha_transform sha_init p = words_of (compress32 (map uint (sha_load p)))"
proof -
  have "compress32 (map uint (sha_load p)) = map uint (fold sha_round (zip sha_K (sha_schedule p)) sha_init)"
    using rounds32_uint[of sha_init "zip sha_K (sha_schedule p)"]
    by (simp add: compress32_def schedule32[symmetric] zip_map_map sha_init_def)
  moreover have "map2 (\<lambda>a b. a + word_of_int b) st (map uint ws) = map2 (+) st ws" for st ws :: "u32 list"
    by (auto simp: zip_map2)
  ultimately show ?thesis by (simp add: sha_transform_def words_of_def)
qed

lemma digest_one_block:
  assumes "length data \<le> 55"
  shows "sha_digest data = concat (map (\<lambda>w. [ucast (drop_bit 24 w), ucast (drop_bit 16 w), ucast (drop_bit 8 w), ucast w])
    (words_of (compress32 (map uint (sha_load (data @ sha_pad (length data)))))))"
proof -
  have "119 - length data = 55 - length data + 64" using assms by simp
  then have "(119 - length data) mod 64 = 55 - length data" using assms by (simp only: mod_add_self2) simp
  then have len: "length (data @ sha_pad (length data)) = 64" using assms by (simp add: sha_pad_def)
  then have "absorb sha_init (data @ sha_pad (length data)) = (sha_transform sha_init (data @ sha_pad (length data)), [])"
    by (simp add: absorb.simps[of sha_init "data @ sha_pad (length data)"] absorb_short)
  then show ?thesis by (simp add: sha_digest_eq_ref sha_digest_ref_def transform32)
qed

section \<open>Evaluation\<close>

definition bytes_of_words :: "u32 list \<Rightarrow> bytes" where
  "bytes_of_words ws = concat (map (\<lambda>w. [ucast (drop_bit 24 w), ucast (drop_bit 16 w), ucast (drop_bit 8 w), ucast w]) ws)"

lemma digest_steps:
  assumes "length data = n" "n \<le> 55" "map uint (sha_load (data @ sha_pad n)) = block" "compress32 block = ws"
  shows "sha_digest data = bytes_of_words (words_of ws)"
  using assms digest_one_block[of data] by (simp add: bytes_of_words_def)

lemma eval32:
  "round_mix t1 t2 [a, b, c, d, e, f, g, h] = [red32 (t1 + t2), a, b, c, red32 (d + t1), e, f, g]"
  "next32 [w0, w1, w2, w3, w4, w5, w6, w7, w8, w9, w10, w11, w12, w13, w14, w15] =
     red32 (w0 + (rotr32 w1 7 XOR rotr32 w1 18 XOR drop_bit 3 w1) + w9 + (rotr32 w14 17 XOR rotr32 w14 19 XOR drop_bit 10 w14))"
  "window32 (numeral k) w = hd w # window32 (pred_numeral k) (tl w @ [next32 w])"
  "window32 (Suc 0) w = hd w # (tl w @ [next32 w])"
  by (simp_all add: round_mix_def next32_def numeral_eq_Suc)

lemma replicate_num: "replicate (numeral k) x = x # replicate (pred_numeral k) x"
  by (simp add: numeral_eq_Suc)

lemmas block_eval = sha_load_def be_u32_def sha_pad_def byte_of_char_def upt_rec replicate_num

text \<open>The test vector \<open>abc\<close>.\<close>

lemma abc_block: "map uint (sha_load (map byte_of_char ''abc'' @ sha_pad 3)) = [1633837952, 0, 0, 0, 0, 0, 0, 0, 0, 0, 0, 0, 0, 0, 0, 24]"
  by (simp add: block_eval)

lemmas compress_eval = compress32_def sha_K_def sha_init_def eval32 red32_def rotr32_def

lemma abc_compress:
  "compress32 [1633837952, 0, 0, 0, 0, 0, 0, 0, 0, 0, 0, 0, 0, 0, 0, 24] =
     [1349398616, 3550093669, 80891244, 3093179625, 1593118500, 4212265488, 2492278198, 2518632596]"
  by (simp add: compress_eval del: window32.simps(2))

lemma sha256_abc:
  "sha_digest (map byte_of_char ''abc'') = [186, 120, 22, 191, 143, 1, 207, 234, 65, 65, 64, 222, 93, 174, 34, 35,
     176, 3, 97, 163, 150, 23, 122, 156, 180, 16, 255, 97, 242, 0, 21, 173]"
  by (subst digest_steps[OF _ _ abc_block abc_compress]) (simp_all add: words_of_def sha_init_def bytes_of_words_def)

end
