(* ===== verification/Multiprocess.thy ===== *)
theory Multiprocess
  imports Cli Sha256_Eval
begin

text \<open>
  \<open>run_multiprocess\<close> of \<open>tools/warmth_cli.cpp\<close>, the proof of a restart over several processes that the
  program runs on Windows: a coordinator and two worker processes, an object warmed on the first, the
  epoch rolled and that worker killed, a restarted worker under a new boot, and the old authority
  tried once more. The main thread is a program over a world that holds whatever else there is
  (processes, sockets, the other threads of the coordinator); \<open>Restart\<close> gives such a world, made of the
  models of the worker and of the coordinator's threads.
\<close>

section \<open>The main thread\<close>

text \<open>A return with the accept thread still joinable destroys a joinable \<open>std::thread\<close>, which ends the
  process by \<open>std::terminate\<close>.\<close>

datatype process_outcome = Returns int string string | Terminates string string | Blocks string

definition leave :: "bool \<Rightarrow> int \<Rightarrow> string \<Rightarrow> string \<Rightarrow> process_outcome" where
  "leave joinable rc out err = (if joinable then Terminates out err else Returns rc out err)"

text \<open>The world: process creation, the frame \<open>issue_warm\<close> sends, the sockets of the main thread, and what
  other threads and processes do before an access of the main thread. \<open>pw_read\<close> gives no value when
  the read never returns, and otherwise the frame or a failure; \<open>pw_stop\<close> is \<open>stop\<close> with the join of
  the accept thread, without a value when they never return.\<close>

record 's process_world =
  pw_spawn :: "string list \<Rightarrow> 's \<Rightarrow> nat option \<times> 's"
  pw_kill :: "nat \<Rightarrow> 's \<Rightarrow> 's"
  pw_others :: "'s \<times> coordinator \<Rightarrow> 's \<times> coordinator"
  pw_send :: "nat \<times> message_type \<times> bytes \<Rightarrow> 's \<Rightarrow> bool \<times> 's"
  pw_connect :: "'s \<Rightarrow> nat option \<times> 's"
  pw_write :: "nat \<Rightarrow> frame \<Rightarrow> 's \<Rightarrow> bool \<times> 's"
  pw_read :: "nat \<Rightarrow> 's \<Rightarrow> frame option option \<times> 's"
  pw_close :: "nat \<Rightarrow> 's \<Rightarrow> 's"
  pw_stop :: "'s \<times> coordinator \<Rightarrow> ('s \<times> coordinator) option"

text \<open>A statement ends the process or gives a value in a new state.\<close>

type_synonym ('r, 'st, 'a) program = "'st \<Rightarrow> 'r + 'a \<times> 'st"

definition prog_return :: "'a \<Rightarrow> ('r, 'st, 'a) program" where
  "prog_return x st = Inr (x, st)"

definition prog_bind :: "('r, 'st, 'a) program \<Rightarrow> ('a \<Rightarrow> ('r, 'st, 'b) program) \<Rightarrow> ('r, 'st, 'b) program" where
  "prog_bind m f st = (case m st of Inl r \<Rightarrow> Inl r | Inr (x, st') \<Rightarrow> f x st')"

text \<open>The main thread: the output so far, the world and the coordinator.\<close>

type_synonym ('s, 'a) main_thread = "(process_outcome, string \<times> 's \<times> coordinator, 'a) program"

definition mt_print :: "string \<Rightarrow> ('s, unit) main_thread" where
  "mt_print s = (\<lambda>(out, sc). Inr ((), out @ s @ nl, sc))"

text \<open>\<open>fprintf(stderr, ...); return 1;\<close> while the accept thread runs. The children it terminates first are part of
  the world, which nothing looks at afterwards.\<close>

definition mt_require :: "bool \<Rightarrow> string \<Rightarrow> ('s, unit) main_thread" where
  "mt_require b msg = (\<lambda>(out, sc). if b then Inr ((), out, sc) else Inl (leave True 1 out (msg @ nl)))"

text \<open>An operation on the world and one on the coordinator, after whatever others did before it.\<close>

definition mt_world :: "'s process_world \<Rightarrow> ('s \<Rightarrow> 'a \<times> 's) \<Rightarrow> ('s, 'a) main_thread" where
  "mt_world w g = (\<lambda>(out, sc). case pw_others w sc of (s, c) \<Rightarrow> case g s of (x, s') \<Rightarrow> Inr (x, out, s', c))"

definition mt_co :: "'s process_world \<Rightarrow> (coordinator \<Rightarrow> 'a \<times> coordinator) \<Rightarrow> ('s, 'a) main_thread" where
  "mt_co w g = (\<lambda>(out, sc). case pw_others w sc of (s, c) \<Rightarrow> case g c of (x, c') \<Rightarrow> Inr (x, out, s, c'))"

definition mt_look :: "'s process_world \<Rightarrow> (coordinator \<Rightarrow> 'a) \<Rightarrow> ('s, 'a) main_thread" where
  "mt_look w g = mt_co w (\<lambda>c. (g c, c))"

text \<open>\<open>for (int i = 0; i < n && go; ++i) sleep\<close>.\<close>

fun poll :: "('s \<times> coordinator \<Rightarrow> 's \<times> coordinator) \<Rightarrow> ('s \<times> coordinator \<Rightarrow> bool) \<Rightarrow> nat \<Rightarrow> 's \<times> coordinator \<Rightarrow> 's \<times> coordinator" where
  "poll others go 0 sc = sc"
| "poll others go (Suc n) sc = (let sc' = others sc in if go sc' then poll others go n sc' else sc')"

definition mt_poll :: "'s process_world \<Rightarrow> nat \<Rightarrow> (coordinator \<Rightarrow> bool) \<Rightarrow> ('s, unit) main_thread" where
  "mt_poll w n go = (\<lambda>(out, sc). Inr ((), out, poll (pw_others w) (\<lambda>sc. go (snd sc)) n sc))"

definition mt_wait :: "'s process_world \<Rightarrow> ('s, unit) main_thread" where
  "mt_wait w = (\<lambda>(out, sc). let sc' = pw_others w sc in if settled (snd sc') then Inr ((), out, sc') else Inl (Blocks out))"

definition mt_read :: "'s process_world \<Rightarrow> nat \<Rightarrow> ('s, frame option) main_thread" where
  "mt_read w cid = (\<lambda>(out, sc). case pw_others w sc of (s, c) \<Rightarrow> case pw_read w cid s of
     (None, s') \<Rightarrow> Inl (Blocks out) | (Some r, s') \<Rightarrow> Inr (r, out, s', c))"

text \<open>\<open>issue_warm\<close>: the two locked sections around \<open>send_frame\<close>.\<close>

definition mt_issue :: "'s process_world \<Rightarrow> id128 \<Rightarrow> warmth_action \<Rightarrow> id128 \<Rightarrow> ('s, bool) main_thread" where
  "mt_issue w object action worker =
     prog_bind (mt_co w (issue_begin object action (Some worker))) (\<lambda>r. case r of None \<Rightarrow> prog_return False
       | Some (a, fr) \<Rightarrow> prog_bind (mt_world w (pw_send w fr)) (\<lambda>sent. if sent then prog_return True
           else mt_co w (\<lambda>c. (False, issue_rollback a c))))"

section \<open>The program\<close>

definition mp_worker_A :: id128 where "mp_worker_A = derive ''worker-A''"
definition mp_worker_B :: id128 where "mp_worker_B = derive ''worker-B''"
definition mp_boot_A1 :: id128 where "mp_boot_A1 = derive ''boot-A-1''"
definition mp_boot_A2 :: id128 where "mp_boot_A2 = derive ''boot-A-2''"
definition mp_boot_B :: id128 where "mp_boot_B = derive ''boot-B''"
definition mp_object :: id128 where "mp_object = derive ''object-X''"

definition spawn_args :: "u16 \<Rightarrow> id128 \<Rightarrow> id128 \<Rightarrow> string list" where
  "spawn_args port worker boot = [''--worker'', ''--coordinator-port'', nat_digits (unat port), ''--worker-id'', id_to_string worker,
     ''--boot'', id_to_string boot, ''--node'', ''node-0'', ''--workload'', ''workload-0'']"

text \<open>\<open>spawnW\<close> and the test of its result.\<close>

definition mt_spawn :: "'s process_world \<Rightarrow> u16 \<Rightarrow> id128 \<Rightarrow> id128 \<Rightarrow> string \<Rightarrow> ('s, nat) main_thread" where
  "mt_spawn w port worker boot msg =
     prog_bind (mt_world w (pw_spawn w (spawn_args port worker boot))) (\<lambda>r.
     prog_bind (mt_require (r \<noteq> None) msg) (\<lambda>_. prog_return (the r)))"

text \<open>Two registered workers, or the process ends.\<close>

definition mt_registered :: "'s process_world \<Rightarrow> string \<Rightarrow> ('s, unit) main_thread" where
  "mt_registered w msg =
     prog_bind (mt_poll w 400 (\<lambda>c. registered_workers c < 2)) (\<lambda>_.
     prog_bind (mt_look w registered_workers) (\<lambda>n. mt_require (\<not> n < 2) msg))"

text \<open>An order, the wait for its result, and the object it left.\<close>

definition ready_object :: "warmth_object option \<Rightarrow> bool" where
  "ready_object ob = (case ob of None \<Rightarrow> False | Some o' \<Rightarrow> execution_ready o')"

definition state_text :: "warmth_object option \<Rightarrow> string" where
  "state_text ob = (case ob of None \<Rightarrow> ''absent'' | Some o' \<Rightarrow> state_to_string (wo_state o'))"

definition mt_warm :: "'s process_world \<Rightarrow> string \<Rightarrow> string \<Rightarrow> ('s, warmth_object option) main_thread" where
  "mt_warm w msg msg' =
     prog_bind (mt_issue w mp_object LOAD_MODEL mp_worker_A) (\<lambda>ok.
     prog_bind (mt_require ok msg) (\<lambda>_.
     prog_bind (mt_wait w) (\<lambda>_.
     prog_bind (mt_look w (find_object mp_object)) (\<lambda>ob.
     prog_bind (mt_require (ready_object ob) msg') (\<lambda>_. prog_return ob)))))"

text \<open>The old authority: a \<open>HELLO\<close> of the first boot, and a report under the first epoch.\<close>

definition stale_hello :: "u64 \<Rightarrow> hello" where
  "stale_hello epoch = \<lparr>h_protocol_version = kProtocolVersion, h_worker = mp_worker_A, h_boot = mp_boot_A1, h_node = derive ''node-0'',
     h_epoch_guess = epoch, h_backend = ''cuda'', h_devices = [], h_actions = [], h_observed = []\<rparr>"

definition stale_report :: "u64 \<Rightarrow> u64 \<Rightarrow> u64 \<Rightarrow> report_payload" where
  "stale_report epoch wg dg = \<lparr>rp_boot = mp_boot_A1, rp_epoch = epoch, rp_warmth_gen = wg, rp_dep_gen = dg,
     rp_objects = [try_transition WARM ''stale''
       (new_object mp_object MODEL_WEIGHTS (derive ''wl'') (derive ''n'') ''cuda:0'' ''cuda'')]\<rparr>"

definition reply_refuses :: "frame option \<Rightarrow> bool" where
  "reply_refuses r = (case r of None \<Rightarrow> True
     | Some f \<Rightarrow> if fr_type f \<noteq> MT_HELLO_ACK then True
         else case decode_hello_ack (fr_payload f) of Inl _ \<Rightarrow> True | Inr (ack, _) \<Rightarrow> \<not> ha_accepted ack)"

definition mt_stale_hello :: "'s process_world \<Rightarrow> u64 \<Rightarrow> nat option \<Rightarrow> ('s, bool) main_thread" where
  "mt_stale_hello w epoch conn = (case conn of None \<Rightarrow> prog_return True
     | Some cid \<Rightarrow>
         prog_bind (mt_world w (pw_write w cid (plain_frame MT_HELLO (encode_hello (stale_hello epoch))))) (\<lambda>wrote.
         if \<not> wrote then prog_return True
         else prog_bind (mt_read w cid) (\<lambda>r. prog_return (reply_refuses r))))"

definition mt_stale_report :: "'s process_world \<Rightarrow> u64 \<Rightarrow> u64 \<Rightarrow> u64 \<Rightarrow> nat option \<Rightarrow> ('s, unit) main_thread" where
  "mt_stale_report w epoch wg dg conn = (case conn of None \<Rightarrow> prog_return ()
     | Some cid \<Rightarrow>
         prog_bind (mt_world w (pw_write w cid (plain_frame MT_REPORT (encode_report (stale_report epoch wg dg))))) (\<lambda>_.
         prog_bind (mt_read w cid) (\<lambda>_.
         mt_world w (\<lambda>s. ((), pw_close w cid s)))))"

definition mt_old_authority :: "'s process_world \<Rightarrow> u64 \<Rightarrow> u64 \<Rightarrow> u64 \<Rightarrow> ('s, unit) main_thread" where
  "mt_old_authority w epoch wg dg =
     prog_bind (mt_world w (pw_connect w)) (\<lambda>conn.
     prog_bind (mt_stale_hello w epoch conn) (\<lambda>refused.
     prog_bind (mt_world w (pw_connect w)) (\<lambda>conn2.
     prog_bind (mt_stale_report w epoch wg dg conn2) (\<lambda>_.
     prog_bind (mt_world w (\<lambda>s. ((), case conn of None \<Rightarrow> s | Some cid \<Rightarrow> pw_close w cid s))) (\<lambda>_.
     prog_bind (mt_look w (find_object mp_object)) (\<lambda>ob.
     prog_bind (mt_require (refused \<and> \<not> ready_object ob) ''stale authority not rejected'') (\<lambda>_.
     mt_print ''stale boot/epoch/generation authority rejected'')))))))"

text \<open>From the start of the accept thread to its join.\<close>

definition multiprocess_main :: "'s process_world \<Rightarrow> u16 \<Rightarrow> ('s, unit) main_thread" where
  "multiprocess_main w port =
     prog_bind (mt_spawn w port mp_worker_A mp_boot_A1 ''spawn worker A failed'') (\<lambda>pa.
     prog_bind (mt_spawn w port mp_worker_B mp_boot_B ''spawn worker B failed'') (\<lambda>pb.
     prog_bind (mt_registered w ''workers did not register'') (\<lambda>_.
     prog_bind (mt_warm w ''issue_warm A failed'' ''warm on A not ready'') (\<lambda>_.
     prog_bind (mt_look w co_current_epoch) (\<lambda>epoch.
     prog_bind (mt_look w co_warmth_generation) (\<lambda>wg.
     prog_bind (mt_look w co_dependency_generation) (\<lambda>dg.
     prog_bind (mt_print (''warmed object on A under epoch '' @ show_u64 epoch @ '', warm-gen '' @ show_u64 wg @ '', dep-gen '' @ show_u64 dg)) (\<lambda>_.
     prog_bind (mt_co w (\<lambda>c. ((), roll_epoch c))) (\<lambda>_.
     prog_bind (mt_world w (\<lambda>s. ((), pw_kill w pa s))) (\<lambda>_.
     prog_bind (mt_poll w 200 (\<lambda>c. 2 \<le> registered_workers c)) (\<lambda>_.
     prog_bind (mt_look w (find_object mp_object)) (\<lambda>ob.
     prog_bind (mt_print (''after kill+roll: object state='' @ state_text ob @ '' ready='' @ yes_no (ready_object ob))) (\<lambda>_.
     prog_bind (mt_require (\<not> ready_object ob) ''recovered warmth resurrected'') (\<lambda>_.
     prog_bind (mt_spawn w port mp_worker_A mp_boot_A2 ''spawn worker A v2 failed'') (\<lambda>pa2.
     prog_bind (mt_registered w ''worker A v2 not registered'') (\<lambda>_.
     prog_bind (mt_old_authority w epoch wg dg) (\<lambda>_.
     prog_bind (mt_warm w ''fresh issue_warm failed'' ''fresh warm not ready'') (\<lambda>ob.
     prog_bind (mt_print (''fresh warming under current authority accepted: state='' @ state_text ob)) (\<lambda>_.
     prog_bind (mt_look w co_balanced) (\<lambda>bal.
     prog_bind (mt_require bal ''budget not balanced'') (\<lambda>_.
     prog_bind (mt_look w outstanding_budget) (\<lambda>n.
     prog_bind (mt_print (''budget accounting returns to zero (outstanding='' @ nat_digits n @ '')'')) (\<lambda>_.
     mt_world w (\<lambda>s. ((), pw_kill w pb (pw_kill w pa2 s))))))))))))))))))))))))))"

text \<open>\<open>started\<close> is the port when \<open>start\<close> succeeded.\<close>

definition run_multiprocess :: "'s process_world \<Rightarrow> u16 option \<Rightarrow> 's \<Rightarrow> process_outcome" where
  "run_multiprocess w started s = (case started of None \<Rightarrow> leave False 1 [] (''coordinator start failed'' @ nl)
     | Some port \<Rightarrow> (case multiprocess_main w port ([], s, new_coordinator) of Inl r \<Rightarrow> r
         | Inr (_, out, sc) \<Rightarrow> (case pw_stop w sc of None \<Rightarrow> Blocks out
             | Some _ \<Rightarrow> leave False 0 (out @ ''atomic multiprocess restart proof PASSED'' @ nl) [])))"

section \<open>Failures\<close>

text \<open>After the start the main thread ends by itself only with a live accept thread.\<close>

definition never_returns :: "('s, 'a) main_thread \<Rightarrow> bool" where
  "never_returns m \<longleftrightarrow> (\<forall>st rc out err. m st \<noteq> Inl (Returns rc out err))"

lemma never_returns_basic:
  "never_returns (prog_return x)" "never_returns (mt_print s)" "never_returns (mt_require b msg)" "never_returns (mt_world w g)"
  "never_returns (mt_co w h)" "never_returns (mt_look w k)" "never_returns (mt_poll w n go)" "never_returns (mt_wait w)"
  "never_returns (mt_read w cid)"
  by (auto simp: never_returns_def prog_return_def mt_print_def mt_require_def mt_world_def mt_look_def mt_co_def mt_poll_def
      mt_wait_def mt_read_def leave_def Let_def split: prod.splits option.splits)

lemma never_returns_bind: "never_returns m \<Longrightarrow> (\<And>x. never_returns (f x)) \<Longrightarrow> never_returns (prog_bind m f)"
  by (auto simp: never_returns_def prog_bind_def split: sum.split prod.split)

lemma never_returns_cases:
  "never_returns m \<Longrightarrow> never_returns m' \<Longrightarrow> never_returns (if b then m else m')"
  "never_returns m \<Longrightarrow> (\<And>x. never_returns (f x)) \<Longrightarrow> never_returns (case y of None \<Rightarrow> m | Some x \<Rightarrow> f x)"
  by (simp_all split: option.split)

lemmas never_returns_rules = never_returns_bind never_returns_basic never_returns_cases

lemma never_returns_parts:
  "never_returns (mt_issue w i a k)" "never_returns (mt_spawn w p i b msg)" "never_returns (mt_registered w msg)"
  "never_returns (mt_stale_hello w e conn)" "never_returns (mt_stale_report w e g d conn)"
  unfolding mt_issue_def mt_spawn_def mt_registered_def mt_stale_hello_def mt_stale_report_def split_def
  by (intro never_returns_rules)+

lemma never_returns_main: "never_returns (multiprocess_main w port)"
  unfolding multiprocess_main_def mt_warm_def mt_old_authority_def
  by (intro never_returns_rules never_returns_parts)

lemma multiprocess_failure: "run_multiprocess w (Some port) s \<noteq> Returns 1 out err"
proof -
  have "multiprocess_main w port ([], s, new_coordinator) \<noteq> Inl (Returns 1 out err)"
    using never_returns_main[of w port] unfolding never_returns_def by blast
  then show ?thesis
    by (cases "multiprocess_main w port ([], s, new_coordinator)") (auto simp: run_multiprocess_def leave_def split: option.splits)
qed

section \<open>The arguments of a worker process\<close>

text \<open>The worker process reads from its arguments what the main thread meant.\<close>

lemma nat_digits_key: "nat_digits n \<noteq> CHR ''-'' # s"
proof
  assume "nat_digits n = CHR ''-'' # s"
  then have "is_digit (CHR ''-'')" using nat_digits_digits[of n] by simp
  then show False by (simp add: is_digit_def)
qed

lemma id_key: "length s \<noteq> 32 \<Longrightarrow> id_to_string i \<noteq> s"
  using length_id_to_string[of i] by auto

lemma spawned_worker:
  "worker_of_args (spawn_args port worker boot) = new_worker worker boot (derive ''node-0'') (derive ''workload-0'') ''cuda''
     [''cuda:0''] [0, 1, 2, 3, 4, 5, 6, 7, 8, 9, 10, 11, 12, 13]"
  "port_argument (spawn_args port worker boot) ''--coordinator-port'' = port"
proof -
  have id: "id_from_string (id_to_string i) = Some i" for i by (rule id_from_string_digits) simp
  have port: "atoi (nat_digits n) = int n" for n
  proof -
    obtain c u where c: "nat_digits n = c # u" "is_digit c" "list_all is_digit u"
      using nat_digits_digits[of n] nat_digits_nonempty[of n] by (cases "nat_digits n") auto
    then have "takeWhile is_digit (c # u) = c # u" by (simp add: list_all_iff)
    moreover have "c \<notin> {CHR '' '', CHR 0x09, CHR 0x0A, CHR 0x0B, CHR 0x0C, CHR 0x0D, CHR ''-'', CHR ''+''}"
      using c(2) by (auto simp: is_digit_def)
    ultimately show ?thesis using nat_digits_val[of n] by (simp add: atoi_def c(1) Let_def)
  qed
  note args = spawn_args_def nat_digits_key id_key
  show "worker_of_args (spawn_args port worker boot) = new_worker worker boot (derive ''node-0'') (derive ''workload-0'') ''cuda''
     [''cuda:0''] [0, 1, 2, 3, 4, 5, 6, 7, 8, 9, 10, 11, 12, 13]"
    by (simp add: worker_of_args_def id_argument_def args id)
  show "port_argument (spawn_args port worker boot) ''--coordinator-port'' = port"
    by (simp add: port_argument_def args port)
qed

end
