(* ===== verification/Process_Ids.thy ===== *)
theory Process_Ids
  imports Multiprocess
begin

text \<open>
  The identifiers \<open>run_multiprocess\<close> derives from names, computed: the two workers differ, and so do the
  two boots of the first worker. Without this the restart would not be one.
\<close>

lemma derive_steps:
  assumes "length text' = n" "n \<le> 55" "map uint (sha_load (map byte_of_char text' @ sha_pad n)) = block" "compress32 block = ws"
  shows "derive text' = from_bytes (take 16 (bytes_of_words (words_of ws)))"
  using digest_steps[of "map byte_of_char text'" n block ws] assms by (simp add: derive_def digest16_def)

lemmas id_eval = words_of_def sha_init_def bytes_of_words_def from_bytes_def be_val_def

lemma block_A: "map uint (sha_load (map byte_of_char ''worker-A'' @ sha_pad 8)) =
    [2003792491, 1701981505, 2147483648, 0, 0, 0, 0, 0, 0, 0, 0, 0, 0, 0, 0, 64]"
  by (simp add: block_eval)

lemma compress_A: "compress32 [2003792491, 1701981505, 2147483648, 0, 0, 0, 0, 0, 0, 0, 0, 0, 0, 0, 0, 64] =
    [1396733154, 341338733, 2166725338, 1762488847, 4170233999, 1390985348, 877022263, 3191754563]"
  by (simp add: compress_eval del: window32.simps(2))

lemma block_B: "map uint (sha_load (map byte_of_char ''worker-B'' @ sha_pad 8)) =
    [2003792491, 1701981506, 2147483648, 0, 0, 0, 0, 0, 0, 0, 0, 0, 0, 0, 0, 64]"
  by (simp add: block_eval)

lemma compress_B: "compress32 [2003792491, 1701981506, 2147483648, 0, 0, 0, 0, 0, 0, 0, 0, 0, 0, 0, 0, 64] =
    [2651164360, 241027114, 165411088, 1383082557, 1205232806, 2080226274, 256310128, 130603836]"
  by (simp add: compress_eval del: window32.simps(2))

lemma block_A1: "map uint (sha_load (map byte_of_char ''boot-A-1'' @ sha_pad 8)) =
    [1651470196, 759246129, 2147483648, 0, 0, 0, 0, 0, 0, 0, 0, 0, 0, 0, 0, 64]"
  by (simp add: block_eval)

lemma compress_A1: "compress32 [1651470196, 759246129, 2147483648, 0, 0, 0, 0, 0, 0, 0, 0, 0, 0, 0, 0, 64] =
    [2305171251, 3823853113, 293956335, 1325529753, 2871564437, 1544162730, 3789238135, 2410100841]"
  by (simp add: compress_eval del: window32.simps(2))

lemma block_A2: "map uint (sha_load (map byte_of_char ''boot-A-2'' @ sha_pad 8)) =
    [1651470196, 759246130, 2147483648, 0, 0, 0, 0, 0, 0, 0, 0, 0, 0, 0, 0, 64]"
  by (simp add: block_eval)

lemma compress_A2: "compress32 [1651470196, 759246130, 2147483648, 0, 0, 0, 0, 0, 0, 0, 0, 0, 0, 0, 0, 64] =
    [2084691900, 1878756958, 3728229888, 3382899280, 855689710, 4227841628, 1725287193, 1711672138]"
  by (simp add: compress_eval del: window32.simps(2))

lemma high_A: "high mp_worker_A = 0xbd4a5b49cfc018f2"
  unfolding mp_worker_A_def by (subst derive_steps[OF _ _ block_A compress_A]) (simp_all add: id_eval)

lemma high_B: "high mp_worker_B = 0x080f752fc9c576af"
  unfolding mp_worker_B_def by (subst derive_steps[OF _ _ block_B compress_B]) (simp_all add: id_eval)

lemma high_A1: "high mp_boot_A1 = 0xf370059a9f530cbe"
  unfolding mp_boot_A1_def by (subst derive_steps[OF _ _ block_A1 compress_A1]) (simp_all add: id_eval)

lemma high_A2: "high mp_boot_A2 = 0xe64bc6232b633ce3"
  unfolding mp_boot_A2_def by (subst derive_steps[OF _ _ block_A2 compress_A2]) (simp_all add: id_eval)

lemma process_ids:
  "mp_worker_B < mp_worker_A" "\<not> mp_worker_A < mp_worker_B" "mp_worker_A \<noteq> mp_worker_B" "mp_worker_B \<noteq> mp_worker_A"
  "mp_boot_A1 \<noteq> mp_boot_A2" "mp_boot_A2 \<noteq> mp_boot_A1"
proof -
  show l: "mp_worker_B < mp_worker_A" by (simp add: less_id128_def high_A high_B)
  show "mp_worker_A \<noteq> mp_worker_B" "mp_worker_B \<noteq> mp_worker_A" "\<not> mp_worker_A < mp_worker_B" using l by auto
  show "mp_boot_A1 \<noteq> mp_boot_A2" "mp_boot_A2 \<noteq> mp_boot_A1" using high_A1 high_A2 by auto
qed

end
