(* ===== verification/Restart.thy ===== *)
theory Restart
  imports Process_Ids
begin

text \<open>
  A world for \<open>Multiprocess\<close> made of the models: worker processes that connect, register, answer orders
  and are killed, the main thread's own sockets, and the coordinator's threads, which handle what
  arrives in the order it arrives. Each statement of the main thread has an equation in this world; \<open>Restart_Run\<close> puts them together.
\<close>

section \<open>Processes and sockets\<close>

text \<open>Processes and sockets are numbered together, and a connection has the number of its peer. Pending
  things wait for the next round of the others: children to connect, connections to accept, frames in
  either direction, connections whose peer is gone.\<close>

record procs =
  ps_next :: nat
  ps_starting :: "(nat \<times> string list) list"
  ps_accepting :: "nat list"
  ps_joining :: "(nat, worker) std_map"
  ps_workers :: "(nat, worker) std_map"
  ps_inbox :: "(nat \<times> frame) list"
  ps_mail :: "(nat \<times> frame) list"
  ps_gone :: "nat list"
  ps_sockets :: "nat list"

text \<open>A child connects and sends its \<open>HELLO\<close>; \<open>on_connection\<close> for each new connection.\<close>

definition start_children :: "procs \<times> coordinator \<Rightarrow> procs \<times> coordinator" where
  "start_children = (\<lambda>(s, c). let ws = map (\<lambda>(pid, args). (pid, worker_of_args args)) (ps_starting s) in
     (s\<lparr>ps_starting := [], ps_joining := fold (\<lambda>(pid, w). map_set pid w) ws (ps_joining s),
        ps_inbox := ps_inbox s @ map (\<lambda>(pid, w). (pid, plain_frame MT_HELLO (encode_hello (worker_hello w)))) ws\<rparr>,
      fold (\<lambda>(pid, w). on_connection pid) ws c))"

definition accept_main :: "procs \<times> coordinator \<Rightarrow> procs \<times> coordinator" where
  "accept_main = (\<lambda>(s, c). (s\<lparr>ps_accepting := []\<rparr>, fold on_connection (ps_accepting s) c))"

text \<open>The connection threads: each frame is handled, and the replies are on their way.\<close>

definition deliver :: "(procs \<Rightarrow> nat \<Rightarrow> timestamp) \<Rightarrow> procs \<times> coordinator \<Rightarrow> procs \<times> coordinator" where
  "deliver clk = (\<lambda>(s, c). fold (\<lambda>(cid, f) (s, c). case handle_frame cid (clk s) f c of (fs, c') \<Rightarrow>
     (s\<lparr>ps_mail := ps_mail s @ map (\<lambda>(cid', ty, p). (cid', plain_frame ty p)) fs\<rparr>, c')) (ps_inbox s) (s\<lparr>ps_inbox := []\<rparr>, c))"

text \<open>The workers: a reply to the \<open>HELLO\<close> or a frame of \<open>run\<close>; what is for the main thread stays.\<close>

definition worker_turn :: "(procs \<Rightarrow> nat \<Rightarrow> nat \<Rightarrow> timestamp) \<Rightarrow> nat \<times> frame \<Rightarrow> procs \<Rightarrow> procs" where
  "worker_turn wclk = (\<lambda>(cid, f) s. case map_find cid (ps_joining s) of
       Some w \<Rightarrow> (case worker_accept f w of (ok, w') \<Rightarrow> let s' = s\<lparr>ps_joining := map_erase cid (ps_joining s)\<rparr> in
         if ok then s'\<lparr>ps_workers := map_set cid w' (ps_workers s')\<rparr> else s'\<lparr>ps_gone := ps_gone s' @ [cid]\<rparr>)
     | None \<Rightarrow> (case map_find cid (ps_workers s) of
         Some w \<Rightarrow> (case worker_react synthetic_hook (wclk s) f ((), w) of (fs, _, w') \<Rightarrow>
           if wk_shutdown w' then s\<lparr>ps_workers := map_erase cid (ps_workers s), ps_gone := ps_gone s @ [cid]\<rparr>
           else s\<lparr>ps_workers := map_set cid w' (ps_workers s), ps_inbox := ps_inbox s @ map (Pair cid) fs\<rparr>)
       | None \<Rightarrow> s\<lparr>ps_mail := ps_mail s @ [(cid, f)]\<rparr>))"

definition workers_turn :: "(procs \<Rightarrow> nat \<Rightarrow> nat \<Rightarrow> timestamp) \<Rightarrow> procs \<times> coordinator \<Rightarrow> procs \<times> coordinator" where
  "workers_turn wclk = (\<lambda>(s, c). (fold (worker_turn wclk) (ps_mail s) (s\<lparr>ps_mail := []\<rparr>), c))"

definition end_connections :: "(procs \<Rightarrow> nat \<Rightarrow> timestamp) \<Rightarrow> procs \<times> coordinator \<Rightarrow> procs \<times> coordinator" where
  "end_connections clk = (\<lambda>(s, c). (s\<lparr>ps_gone := []\<rparr>, fold (\<lambda>cid. on_disconnect cid (clk s)) (ps_gone s) c))"

definition others_round ::
  "(procs \<Rightarrow> nat \<Rightarrow> timestamp) \<Rightarrow> (procs \<Rightarrow> nat \<Rightarrow> nat \<Rightarrow> timestamp) \<Rightarrow> procs \<times> coordinator \<Rightarrow> procs \<times> coordinator" where
  "others_round clk wclk sc =
     end_connections clk (deliver clk (workers_turn wclk (deliver clk (accept_main (start_children sc)))))"

definition kill_process :: "nat \<Rightarrow> procs \<Rightarrow> procs" where
  "kill_process pid s = s\<lparr>ps_starting := filter (\<lambda>(p, a). p \<noteq> pid) (ps_starting s), ps_joining := map_erase pid (ps_joining s),
     ps_workers := map_erase pid (ps_workers s), ps_gone := ps_gone s @ [pid]\<rparr>"

text \<open>The first frame that waits on a socket.\<close>

definition receive :: "nat \<Rightarrow> procs \<Rightarrow> frame option option \<times> procs" where
  "receive cid s = (case filter (\<lambda>(i, f). i = cid) (ps_mail s) of [] \<Rightarrow> (None, s)
     | m # ms \<Rightarrow> (Some (Some (snd m)), s\<lparr>ps_mail := remove1 m (ps_mail s)\<rparr>))"

text \<open>What waits on a socket that is closed is lost.\<close>

definition close_socket :: "nat \<Rightarrow> procs \<Rightarrow> procs" where
  "close_socket cid s = s\<lparr>ps_sockets := removeAll cid (ps_sockets s), ps_mail := filter (\<lambda>(i, f). i \<noteq> cid) (ps_mail s), ps_gone := ps_gone s @ [cid]\<rparr>"

text \<open>\<open>stop\<close> closes the connections of registered workers and returns when no other peer keeps one open.\<close>

definition procs_world :: "(procs \<Rightarrow> nat \<Rightarrow> timestamp) \<Rightarrow> (procs \<Rightarrow> nat \<Rightarrow> nat \<Rightarrow> timestamp) \<Rightarrow> procs process_world" where
  "procs_world clk wclk =
     \<lparr>pw_spawn = (\<lambda>args s. (Some (ps_next s), s\<lparr>ps_next := Suc (ps_next s), ps_starting := ps_starting s @ [(ps_next s, args)]\<rparr>)),
      pw_kill = kill_process,
      pw_others = others_round clk wclk,
      pw_send = (\<lambda>(cid, ty, p) s. (True, s\<lparr>ps_mail := ps_mail s @ [(cid, plain_frame ty p)]\<rparr>)),
      pw_connect = (\<lambda>s. (Some (ps_next s), s\<lparr>ps_next := Suc (ps_next s), ps_accepting := ps_accepting s @ [ps_next s],
         ps_sockets := ps_next s # ps_sockets s\<rparr>)),
      pw_write = (\<lambda>cid f s. (True, s\<lparr>ps_inbox := ps_inbox s @ [(cid, f)]\<rparr>)),
      pw_read = receive,
      pw_close = close_socket,
      pw_stop = (\<lambda>(s, c). if ps_starting s = [] \<and> ps_accepting s = [] \<and> ps_joining s = [] \<and> ps_sockets s = []
          \<and> fst ` set (ps_workers s) \<subseteq> snd ` set (co_workers c)
        then Some (s\<lparr>ps_workers := []\<rparr>, fold (\<lambda>(cid, w). on_disconnect cid (clk s)) (ps_workers s) c) else None)\<rparr>"

definition no_procs :: procs where
  "no_procs = \<lparr>ps_next = 0, ps_starting = [], ps_accepting = [], ps_joining = [], ps_workers = [], ps_inbox = [], ps_mail = [],
     ps_gone = [], ps_sockets = []\<rparr>"

section \<open>Rounds\<close>

text \<open>Between events nothing is pending.\<close>

definition quiet :: "procs \<Rightarrow> bool" where
  "quiet s \<longleftrightarrow> ps_starting s = [] \<and> ps_accepting s = [] \<and> ps_joining s = [] \<and> ps_inbox s = [] \<and> ps_mail s = [] \<and> ps_gone s = []"

lemma quietD:
  assumes "quiet s"
  shows "ps_starting s = []" "ps_accepting s = []" "ps_joining s = []" "ps_inbox s = []" "ps_mail s = []" "ps_gone s = []"
  using assms by (simp_all add: quiet_def)

lemmas pass_defs = others_round_def start_children_def accept_main_def deliver_def workers_turn_def end_connections_def

lemma upd_same:
  "ps_starting s = x \<Longrightarrow> s\<lparr>ps_starting := x\<rparr> = s" "ps_accepting s = y \<Longrightarrow> s\<lparr>ps_accepting := y\<rparr> = s"
  "ps_joining s = j \<Longrightarrow> s\<lparr>ps_joining := j\<rparr> = s" "ps_inbox s = z \<Longrightarrow> s\<lparr>ps_inbox := z\<rparr> = s"
  "ps_mail s = m \<Longrightarrow> s\<lparr>ps_mail := m\<rparr> = s" "ps_gone s = g \<Longrightarrow> s\<lparr>ps_gone := g\<rparr> = s" "ps_workers s = w \<Longrightarrow> s\<lparr>ps_workers := w\<rparr> = s"
  by auto

lemma quiet_round: "quiet s \<Longrightarrow> others_round clk wclk (s, c) = (s, c)"
  by (simp add: pass_defs quiet_def upd_same)

text \<open>A child joins.\<close>

definition joined_worker :: "worker \<Rightarrow> coordinator \<Rightarrow> worker" where
  "joined_worker w c = w\<lparr>wk_epoch := co_epoch c, wk_warmth_gen := co_warmth_gen c, wk_dep_gen := co_dep_gen c, wk_policy_gen := co_policy_gen c\<rparr>"

definition joined :: "nat \<Rightarrow> worker \<Rightarrow> coordinator \<Rightarrow> coordinator" where
  "joined cid w c = snd (hello_register cid (worker_hello w) (on_connection cid c))"

lemma hello_frame:
  assumes "hello_ok (worker_hello w)" "wk_observed w = []" "\<not> stale_boot (worker_hello w) (on_connection cid c)"
  shows "\<exists>p. handle_frame cid clock (plain_frame MT_HELLO (encode_hello (worker_hello w))) (on_connection cid c) = ([(cid, MT_HELLO_ACK, p)], joined cid w c)
    \<and> worker_accept (plain_frame MT_HELLO_ACK p) w = (True, joined_worker w c)"
proof -
  have n: "hello_nf (worker_hello w) = worker_hello w" by (simp add: hello_nf_def worker_hello_def assms(2))
  have d: "decode_hello (encode_hello (worker_hello w)) = Inr (worker_hello w, [])"
    using decode_hello_encode[OF assms(1), of "[]"] by (simp add: n)
  obtain c' where r: "hello_register cid (worker_hello w) (on_connection cid c) = ((True, []), c')"
    "co_epoch c' = co_epoch c" "co_warmth_gen c' = co_warmth_gen c" "co_dep_gen c' = co_dep_gen c" "co_policy_gen c' = co_policy_gen c"
    using hello_register_cases[of "worker_hello w" "on_connection cid c" cid] assms(3) by (auto simp: on_connection_def)
  have ack: "decode_hello_ack (encode_hello_ack a) = Inr (a, [])" if "length (ha_reason a) < 2 ^ 32" for a
    using hello_ack_codec.dec_enc[OF that, of "[]"] by simp
  have v: "h_protocol_version (worker_hello w) = kProtocolVersion" by (simp add: worker_hello_def)
  show ?thesis
    by (simp add: handle_frame_def plain_frame_def handle_hello_def d r v worker_accept_def ack joined_def joined_worker_def)
qed

lemma join_round:
  assumes "quiet s" "worker_of_args args = w" "hello_ok (worker_hello w)" "wk_observed w = []"
    "\<not> stale_boot (worker_hello w) (on_connection cid c)"
  shows "others_round clk wclk (s\<lparr>ps_starting := [(cid, args)]\<rparr>, c)
    = (s\<lparr>ps_workers := map_set cid (joined_worker w c) (ps_workers s)\<rparr>, joined cid w c)"
proof -
  define s1 where "s1 = s\<lparr>ps_joining := [(cid, w)], ps_inbox := []\<rparr>"
  obtain p where p: "handle_frame cid (clk s1) (plain_frame MT_HELLO (encode_hello (worker_hello w))) (on_connection cid c)
      = ([(cid, MT_HELLO_ACK, p)], joined cid w c)" "worker_accept (plain_frame MT_HELLO_ACK p) w = (True, joined_worker w c)"
    using hello_frame[OF assms(3-5)] by blast
  have "deliver clk (accept_main (start_children (s\<lparr>ps_starting := [(cid, args)]\<rparr>, c)))
      = (s\<lparr>ps_joining := [(cid, w)], ps_mail := [(cid, plain_frame MT_HELLO_ACK p)]\<rparr>, joined cid w c)"
    using quietD[OF assms(1)] p(1) by (simp add: start_children_def accept_main_def deliver_def assms(2) s1_def upd_same)
  then show ?thesis
    using quietD[OF assms(1)] p(2) by (simp add: others_round_def workers_turn_def worker_turn_def deliver_def end_connections_def upd_same)
qed

text \<open>A connection of the main thread, the end of connections, and a frame of the main thread.\<close>

lemma accept_round: "quiet s \<Longrightarrow> others_round clk wclk (s\<lparr>ps_accepting := [cid]\<rparr>, c) = (s, on_connection cid c)"
  by (simp add: pass_defs quiet_def upd_same)

lemma gone_round:
  "quiet s \<Longrightarrow> others_round clk wclk (s\<lparr>ps_gone := cids\<rparr>, c) = (s, fold (\<lambda>cid. on_disconnect cid (clk (s\<lparr>ps_gone := cids\<rparr>))) cids c)"
  by (simp add: pass_defs quiet_def upd_same)

lemma main_frame_round:
  assumes "quiet s" "map_find cid (ps_workers s) = None" "\<And>clock. handle_frame cid clock f c = ([(cid, ty, p)], c')"
  shows "others_round clk wclk (s\<lparr>ps_inbox := [(cid, f)]\<rparr>, c) = (s\<lparr>ps_mail := [(cid, plain_frame ty p)]\<rparr>, c')"
  using quietD[OF assms(1)] assms(2,3) by (simp add: pass_defs worker_turn_def upd_same)

lemma order_round:
  assumes "quiet s" "map_find cid (ps_workers s) = Some w" "\<And>clock. \<exists>w'. worker_react synthetic_hook clock f ((), w) = ([reply], (), w') \<and> \<not> wk_shutdown w'"
    and "\<And>clock. \<exists>c'. handle_frame cid clock reply c = ([], c') \<and> P c'"
  shows "\<exists>w' c'. others_round clk wclk (s\<lparr>ps_mail := [(cid, f)]\<rparr>, c) = (s\<lparr>ps_workers := map_set cid w' (ps_workers s)\<rparr>, c') \<and> P c'"
proof -
  obtain w' where w': "worker_react synthetic_hook (wclk s) f ((), w) = ([reply], (), w')" "\<not> wk_shutdown w'" using assms(3) by blast
  obtain c' where c': "handle_frame cid (clk (s\<lparr>ps_workers := map_set cid w' (ps_workers s)\<rparr>)) reply c = ([], c')" "P c'"
    using assms(4) by blast
  show ?thesis using quietD[OF assms(1)] assms(2) w' c'
    by (intro exI[of _ w'] exI[of _ c']) (simp add: pass_defs worker_turn_def upd_same)
qed

section \<open>An order and its result\<close>

lemma reserve_pair_idle:
  assumes "k \<noteq> 0" "k + 1 \<noteq> 0"
  shows "\<exists>e1 b1 e2 b u'. reserve BK_DEVICE_MEMORY kDefaultWarmBytes ''warm'' (idle_budget k u) = (k, e1, b1)
    \<and> reserve BK_CONCURRENT_WARMING_OPS 1 ''warm'' b1 = (k + 1, e2, b) \<and> release_pair k (k + 1) b = idle_budget (k + 2) u'"
proof -
  have k: "k + 1 + 1 = k + 2" by simp
  show ?thesis using assms
    by (simp add: reserve_def idle_budget_def budget_limits_default_def
      fits_def next_id_def kDefaultWarmBytes_def release_pair_def release_def Let_def map_emplace_def k)
qed

text \<open>The state between the two sections of an order.\<close>

definition ordered :: "nat \<Rightarrow> id128 \<Rightarrow> u64 \<Rightarrow> budget_tracker \<Rightarrow> coordinator \<Rightarrow> coordinator" where
  "ordered cid object k b c = c\<lparr>co_budget := b, co_attempt_counter := co_attempt_counter c + 1,
     co_in_flight := [(co_attempt_counter c, \<lparr>at_object = object, at_worker = cn_id (conn_of cid c), at_reservation = k, at_op_reservation = k + 1\<rparr>)],
     co_in_flight_count := co_in_flight_count c + 1\<rparr>"

lemma issue_idle:
  assumes "co_budget c = idle_budget k u" "k \<noteq> 0" "k + 1 \<noteq> 0" "map_find w (co_workers c) = Some cid" "cn_registered (conn_of cid c)"
    "co_in_flight c = []"
  shows "\<exists>b u'. issue_begin object action (Some w) c = (Some (co_attempt_counter c, cid, MT_WARM_TOPIC, encode_warm_topic
        (warm_topic_for object action (co_attempt_counter c) c)), ordered cid object k b c)
     \<and> release_pair k (k + 1) b = idle_budget (k + 2) u'"
proof -
  have p: "pick_worker (Some w) c = Some cid" using assms(4,5) by (auto simp: pick_worker_def)
  obtain e1 b1 e2 b u' where "reserve BK_DEVICE_MEMORY kDefaultWarmBytes ''warm'' (idle_budget k u) = (k, e1, b1)"
    "reserve BK_CONCURRENT_WARMING_OPS 1 ''warm'' b1 = (k + 1, e2, b)" "release_pair k (k + 1) b = idle_budget (k + 2) u'"
    using reserve_pair_idle[OF assms(2,3)] by blast
  then show ?thesis using assms(1,2,6)
    by (intro exI[of _ b] exI[of _ u']) (simp add: issue_begin_def p warm_topic_for_def ordered_def Let_def)
qed

text \<open>The state after the result.\<close>

definition answered :: "nat \<Rightarrow> id128 \<Rightarrow> u64 \<Rightarrow> (u8, u64) std_map \<Rightarrow> warmth_object \<Rightarrow> coordinator \<Rightarrow> coordinator" where
  "answered cid object k u o' c = worker_objects_insert (cn_id (conn_of cid c)) object
     (c\<lparr>co_budget := idle_budget k u, co_attempt_counter := co_attempt_counter c + 1, co_objects := map_set object o' (co_objects c)\<rparr>)"

lemma result_idle:
  assumes "in_sync cid w c" "co_in_flight_count c = 0" "co_in_flight c = []" "release_pair k (k + 1) b = idle_budget (k + 2) u'"
    "\<And>x. map_find object (co_objects c) = Some x \<Longrightarrow> wo_state x \<noteq> HOT"
  shows "\<exists>o'. handle_frame cid clock (plain_frame MT_WARM_RESULT (encode_warm_result
        (worker_result w \<lparr>wc_object = object, wc_action = code, wc_attempt = co_attempt_counter c\<rparr> (True, d, bs))))
      (ordered cid object k b c) = ([], answered cid object (k + 2) u' o' c) \<and> wo_state o' = WARM"
proof -
  let ?r = "worker_result w \<lparr>wc_object = object, wc_action = code, wc_attempt = co_attempt_counter c\<rparr> (True, d, bs)"
  have d: "decode_warm_result (encode_warm_result ?r) = Inr (?r, [])"
    using warm_result_codec.dec_enc[of ?r "[]"] by (simp add: worker_result_def)
  have f: "wr_attempt ?r = co_attempt_counter c" "wr_object ?r = object" "wr_success ?r" "wr_boot ?r = wk_boot w" "wr_epoch ?r = wk_epoch w"
    "wr_warmth_gen ?r = wk_warmth_gen w" "wr_dep_gen ?r = wk_dep_gen w" by (simp_all add: worker_result_def)
  obtain o' where o': "result_object ?r (co_warmth_gen c) clock (map_find object (co_objects c)) = Some o'"
    using f(3) by (auto simp: result_object_def)
  have "wo_state o' = WARM" using o' f(3) assms(5)
    by (auto simp: result_object_def complete_warm_def record_warm_def reach_warm_state new_object_def split: option.splits if_splits)
  moreover have conn: "conn_of cid (ordered cid object k b c) = conn_of cid c" by (simp add: conn_of_def ordered_def)
  moreover have "authority_ok cid (wk_boot w) (wk_epoch w) (wk_warmth_gen w) (wk_dep_gen w) (ordered cid object k b c)"
    using assms(1) conn by (simp add: in_sync_def authority_ok_def ordered_def)
  ultimately show ?thesis using o' assms(2-4) f
    by (intro exI[of _ o'])
      (simp add: handle_frame_def plain_frame_def handle_warm_result_def d, simp add: ordered_def answered_def settle_attempt_def worker_objects_insert_def)
qed

lemma answered_fields:
  "co_in_flight_count (answered cid object k u o' c) = co_in_flight_count c" "co_in_flight (answered cid object k u o' c) = co_in_flight c"
  "find_object object (answered cid object k u o' c) = Some o'" "co_budget (answered cid object k u o' c) = idle_budget k u"
  by (simp_all add: answered_def worker_objects_insert_def find_object_def)

lemma react_to_order:
  assumes "\<not> wk_shutdown w"
  shows "\<exists>w'. worker_react synthetic_hook clock (plain_frame MT_WARM_TOPIC (encode_warm_topic (warm_topic_for object action a c))) ((), w)
    = ([plain_frame MT_WARM_RESULT (encode_warm_result (worker_result w \<lparr>wc_object = object, wc_action = action_code action, wc_attempt = a\<rparr>
        (fst (synthetic_hook () object (action_code action)))))], (), w') \<and> \<not> wk_shutdown w'"
proof -
  let ?t = "warm_topic_for object action a c"
  have "decode_warm_topic (encode_warm_topic ?t) = Inr (?t, [])"
    using warm_topic_codec.dec_enc[of ?t "[]"] by (simp add: warm_topic_for_def)
  then show ?thesis using assms
    by (simp add: worker_react_def plain_frame_def) (simp add: warm_topic_for_def worker_command_def synthetic_hook_def worker_observe_def)
qed

section \<open>The statements of the main thread in this world\<close>

lemma world_ops:
  "pw_others (procs_world clk wclk) = others_round clk wclk" "pw_kill (procs_world clk wclk) = kill_process"
  "pw_spawn (procs_world clk wclk) args s = (Some (ps_next s), s\<lparr>ps_next := Suc (ps_next s), ps_starting := ps_starting s @ [(ps_next s, args)]\<rparr>)"
  "pw_send (procs_world clk wclk) (cid, ty, p) s = (True, s\<lparr>ps_mail := ps_mail s @ [(cid, plain_frame ty p)]\<rparr>)"
  "pw_connect (procs_world clk wclk) s = (Some (ps_next s), s\<lparr>ps_next := Suc (ps_next s), ps_accepting := ps_accepting s @ [ps_next s],
     ps_sockets := ps_next s # ps_sockets s\<rparr>)"
  "pw_write (procs_world clk wclk) cid f s = (True, s\<lparr>ps_inbox := ps_inbox s @ [(cid, f)]\<rparr>)"
  "pw_read (procs_world clk wclk) = receive"
  "pw_close (procs_world clk wclk) cid s
     = s\<lparr>ps_sockets := removeAll cid (ps_sockets s), ps_mail := filter (\<lambda>(i, f). i \<noteq> cid) (ps_mail s), ps_gone := ps_gone s @ [cid]\<rparr>"
  by (simp_all add: procs_world_def close_socket_def)

lemmas mt_defs = prog_bind_def prog_return_def mt_print_def mt_require_def mt_world_def mt_co_def mt_look_def mt_poll_def mt_wait_def mt_read_def

lemma quiet_workers: "quiet s \<Longrightarrow> quiet (s\<lparr>ps_workers := ws\<rparr>)" "quiet s \<Longrightarrow> quiet (s\<lparr>ps_sockets := ss\<rparr>)" "quiet s \<Longrightarrow> quiet (s\<lparr>ps_next := n\<rparr>)"
  by (simp_all add: quiet_def)

text \<open>An order to an idle worker: sent by \<open>issue_warm\<close>, and answered in the next round.\<close>

lemma order_settles:
  assumes q: "quiet s" and w: "map_find cid (ps_workers s) = Some w" "\<not> wk_shutdown w" "in_sync cid w c"
    and c: "co_budget c = idle_budget k u" "k \<noteq> 0" "k + 1 \<noteq> 0" "map_find worker (co_workers c) = Some cid"
      "co_in_flight c = []" "co_in_flight_count c = 0"
      "\<And>x. map_find object (co_objects c) = Some x \<Longrightarrow> wo_state x \<noteq> HOT"
  shows "\<exists>sc w' u' o'. mt_issue (procs_world clk wclk) object action worker (out, s, c) = Inr (True, out, sc)
    \<and> others_round clk wclk sc = (s\<lparr>ps_workers := map_set cid w' (ps_workers s)\<rparr>, answered cid object (k + 2) u' o' c) \<and> wo_state o' = WARM"
proof -
  have reg: "cn_registered (conn_of cid c)" using w(3) by (simp add: in_sync_def authority_ok_def)
  obtain b u' where i: "issue_begin object action (Some worker) c = (Some (co_attempt_counter c, cid, MT_WARM_TOPIC, encode_warm_topic
        (warm_topic_for object action (co_attempt_counter c) c)), ordered cid object k b c)"
    "release_pair k (k + 1) b = idle_budget (k + 2) u'"
    using issue_idle[OF c(1-4) reg c(5)] by blast
  let ?topic = "plain_frame MT_WARM_TOPIC (encode_warm_topic (warm_topic_for object action (co_attempt_counter c) c))"
  obtain d bs where hook: "fst (synthetic_hook () object (action_code action)) = (True, d, bs)" by (simp add: synthetic_hook_def)
  let ?result = "plain_frame MT_WARM_RESULT (encode_warm_result (worker_result w
        \<lparr>wc_object = object, wc_action = action_code action, wc_attempt = co_attempt_counter c\<rparr> (True, d, bs)))"
  have res: "\<exists>c'. handle_frame cid clock ?result (ordered cid object k b c) = ([], c')
      \<and> (\<exists>o'. c' = answered cid object (k + 2) u' o' c \<and> wo_state o' = WARM)" for clock
    using result_idle[OF w(3) c(6,5) i(2) c(7), where clock = clock and code = "action_code action" and d = d and bs = bs] by blast
  have react: "\<exists>w'. worker_react synthetic_hook clock ?topic ((), w) = ([?result], (), w') \<and> \<not> wk_shutdown w'" for clock
    using react_to_order[OF w(2), of clock object action "co_attempt_counter c" c] unfolding hook .
  obtain w' c' o' where r: "others_round clk wclk (s\<lparr>ps_mail := [(cid, ?topic)]\<rparr>, ordered cid object k b c)
      = (s\<lparr>ps_workers := map_set cid w' (ps_workers s)\<rparr>, c')" and o': "c' = answered cid object (k + 2) u' o' c" "wo_state o' = WARM"
    using order_round[OF q w(1), where P = "\<lambda>c'. \<exists>o'. c' = answered cid object (k + 2) u' o' c \<and> wo_state o' = WARM", OF react res] by blast
  have sent: "s\<lparr>ps_mail := ps_mail s @ [(cid, ?topic)]\<rparr> = s\<lparr>ps_mail := [(cid, ?topic)]\<rparr>" using q by (simp add: quiet_def)
  have "mt_issue (procs_world clk wclk) object action worker (out, s, c)
      = Inr (True, out, s\<lparr>ps_mail := [(cid, ?topic)]\<rparr>, ordered cid object k b c)"
    unfolding mt_issue_def by (simp add: mt_defs world_ops quiet_round[OF q] i(1) sent)
  then show ?thesis using r o' by blast
qed

lemma answered_settled: "co_in_flight_count c = 0 \<Longrightarrow> settled (answered cid object k u o' c)"
  by (simp add: settled_def answered_fields)

lemma mt_warm_runs:
  assumes "quiet s" "map_find cid (ps_workers s) = Some w" "\<not> wk_shutdown w" "in_sync cid w c"
    "co_budget c = idle_budget k u" "k \<noteq> 0" "k + 1 \<noteq> 0" "map_find mp_worker_A (co_workers c) = Some cid"
    "co_in_flight c = []" "co_in_flight_count c = 0" "\<And>x. map_find mp_object (co_objects c) = Some x \<Longrightarrow> wo_state x \<noteq> HOT"
  shows "\<exists>w' u' o'. mt_warm (procs_world clk wclk) msg msg' (out, s, c)
      = Inr (Some o', out, s\<lparr>ps_workers := map_set cid w' (ps_workers s)\<rparr>, answered cid mp_object (k + 2) u' o' c) \<and> wo_state o' = WARM"
proof -
  obtain sc w' u' o' where i: "mt_issue (procs_world clk wclk) mp_object LOAD_MODEL mp_worker_A (out, s, c) = Inr (True, out, sc)"
    "others_round clk wclk sc = (s\<lparr>ps_workers := map_set cid w' (ps_workers s)\<rparr>, answered cid mp_object (k + 2) u' o' c)" "wo_state o' = WARM"
    using order_settles[OF assms] by blast
  have "mt_warm (procs_world clk wclk) msg msg' (out, s, c)
      = Inr (Some o', out, s\<lparr>ps_workers := map_set cid w' (ps_workers s)\<rparr>, answered cid mp_object (k + 2) u' o' c)"
    unfolding mt_warm_def
    by (simp add: mt_defs i world_ops answered_settled[OF assms(10)] quiet_round[OF quiet_workers(1)[OF assms(1)]] answered_fields
        ready_object_def execution_ready_def)
  then show ?thesis using i(3) by blast
qed

lemma poll_once: "n \<noteq> 0 \<Longrightarrow> \<not> go (others sc) \<Longrightarrow> poll others go n sc = others sc"
  by (cases n) (simp_all add: Let_def)

lemma mt_spawn_runs:
  assumes "others_round clk wclk (s, c) = (s', c')" "quiet s'"
  shows "mt_spawn (procs_world clk wclk) port w b msg (out, s, c)
    = Inr (ps_next s', out, s'\<lparr>ps_next := Suc (ps_next s'), ps_starting := [(ps_next s', spawn_args port w b)]\<rparr>, c')"
  using quietD(1)[OF assms(2)] by (simp add: mt_spawn_def mt_defs world_ops assms(1))

lemma mt_registered_runs:
  assumes "others_round clk wclk (s, c) = (s', c')" "quiet s'" "registered_workers c' = 2"
  shows "mt_registered (procs_world clk wclk) msg (out, s, c) = Inr ((), out, s', c')"
  using assms(3) by (simp add: mt_registered_def mt_defs world_ops poll_once assms(1) quiet_round[OF assms(2)])

text \<open>The old authority in the coordinator of the new one.\<close>

lemma stale_hello_ok: "hello_ok (stale_hello e)"
  by (simp add: hello_ok_def stale_hello_def)

lemma stale_report_decodes:
  "\<exists>p. decode_report (encode_report (stale_report e g d)) = Inr (p, []) \<and> rp_boot p = mp_boot_A1"
proof -
  have "report_ok (stale_report e g d)"
    by (simp add: report_ok_def stale_report_def obj_wire_ok_def new_object_def transition_def)
  then show ?thesis using report_codec.dec_enc[of "stale_report e g d" "[]"] by (simp add: report_nf_def stale_report_def)
qed

lemma stale_report_refused:
  "\<not> cn_registered (conn_of cid c) \<Longrightarrow>
    handle_frame cid clock (plain_frame MT_REPORT (encode_report (stale_report e g d))) c = ([(cid, MT_ERROR, [])], c)"
  using stale_report_decodes[of e g d] by (auto simp: handle_frame_def plain_frame_def handle_report_def authority_ok_def)

lemma stale_hello_answer:
  assumes "stale_boot (stale_hello e) c"
  shows "\<exists>p. (\<forall>clock. handle_frame cid clock (plain_frame MT_HELLO (encode_hello (stale_hello e))) c = ([(cid, MT_HELLO_ACK, p)], c))
    \<and> reply_refuses (Some (plain_frame MT_HELLO_ACK p))"
proof -
  have v: "h_protocol_version (stale_hello e) = kProtocolVersion" by (simp add: stale_hello_def)
  have d: "decode_hello (encode_hello (stale_hello e)) = Inr (stale_hello e, [])"
    using decode_hello_encode[OF stale_hello_ok, of e "[]"] by (simp add: hello_nf_def stale_hello_def)
  have r: "hello_register cid (stale_hello e) c = ((False, ''stale boot (worker already registered)''), c)"
    using hello_register_cases[of "stale_hello e" c cid] assms by simp
  have ack: "decode_hello_ack (encode_hello_ack a) = Inr (a, [])" if "length (ha_reason a) < 2 ^ 32" for a
    using hello_ack_codec.dec_enc[OF that, of "[]"] by simp
  show ?thesis by (simp add: handle_frame_def plain_frame_def handle_hello_def d r v reply_refuses_def ack)
qed

text \<open>The main thread opens a connection, sends a frame and reads the reply; or reads it and closes.\<close>

lemma receive_one: "ps_mail s = [(cid, f)] \<Longrightarrow> receive cid s = (Some (Some f), s\<lparr>ps_mail := []\<rparr>)"
  by (simp add: receive_def)

lemma mt_stale_hello_runs:
  assumes "quiet s" "map_find cid (ps_workers s) = None" "stale_boot (stale_hello e) (on_connection cid c)"
  shows "mt_stale_hello (procs_world clk wclk) e (Some cid) (out, s\<lparr>ps_accepting := [cid]\<rparr>, c) = Inr (True, out, s, on_connection cid c)"
proof -
  obtain p where p: "\<And>clock. handle_frame cid clock (plain_frame MT_HELLO (encode_hello (stale_hello e))) (on_connection cid c)
      = ([(cid, MT_HELLO_ACK, p)], on_connection cid c)" "reply_refuses (Some (plain_frame MT_HELLO_ACK p))"
    using stale_hello_answer[OF assms(3)] by blast
  show ?thesis using quietD[OF assms(1)]
    by (simp add: mt_stale_hello_def mt_defs world_ops accept_round[OF assms(1)] main_frame_round[OF assms(1,2) p(1)]
        receive_one p(2) upd_same)
qed

lemma mt_stale_report_runs:
  assumes "quiet s" "map_find cid (ps_workers s) = None"
  shows "mt_stale_report (procs_world clk wclk) e g d (Some cid) (out, s\<lparr>ps_accepting := [cid]\<rparr>, c)
    = Inr ((), out, s\<lparr>ps_sockets := removeAll cid (ps_sockets s), ps_gone := [cid]\<rparr>, on_connection cid c)"
proof -
  have n: "\<not> cn_registered (conn_of cid (on_connection cid c))" by (simp add: conn_of_def on_connection_def new_conn_def)
  show ?thesis using quietD[OF assms(1)]
    by (simp add: mt_stale_report_def mt_defs world_ops accept_round[OF assms(1)] quiet_round[OF assms(1)]
        main_frame_round[OF assms stale_report_refused[OF n]] receive_one upd_same)
qed

lemma unregistered_disconnect: "\<not> cn_registered (conn_of cid c) \<Longrightarrow> on_disconnect cid clock c = c"
  by (simp add: on_disconnect_def)

lemma mt_old_authority_runs:
  assumes q: "quiet s" "ps_sockets s = []" and n: "ps_next s = n" "map_find n (ps_workers s) = None" "map_find (Suc n) (ps_workers s) = None"
    and st: "stale_boot (stale_hello e) (on_connection n c)" and ob: "\<not> ready_object (find_object mp_object c)"
  shows "mt_old_authority (procs_world clk wclk) e g d (out, s, c)
    = Inr ((), out @ ''stale boot/epoch/generation authority rejected'' @ nl, s\<lparr>ps_next := Suc (Suc n)\<rparr>, on_connection (Suc n) (on_connection n c))"
proof -
  define W where "W = procs_world clk wclk"
  define s1 where "s1 = s\<lparr>ps_next := Suc n, ps_sockets := [n]\<rparr>"
  define s2 where "s2 = s\<lparr>ps_next := Suc (Suc n), ps_sockets := [Suc n, n]\<rparr>"
  define s3 where "s3 = s\<lparr>ps_next := Suc (Suc n), ps_sockets := [n]\<rparr>"
  define s4 where "s4 = s\<lparr>ps_next := Suc (Suc n)\<rparr>"
  have qs: "quiet s1" "quiet s2" "quiet s3" "quiet s4" using q(1) by (simp_all add: s1_def s2_def s3_def s4_def quiet_workers)
  have 1: "mt_world W (pw_connect W) (out, s, c) = Inr (Some n, out, s1\<lparr>ps_accepting := [n]\<rparr>, c)"
    using quietD(2)[OF q(1)] by (simp add: mt_defs W_def world_ops quiet_round[OF q(1)] s1_def n(1) q(2))
  have 2: "mt_stale_hello W e (Some n) (out, s1\<lparr>ps_accepting := [n]\<rparr>, c) = Inr (True, out, s1, on_connection n c)"
    unfolding W_def by (rule mt_stale_hello_runs[OF qs(1) _ st]) (simp add: s1_def n(2))
  have 3: "mt_world W (pw_connect W) (out, s1, on_connection n c) = Inr (Some (Suc n), out, s2\<lparr>ps_accepting := [Suc n]\<rparr>, on_connection n c)"
    using quietD(2)[OF qs(1)] by (simp add: mt_defs W_def world_ops quiet_round[OF qs(1)]) (simp add: s1_def s2_def)
  define c2 where "c2 = on_connection (Suc n) (on_connection n c)"
  have 4: "mt_stale_report W e g d (Some (Suc n)) (out, s2\<lparr>ps_accepting := [Suc n]\<rparr>, on_connection n c)
      = Inr ((), out, s3\<lparr>ps_gone := [Suc n]\<rparr>, c2)"
    unfolding W_def c2_def using mt_stale_report_runs[OF qs(2), of "Suc n"] n(3) by (simp add: s2_def s3_def)
  have u: "\<not> cn_registered (conn_of (Suc n) c2)" "\<not> cn_registered (conn_of n c2)" by (simp_all add: c2_def conn_of_def on_connection_def new_conn_def)
  have 5: "mt_world W (\<lambda>s. ((), pw_close W n s)) (out, s3\<lparr>ps_gone := [Suc n]\<rparr>, c2) = Inr ((), out, s4\<lparr>ps_gone := [n]\<rparr>, c2)"
    using quietD(6)[OF qs(3)] quietD(5)[OF q(1)] u(1) q(2)
    by (simp add: mt_defs W_def world_ops gone_round[OF qs(3)] unregistered_disconnect) (simp add: s3_def s4_def upd_same)
  have "find_object mp_object c2 = find_object mp_object c" by (simp add: find_object_def c2_def on_connection_def)
  then have 6: "mt_look W (find_object mp_object) (out, s4\<lparr>ps_gone := [n]\<rparr>, c2) = Inr (find_object mp_object c, out, s4, c2)"
    using u(2) by (simp add: mt_defs W_def world_ops gone_round[OF qs(4)] unregistered_disconnect)
  show ?thesis
    unfolding mt_old_authority_def W_def[symmetric]
    by (simp add: prog_bind_def 1 2 3 4 5 6 mt_require_def mt_print_def ob) (simp add: s4_def c2_def)
qed

end
