(* ===== verification/Restart_Run.thy ===== *)
theory Restart_Run
  imports Restart
begin

text \<open>
  The run of \<open>run_multiprocess\<close> in the world of \<open>Restart\<close>, statement by statement: the children register, the
  object is warmed, the roll and the kill take its authority, the restarted worker registers under its new
  boot, the old authority is refused, and the object is warmed again. \<open>restart_passes\<close> puts them together.
\<close>

section \<open>The run\<close>

text \<open>The children, and the coordinator as it looks between the statements of the main thread.\<close>

definition mp_child :: "id128 \<Rightarrow> id128 \<Rightarrow> worker" where
  "mp_child i boot = new_worker i boot (derive ''node-0'') (derive ''workload-0'') ''cuda'' [''cuda:0'']
     [0, 1, 2, 3, 4, 5, 6, 7, 8, 9, 10, 11, 12, 13]"

definition mp_conn :: "id128 \<Rightarrow> id128 \<Rightarrow> conn_state" where
  "mp_conn i boot = \<lparr>cn_id = i, cn_boot = boot, cn_node = derive ''node-0'', cn_registered = True, cn_backend = ''cuda''\<rparr>"

definition mp_state ::
  "(nat, conn_state) std_map \<Rightarrow> (id128, nat) std_map \<Rightarrow> (id128, id128) std_map \<Rightarrow> (id128, id128 list) std_map \<Rightarrow>
     (id128, warmth_object) std_map \<Rightarrow> u64 \<Rightarrow> (u8, u64) std_map \<Rightarrow> u64 \<Rightarrow> generation \<Rightarrow> u64 \<Rightarrow> coordinator" where
  "mp_state conns workers boots held objs k u a e g = new_coordinator\<lparr>co_epoch := e, co_warmth_gen := g, co_dep_gen := g,
     co_conns := conns, co_workers := workers, co_last_boot := boots, co_worker_objects := held, co_objects := objs,
     co_budget := idle_budget k u, co_attempt_counter := a\<rparr>"

lemma mp_state_fields [simp]:
  fixes conns workers boots held objs k u a e g
  defines "c \<equiv> mp_state conns workers boots held objs k u a e g"
  shows "co_epoch c = e" "co_warmth_gen c = g" "co_dep_gen c = g" "co_conns c = conns" "co_workers c = workers" "co_last_boot c = boots"
    "co_worker_objects c = held" "co_objects c = objs" "co_budget c = idle_budget k u" "co_attempt_counter c = a"
    "co_in_flight c = []" "co_in_flight_count c = 0" "co_policy_gen c = 1" "co_policy c = policy_defaults 1"
  unfolding c_def by (simp_all add: mp_state_def new_coordinator_def)

lemma mp_state_new: "new_coordinator = mp_state [] [] [] [] [] 1 [] 1 gen_initial 0"
  by (simp add: mp_state_def new_coordinator_def idle_budget_def new_tracker_def)

lemma mp_child_ok: "worker_of_args (spawn_args port i boot) = mp_child i boot" "hello_ok (worker_hello (mp_child i boot))"
  "wk_observed (mp_child i boot) = []" "\<not> wk_shutdown (joined_worker (mp_child i boot) c)"
  by (simp_all add: spawned_worker mp_child_def hello_ok_def worker_hello_def new_worker_def joined_worker_def)

lemma mp_connect: "on_connection cid (mp_state conns workers boots held objs k u a e g) = mp_state (map_set cid new_conn conns) workers boots held objs k u a e g"
  by (simp add: on_connection_def mp_state_def)

lemma mp_conn_of: "conn_of cid (mp_state conns workers boots held objs k u a e g) = (case map_find cid conns of Some cs \<Rightarrow> cs | None \<Rightarrow> new_conn)"
  by (simp add: conn_of_def)

text \<open>Registration of a name not seen before, and of one whose last boot was another.\<close>

lemma mp_join_fresh:
  assumes "map_find i boots = None" "map_find i workers = None"
  shows "joined cid (mp_child i boot) (mp_state conns workers boots held objs k u a e g)
    = mp_state (map_set cid (mp_conn i boot) (map_set cid new_conn conns)) (map_set i cid workers) (map_set i boot boots) held objs k u a e g"
  using assms by (simp add: joined_def mp_connect hello_register_def worker_hello_def mp_child_def new_worker_def Let_def)
    (simp add: mp_state_def mp_conn_def)

text \<open>The steps of the run that are particular to it.\<close>

lemma mp_answered:
  "map_find cid conns = Some (mp_conn i boot) \<Longrightarrow>
    answered cid x k' u' o' (mp_state conns workers boots held objs k u a e g) =
      mp_state conns workers boots (map_set i (set_insert x (case map_find i held of Some l \<Rightarrow> l | None \<Rightarrow> [])) held) (map_set x o' objs) k' u' (a + 1) e g"
  by (simp add: answered_def mp_conn_of worker_objects_insert_def) (simp add: mp_conn_def mp_state_def)

lemma mp_roll:
  "roll_epoch (mp_state conns workers boots held [(x, o')] k u a e g)
    = mp_state conns workers boots held [(x, lose_authority ''authority roll'' ''coordinator_epoch_rolled'' o')] k u a (gen_next e) (g + 1)"
  by (simp add: roll_epoch_def) (simp add: mp_state_def map_update_all_def new_coordinator_def)

lemma mp_disconnect:
  "on_disconnect 0 clock (mp_state [(0, mp_conn mp_worker_A b), (1, cs)] [(mp_worker_B, 1), (mp_worker_A, 0)] boots [(mp_worker_A, [x])] [(x, o')] k u a e g)
    = mp_state [(0, mp_conn mp_worker_A b), (1, cs)] [(mp_worker_B, 1)] boots [(mp_worker_A, [x])]
        [(x, disconnect_object (pol_decay (policy_defaults 1)) (clock 0) o')] k u a e g"
  using process_ids
  by (simp add: on_disconnect_def mp_conn_of mp_conn_def on_worker_objects_def map_modify_def Let_def)

lemma mp_rejoin:
  "joined 2 (mp_child mp_worker_A mp_boot_A2) (mp_state [(0, c0), (1, c1)] [(mp_worker_B, 1)] [(mp_worker_B, b), (mp_worker_A, mp_boot_A1)]
      [(mp_worker_A, [x])] [(x, o')] k u a e g)
    = mp_state [(0, c0), (1, c1), (2, mp_conn mp_worker_A mp_boot_A2)] [(mp_worker_B, 1), (mp_worker_A, 2)]
        [(mp_worker_B, b), (mp_worker_A, mp_boot_A2)] [(mp_worker_A, [])]
        [(x, lose_authority ''worker_boot_changed'' ''worker_boot_changed'' o')] k u a e g"
  using process_ids
  by (simp add: joined_def mp_connect hello_register_def worker_hello_def mp_child_def new_worker_def
      invalidate_worker_objects_locked_def on_worker_objects_def map_modify_def Let_def) (simp add: mp_state_def mp_conn_def)

text \<open>An object that has lost its authority stays so.\<close>

lemma mp_lost:
  "wo_state o' = WARM \<Longrightarrow> wo_state (lose_authority why r o') = INVALIDATED"
  "wo_state o' = INVALIDATED \<Longrightarrow> wo_state (lose_authority why r o') = INVALIDATED"
  "wo_state o' = INVALIDATED \<Longrightarrow> wo_state (disconnect_object p t o') = INVALIDATED"
  by (simp_all add: lose_authority_state disconnect_object_def decay_object_def decay_unchanged_def Let_def)

definition idle_procs :: "nat \<Rightarrow> (nat, worker) std_map \<Rightarrow> procs" where
  "idle_procs n ws = no_procs\<lparr>ps_next := n, ps_workers := ws\<rparr>"

lemma idle_procs: "quiet (idle_procs n ws)" "ps_next (idle_procs n ws) = n" "ps_workers (idle_procs n ws) = ws" "ps_sockets (idle_procs n ws) = []"
  "idle_procs n ws\<lparr>ps_next := n'\<rparr> = idle_procs n' ws" "idle_procs n ws\<lparr>ps_workers := ws'\<rparr> = idle_procs n ws'"
  by (simp_all add: idle_procs_def no_procs_def quiet_def)

text \<open>Starting a child and letting it join.\<close>

lemma spawn_idle:
  "mt_spawn (procs_world clk wclk) port i b msg (out, idle_procs n ws, c)
    = Inr (n, out, idle_procs (Suc n) ws\<lparr>ps_starting := [(n, spawn_args port i b)]\<rparr>, c)"
  by (simp add: mt_spawn_runs[OF quiet_round[OF idle_procs(1)] idle_procs(1)] idle_procs)

lemma join_idle:
  "\<not> stale_boot (worker_hello (mp_child i b)) (on_connection cid c) \<Longrightarrow>
    others_round clk wclk (idle_procs n ws\<lparr>ps_starting := [(cid, spawn_args port i b)]\<rparr>, c)
      = (idle_procs n (map_set cid (joined_worker (mp_child i b) c) ws), joined cid (mp_child i b) c)"
  by (subst join_round[OF idle_procs(1) mp_child_ok(1-3)]) (simp_all add: idle_procs)

definition mp_two :: coordinator where
  "mp_two = mp_state [(0, mp_conn mp_worker_A mp_boot_A1), (1, mp_conn mp_worker_B mp_boot_B)] [(mp_worker_B, 1), (mp_worker_A, 0)]
     [(mp_worker_B, mp_boot_B), (mp_worker_A, mp_boot_A1)] [] [] 1 [] 1 gen_initial 0"

lemma two_register:
  assumes "W = procs_world clk wclk"
  shows "\<exists>wA wB s. mt_spawn W port mp_worker_A mp_boot_A1 m1 ([], no_procs, new_coordinator)
      = Inr (0, [], idle_procs 1 []\<lparr>ps_starting := [(0, spawn_args port mp_worker_A mp_boot_A1)]\<rparr>, new_coordinator)
    \<and> mt_spawn W port mp_worker_B mp_boot_B m2 ([], idle_procs 1 []\<lparr>ps_starting := [(0, spawn_args port mp_worker_A mp_boot_A1)]\<rparr>, new_coordinator)
      = Inr (1, [], s) \<and> mt_registered W m3 ([], s) = Inr ((), [], idle_procs 2 [(0, wA), (1, wB)], mp_two)
    \<and> in_sync 0 wA mp_two \<and> \<not> wk_shutdown wA"
proof -
  let ?A = "mp_child mp_worker_A mp_boot_A1" and ?B = "mp_child mp_worker_B mp_boot_B"
  define c1 where "c1 = mp_state [(0, mp_conn mp_worker_A mp_boot_A1)] [(mp_worker_A, 0)] [(mp_worker_A, mp_boot_A1)] [] [] 1 [] 1 gen_initial 0"
  have c1: "joined 0 ?A new_coordinator = c1" unfolding mp_state_new c1_def by (subst mp_join_fresh) simp_all
  have c2: "joined 1 ?B c1 = mp_two" unfolding c1_def mp_two_def by (subst mp_join_fresh) (use process_ids in simp_all)
  have st: "\<not> stale_boot (worker_hello ?A) (on_connection 0 new_coordinator)" "\<not> stale_boot (worker_hello ?B) (on_connection 1 c1)"
    using process_ids by (simp_all add: stale_boot_def on_connection_def new_coordinator_def c1_def worker_hello_def mp_child_def new_worker_def)
  have no: "no_procs = idle_procs 0 []" by (simp add: idle_procs_def no_procs_def)
  have j1: "others_round clk wclk (idle_procs 1 []\<lparr>ps_starting := [(0, spawn_args port mp_worker_A mp_boot_A1)]\<rparr>, new_coordinator)
      = (idle_procs 1 [(0, joined_worker ?A new_coordinator)], c1)" by (simp add: join_idle[OF st(1)] c1)
  have j2: "others_round clk wclk (idle_procs 2 [(0, w)]\<lparr>ps_starting := [(1, spawn_args port mp_worker_B mp_boot_B)]\<rparr>, c1)
      = (idle_procs 2 [(0, w), (1, joined_worker ?B c1)], mp_two)" for w
    using join_idle[OF st(2), of clk wclk port 2 "[(0, w)]"] c2 by simp
  have "registered_workers mp_two = 2" by (simp add: registered_workers_def mp_two_def)
  moreover have "in_sync 0 (joined_worker ?A new_coordinator) mp_two"
    by (simp add: in_sync_def authority_ok_def mp_two_def mp_conn_of mp_conn_def joined_worker_def mp_child_def new_worker_def new_coordinator_def)
  ultimately show ?thesis
    using spawn_idle[of clk wclk port mp_worker_A mp_boot_A1 m1 "[]" 0 "[]" new_coordinator] mt_spawn_runs[OF j1 idle_procs(1), of port mp_worker_B mp_boot_B m2 "[]"]
      mt_registered_runs[OF j2 idle_procs(1)] mp_child_ok(4)
    by (simp add: assms no idle_procs numeral_2_eq_2) blast
qed

section \<open>The statements of this run\<close>

text \<open>The coordinator after the first order, after the roll, after the kill, and after the restart.\<close>

definition mp_pair :: "nat \<Rightarrow> (id128, nat) std_map \<Rightarrow> u64 \<Rightarrow> (u8, u64) std_map \<Rightarrow> u64 \<Rightarrow> generation \<Rightarrow> u64 \<Rightarrow> warmth_object \<Rightarrow> coordinator" where
  "mp_pair n workers k u a e g o' = mp_state [(0, mp_conn mp_worker_A mp_boot_A1), (1, mp_conn mp_worker_B mp_boot_B)] workers
     [(mp_worker_B, mp_boot_B), (mp_worker_A, mp_boot_A1)] [(mp_worker_A, [mp_object])] [(mp_object, o')] k u a e g"

definition mp_back :: "(nat, conn_state) std_map \<Rightarrow> id128 list \<Rightarrow> u64 \<Rightarrow> (u8, u64) std_map \<Rightarrow> u64 \<Rightarrow> generation \<Rightarrow> u64 \<Rightarrow> warmth_object \<Rightarrow> coordinator" where
  "mp_back conns held k u a e g o' = mp_state ([(0, mp_conn mp_worker_A mp_boot_A1), (1, mp_conn mp_worker_B mp_boot_B),
      (2, mp_conn mp_worker_A mp_boot_A2)] @ conns) [(mp_worker_B, 1), (mp_worker_A, 2)]
     [(mp_worker_B, mp_boot_B), (mp_worker_A, mp_boot_A2)] [(mp_worker_A, held)] [(mp_object, o')] k u a e g"

lemma look_idle: "mt_look (procs_world clk wclk) f (out, idle_procs n ws, c) = Inr (f c, out, idle_procs n ws, c)"
  by (simp add: mt_defs world_ops quiet_round[OF idle_procs(1)])

lemma co_idle: "mt_co (procs_world clk wclk) (\<lambda>c. ((), f c)) (out, idle_procs n ws, c) = Inr ((), out, idle_procs n ws, f c)"
  by (simp add: mt_defs world_ops quiet_round[OF idle_procs(1)])

lemma warm_first:
  assumes "in_sync 0 wA mp_two" "\<not> wk_shutdown wA"
  shows "\<exists>w' u o'. mt_warm (procs_world clk wclk) msg msg' (out, idle_procs 2 [(0, wA), (1, wB)], mp_two)
    = Inr (Some o', out, idle_procs 2 [(0, w'), (1, wB)], mp_pair 0 [(mp_worker_B, 1), (mp_worker_A, 0)] 3 u 2 gen_initial 0 o') \<and> wo_state o' = WARM"
proof -
  have k: "(1::u64) + 1 \<noteq> 0" "(1::u64) + 2 = 3" "(1::u64) + 1 = 2" by simp_all
  have a: "answered 0 mp_object 3 u o' mp_two = mp_pair 0 [(mp_worker_B, 1), (mp_worker_A, 0)] 3 u 2 gen_initial 0 o'" for u o'
    unfolding mp_two_def mp_pair_def by (subst mp_answered[where boot = mp_boot_A1]) (simp_all add: set_insert_def k(3))
  show ?thesis
    using mt_warm_runs[OF idle_procs(1), of 0 2 "[(0, wA), (1, wB)]" wA mp_two 1 "[]" clk wclk msg msg' out] assms process_ids
    by (simp add: mp_two_def[symmetric] k a idle_procs) (simp add: mp_two_def)
qed

lemma kill_idle:
  "mt_world (procs_world clk wclk) (\<lambda>s. ((), pw_kill (procs_world clk wclk) 0 s)) (out, idle_procs n [(0, w), (1, wB)], c)
    = Inr ((), out, idle_procs n [(1, wB)]\<lparr>ps_gone := [0]\<rparr>, c)"
  by (simp add: mt_defs world_ops quiet_round[OF idle_procs(1)]) (simp add: kill_process_def idle_procs_def no_procs_def)

lemma poll_killed:
  assumes "wo_state o' = INVALIDATED"
  shows "\<exists>o''. mt_poll (procs_world clk wclk) 200 (\<lambda>c. 2 \<le> registered_workers c)
      (out, idle_procs n ws\<lparr>ps_gone := [0]\<rparr>, mp_pair 0 [(mp_worker_B, 1), (mp_worker_A, 0)] k u a e g o')
    = Inr ((), out, idle_procs n ws, mp_pair 0 [(mp_worker_B, 1)] k u a e g o'') \<and> wo_state o'' = INVALIDATED"
proof -
  define t where "t = clk (idle_procs n ws\<lparr>ps_gone := [0]\<rparr>)"
  define o'' where "o'' = disconnect_object (pol_decay (policy_defaults 1)) (t 0) o'"
  have d: "on_disconnect 0 t (mp_pair 0 [(mp_worker_B, 1), (mp_worker_A, 0)] k u a e g o') = mp_pair 0 [(mp_worker_B, 1)] k u a e g o''"
    unfolding mp_pair_def o''_def by (rule mp_disconnect)
  have "\<not> 2 \<le> registered_workers (mp_pair 0 [(mp_worker_B, 1)] k u a e g o'')" by (simp add: registered_workers_def mp_pair_def)
  then show ?thesis using mp_lost(3)[OF assms]
    by (intro exI[of _ o'']) (simp add: mt_poll_def world_ops poll_once gone_round[OF idle_procs(1)] t_def[symmetric] d o''_def del: One_nat_def)
qed

lemma restart_registers:
  assumes "wo_state o' = INVALIDATED"
  shows "\<exists>w o''. mt_registered (procs_world clk wclk) msg (out, idle_procs 3 [(1, wB)]\<lparr>ps_starting := [(2, spawn_args port mp_worker_A mp_boot_A2)]\<rparr>,
      mp_pair 0 [(mp_worker_B, 1)] k u a e g o')
    = Inr ((), out, idle_procs 3 [(1, wB), (2, w)], mp_back [] [] k u a e g o'') \<and> wo_state o'' = INVALIDATED
      \<and> in_sync 2 w (mp_back cs [] k u a e g o'') \<and> \<not> wk_shutdown w"
proof -
  let ?c = "mp_pair 0 [(mp_worker_B, 1)] k u a e g o'" and ?w = "mp_child mp_worker_A mp_boot_A2"
  define o'' where "o'' = lose_authority ''worker_boot_changed'' ''worker_boot_changed'' o'"
  have j: "joined 2 ?w ?c = mp_back [] [] k u a e g o''"
    unfolding mp_pair_def mp_back_def o''_def using mp_rejoin by simp
  have "\<not> stale_boot (worker_hello ?w) (on_connection 2 ?c)"
    using process_ids by (simp add: stale_boot_def on_connection_def mp_pair_def worker_hello_def mp_child_def new_worker_def)
  from join_idle[OF this, of clk wclk port 3 "[(1, wB)]"]
  have "others_round clk wclk (idle_procs 3 [(1, wB)]\<lparr>ps_starting := [(2, spawn_args port mp_worker_A mp_boot_A2)]\<rparr>, ?c)
      = (idle_procs 3 [(1, wB), (2, joined_worker ?w ?c)], mp_back [] [] k u a e g o'')" by (simp add: j del: One_nat_def)
  note r = mt_registered_runs[OF this idle_procs(1)]
  have "registered_workers (mp_back [] [] k u a e g o'') = 2" by (simp add: registered_workers_def mp_back_def)
  moreover have "in_sync 2 (joined_worker ?w ?c) (mp_back cs [] k u a e g o'')"
    by (simp add: in_sync_def authority_ok_def mp_back_def mp_conn_of mp_conn_def joined_worker_def mp_child_def new_worker_def mp_pair_def)
  ultimately show ?thesis using r mp_lost(2)[OF assms] mp_child_ok(4)
    by (intro exI[of _ "joined_worker ?w ?c"] exI[of _ o'']) (simp add: o''_def del: One_nat_def)
qed

lemma old_authority_refused:
  assumes "wo_state o' = INVALIDATED"
  shows "mt_old_authority (procs_world clk wclk) e0 g0 d0 (out, idle_procs 3 [(1, wB), (2, w)], mp_back [] [] k u a e g o')
    = Inr ((), out @ ''stale boot/epoch/generation authority rejected'' @ nl, idle_procs 5 [(1, wB), (2, w)],
        mp_back [(3, new_conn), (4, new_conn)] [] k u a e g o')"
proof -
  let ?c = "mp_back [] [] k u a e g o'"
  have st: "stale_boot (stale_hello e0) (on_connection 3 ?c)"
    using process_ids by (simp add: stale_boot_def stale_hello_def mp_back_def mp_connect mp_conn_of mp_conn_def)
  have ob: "\<not> ready_object (find_object mp_object ?c)"
    using assms by (simp add: ready_object_def find_object_def mp_back_def execution_ready_def)
  have oc: "on_connection 4 (on_connection 3 ?c) = mp_back [(3, new_conn), (4, new_conn)] [] k u a e g o'"
    by (simp add: mp_back_def mp_connect)
  show ?thesis
    using mt_old_authority_runs[OF idle_procs(1,4) idle_procs(2) _ _ st ob] oc by (simp add: idle_procs)
qed

lemma warm_again:
  assumes "in_sync 2 w c" "\<not> wk_shutdown w" "c = mp_back conns [] 3 u a e g o'" "wo_state o' = INVALIDATED"
  shows "\<exists>w' u o''. mt_warm (procs_world clk wclk) msg msg' (out, idle_procs 5 [(1, wB), (2, w)], c)
    = Inr (Some o'', out, idle_procs 5 [(1, wB), (2, w')], answered 2 mp_object 5 u o'' c) \<and> wo_state o'' = WARM"
proof -
  have k: "(3::u64) + 1 \<noteq> 0" "(3::u64) + 2 = 5" "(3::u64) \<noteq> 0" by simp_all
  show ?thesis
    using mt_warm_runs[OF idle_procs(1), of 2 5 "[(1, wB), (2, w)]" w c 3 u clk wclk msg msg' out] assms process_ids
    by (simp add: k idle_procs) (simp add: mp_back_def)
qed

text \<open>The output, and the whole run.\<close>

definition restart_log :: "string list" where
  "restart_log = [''warmed object on A under epoch 0, warm-gen 0, dep-gen 0'', ''after kill+roll: object state=INVALIDATED ready=no'',
     ''stale boot/epoch/generation authority rejected'', ''fresh warming under current authority accepted: state=WARM'',
     ''budget accounting returns to zero (outstanding=0)'', ''atomic multiprocess restart proof PASSED'']"

lemma zero_digits: "nat_digits 0 = ''0''"
  by code_simp

lemmas observe_defs = zero_digits state_text_def ready_object_def find_object_def execution_ready_def yes_no_def show_u64_def co_current_epoch_def
  co_warmth_generation_def co_dependency_generation_def co_balanced_def outstanding_budget_def outstanding_def idle_budget_def gen_initial_def

lemma roll_pair:
  "roll_epoch (mp_pair n ws k u a e g o') = mp_pair n ws k u a (gen_next e) (g + 1) (lose_authority ''authority roll'' ''coordinator_epoch_rolled'' o')"
  unfolding mp_pair_def by (rule mp_roll)

lemma ended:
  "mt_world (procs_world clk wclk) (\<lambda>s. ((), pw_kill (procs_world clk wclk) 1 (pw_kill (procs_world clk wclk) 2 s))) (out, idle_procs 5 [(1, wB), (2, w)], c)
    = Inr ((), out, idle_procs 5 []\<lparr>ps_gone := [2, 1]\<rparr>, c)"
  by (simp add: mt_defs world_ops quiet_round[OF idle_procs(1)]) (simp add: kill_process_def idle_procs_def no_procs_def)

lemma two_workers:
  "\<exists>wA wB s. mt_spawn (procs_world clk wclk) port mp_worker_A mp_boot_A1 ''spawn worker A failed'' ([], no_procs, new_coordinator) = Inr (0, [], fst s, new_coordinator)
    \<and> mt_spawn (procs_world clk wclk) port mp_worker_B mp_boot_B ''spawn worker B failed'' ([], fst s, new_coordinator) = Inr (1, [], snd s)
    \<and> mt_registered (procs_world clk wclk) ''workers did not register'' ([], snd s) = Inr ((), [], idle_procs 2 [(0, wA), (1, wB)], mp_two)
    \<and> in_sync 0 wA mp_two \<and> \<not> wk_shutdown wA"
  using two_register[OF refl, of clk wclk port "''spawn worker A failed''" "''spawn worker B failed''" "''workers did not register''"]
  by (metis fst_conv snd_conv)

text \<open>From the two workers to the restarted one.\<close>

lemma restart_reached:
  assumes "wo_state o1 = WARM" "c = mp_pair 0 [(mp_worker_B, 1), (mp_worker_A, 0)] 3 u 2 gen_initial 0 o1"
  shows "\<exists>o2 w o3. mt_poll (procs_world clk wclk) 200 (\<lambda>c. 2 \<le> registered_workers c) (out, idle_procs 2 [(1, wB)]\<lparr>ps_gone := [0]\<rparr>, roll_epoch c)
      = Inr ((), out, idle_procs 2 [(1, wB)], mp_pair 0 [(mp_worker_B, 1)] 3 u 2 (gen_next gen_initial) 1 o2)
    \<and> wo_state o2 = INVALIDATED
    \<and> mt_registered (procs_world clk wclk) msg (out', idle_procs 3 [(1, wB)]\<lparr>ps_starting := [(2, spawn_args port mp_worker_A mp_boot_A2)]\<rparr>,
        mp_pair 0 [(mp_worker_B, 1)] 3 u 2 (gen_next gen_initial) 1 o2)
      = Inr ((), out', idle_procs 3 [(1, wB), (2, w)], mp_back [] [] 3 u 2 (gen_next gen_initial) 1 o3)
    \<and> wo_state o3 = INVALIDATED \<and> in_sync 2 w (mp_back [(3, new_conn), (4, new_conn)] [] 3 u 2 (gen_next gen_initial) 1 o3) \<and> \<not> wk_shutdown w"
proof -
  define o1' where "o1' = lose_authority ''authority roll'' ''coordinator_epoch_rolled'' o1"
  have o1': "wo_state o1' = INVALIDATED" unfolding o1'_def by (rule mp_lost(1)[OF assms(1)])
  have roll: "roll_epoch c = mp_pair 0 [(mp_worker_B, 1), (mp_worker_A, 0)] 3 u 2 (gen_next gen_initial) 1 o1'"
    by (simp add: assms(2) roll_pair o1'_def del: One_nat_def)
  obtain o2 where o2: "mt_poll (procs_world clk wclk) 200 (\<lambda>c. 2 \<le> registered_workers c) (out, idle_procs 2 [(1, wB)]\<lparr>ps_gone := [0]\<rparr>, roll_epoch c)
      = Inr ((), out, idle_procs 2 [(1, wB)], mp_pair 0 [(mp_worker_B, 1)] 3 u 2 (gen_next gen_initial) 1 o2)" "wo_state o2 = INVALIDATED"
    unfolding roll using poll_killed[OF o1'] by blast
  then show ?thesis
    using restart_registers[OF o2(2), where cs = "[(3, new_conn), (4, new_conn)]"] by blast
qed

lemma restart_passes: "run_multiprocess (procs_world clk wclk) (Some port) no_procs = Returns 0 (concat (map (\<lambda>l. l @ nl) restart_log)) []"
proof -
  let ?W = "procs_world clk wclk"
  obtain wA wB s where a: "mt_spawn ?W port mp_worker_A mp_boot_A1 ''spawn worker A failed'' ([], no_procs, new_coordinator) = Inr (0, [], fst s, new_coordinator)"
    "mt_spawn ?W port mp_worker_B mp_boot_B ''spawn worker B failed'' ([], fst s, new_coordinator) = Inr (1, [], snd s)"
    "mt_registered ?W ''workers did not register'' ([], snd s) = Inr ((), [], idle_procs 2 [(0, wA), (1, wB)], mp_two)"
    "in_sync 0 wA mp_two" "\<not> wk_shutdown wA" using two_workers[of clk wclk port] by blast
  obtain wA' u o1 where b: "mt_warm ?W ''issue_warm A failed'' ''warm on A not ready'' ([], idle_procs 2 [(0, wA), (1, wB)], mp_two)
    = Inr (Some o1, [], idle_procs 2 [(0, wA'), (1, wB)], mp_pair 0 [(mp_worker_B, 1), (mp_worker_A, 0)] 3 u 2 gen_initial 0 o1)" "wo_state o1 = WARM"
    using warm_first[OF a(4,5)] by blast
  define c1 where "c1 = mp_pair 0 [(mp_worker_B, 1), (mp_worker_A, 0)] 3 u 2 gen_initial 0 o1"
  let ?out = "\<lambda>n. concat (map (\<lambda>l. l @ nl) (take n restart_log))"
  obtain o2 w o3 where c: "mt_poll ?W 200 (\<lambda>c. 2 \<le> registered_workers c) (?out 1, idle_procs 2 [(1, wB)]\<lparr>ps_gone := [0]\<rparr>, roll_epoch c1)
      = Inr ((), ?out 1, idle_procs 2 [(1, wB)], mp_pair 0 [(mp_worker_B, 1)] 3 u 2 (gen_next gen_initial) 1 o2)" "wo_state o2 = INVALIDATED"
    "mt_registered ?W ''worker A v2 not registered'' (?out 2, idle_procs 3 [(1, wB)]\<lparr>ps_starting := [(2, spawn_args port mp_worker_A mp_boot_A2)]\<rparr>,
        mp_pair 0 [(mp_worker_B, 1)] 3 u 2 (gen_next gen_initial) 1 o2)
      = Inr ((), ?out 2, idle_procs 3 [(1, wB), (2, w)], mp_back [] [] 3 u 2 (gen_next gen_initial) 1 o3)"
    "wo_state o3 = INVALIDATED" "in_sync 2 w (mp_back [(3, new_conn), (4, new_conn)] [] 3 u 2 (gen_next gen_initial) 1 o3)" "\<not> wk_shutdown w"
    using restart_reached[OF b(2) c1_def] by blast
  define c4 where "c4 = mp_back [(3, new_conn), (4, new_conn)] [] 3 u 2 (gen_next gen_initial) 1 o3"
  obtain w' u' o4 where d: "mt_warm ?W ''fresh issue_warm failed'' ''fresh warm not ready'' (?out 3, idle_procs 5 [(1, wB), (2, w)], c4)
    = Inr (Some o4, ?out 3, idle_procs 5 [(1, wB), (2, w')], answered 2 mp_object 5 u' o4 c4)" "wo_state o4 = WARM"
    using warm_again[OF c(5,6)[folded c4_def] c4_def c(4)] by blast
  let ?c3 = "mp_pair 0 [(mp_worker_B, 1)] 3 u 2 (gen_next gen_initial) 1 o2" and ?c5 = "answered 2 mp_object 5 u' o4 c4"
  have p1: "mt_print (''warmed object on A under epoch '' @ show_u64 (co_current_epoch c1) @ '', warm-gen '' @ show_u64 (co_warmth_generation c1)
      @ '', dep-gen '' @ show_u64 (co_dependency_generation c1)) ([], sc) = Inr ((), ?out 1, sc)" for sc
    by (simp add: mt_print_def restart_log_def c1_def mp_pair_def observe_defs)
  have p2: "mt_print (''after kill+roll: object state='' @ state_text (find_object mp_object ?c3) @ '' ready='' @ yes_no (ready_object (find_object mp_object ?c3))) (?out 1, sc)
      = Inr ((), ?out 2, sc)" "mt_require (\<not> ready_object (find_object mp_object ?c3)) m (?out 2, sc) = Inr ((), ?out 2, sc)" for sc m
    using c(2) by (simp_all add: mt_defs restart_log_def mp_pair_def observe_defs)
  have s3: "mt_spawn ?W port mp_worker_A mp_boot_A2 m (?out 2, idle_procs 2 [(1, wB)], c)
      = Inr (2, ?out 2, idle_procs 3 [(1, wB)]\<lparr>ps_starting := [(2, spawn_args port mp_worker_A mp_boot_A2)]\<rparr>, c)" for m c
    using spawn_idle[of clk wclk port mp_worker_A mp_boot_A2 m "?out 2" 2] by simp
  have old: "mt_old_authority ?W e0 g0 d0 (?out 2, idle_procs 3 [(1, wB), (2, w)], mp_back [] [] 3 u 2 (gen_next gen_initial) 1 o3)
      = Inr ((), ?out 3, idle_procs 5 [(1, wB), (2, w)], c4)" for e0 g0 d0
    using old_authority_refused[OF c(4)] by (simp add: restart_log_def c4_def)
  have p4: "mt_print (''fresh warming under current authority accepted: state='' @ state_text (Some o4)) (?out 3, sc) = Inr ((), ?out 4, sc)"
    "mt_require (co_balanced ?c5) m (?out 4, sc) = Inr ((), ?out 4, sc)"
    "mt_print (''budget accounting returns to zero (outstanding='' @ nat_digits (outstanding_budget ?c5) @ '')'') (?out 4, sc) = Inr ((), ?out 5, sc)" for sc m
    using d(2) by (simp_all add: mt_defs restart_log_def observe_defs answered_fields)
  have "multiprocess_main ?W port ([], no_procs, new_coordinator) = Inr ((), ?out 5, idle_procs 5 []\<lparr>ps_gone := [2, 1]\<rparr>, ?c5)"
    unfolding multiprocess_main_def
    by (simp only: prog_bind_def sum.case prod.case a(1-3) b(1)[folded c1_def] look_idle p1 co_idle kill_idle c(1,3) p2 s3 old d(1) p4 ended)
  then show ?thesis by (simp add: run_multiprocess_def procs_world_def idle_procs_def no_procs_def leave_def restart_log_def)
qed

end
