(* ===== verification/Windows_Cli.thy ===== *)
theory Windows_Cli
  imports Multiprocess
begin

text \<open>
  The rest of the Windows build of \<open>tools/warmth_cli.cpp\<close>: the command line \<open>spawn_child\<close> writes and the way the
  C runtime of the child splits it again, the launcher of the CUDA demo, and the dispatch of \<open>main\<close> with both.
\<close>

section \<open>The command line of a child\<close>

abbreviation (input) quote :: char where "quote \<equiv> CHR 0x22"
abbreviation (input) backslash :: char where "backslash \<equiv> CHR 0x5C"

definition quoted :: "string \<Rightarrow> string" where
  "quoted s = quote # s @ [quote]"

definition spawn_command :: "string \<Rightarrow> string list \<Rightarrow> string" where
  "spawn_command exe args = quoted exe @ concat (map (\<lambda>a. CHR '' '' # quoted a) args)"

text \<open>The documented rules for \<open>argv\<close>: blanks separate outside quotation marks; \<open>k\<close> backslashes before a
  quotation mark count half, an odd one makes the mark literal, and so does a second mark in a quoted part;
  other backslashes stand for themselves. The program name ends at its closing mark.\<close>

fun win_args :: "bool \<Rightarrow> nat \<Rightarrow> string option \<Rightarrow> string \<Rightarrow> string list" where
  "win_args q k cur [] = (case cur of None \<Rightarrow> [] | Some a \<Rightarrow> [a @ replicate k backslash])"
| "win_args q k cur (c # s) =
    (let a = case_option [] id cur in
     if c = backslash then win_args q (Suc k) (Some a) s
     else if c = quote then
       if odd k then win_args q 0 (Some (a @ replicate (k div 2) backslash @ [quote])) s
       else if q \<and> s \<noteq> [] \<and> hd s = quote then win_args True 0 (Some (a @ replicate (k div 2) backslash @ [quote])) (tl s)
       else win_args (\<not> q) 0 (Some (a @ replicate (k div 2) backslash)) s
     else if \<not> q \<and> (c = CHR '' '' \<or> c = CHR 0x09) then
       (case cur of None \<Rightarrow> win_args False 0 None s | Some _ \<Rightarrow> (a @ replicate k backslash) # win_args False 0 None s)
     else win_args q 0 (Some (a @ replicate k backslash @ [c])) s)"

definition win_argv :: "string \<Rightarrow> string list" where
  "win_argv s = (case s of [] \<Rightarrow> [] | c # t \<Rightarrow>
     if c = quote then win_args False 0 None (tl (dropWhile (\<lambda>c. c \<noteq> quote) t))
     else win_args False 0 None (dropWhile (\<lambda>c. c \<noteq> CHR '' '' \<and> c \<noteq> CHR 0x09) s))"

text \<open>\<open>spawn_child\<close> escapes nothing, so an argument must have no quotation mark and no backslash at its end.\<close>

definition plain_arg :: "string \<Rightarrow> bool" where
  "plain_arg a \<longleftrightarrow> quote \<notin> set a \<and> (a \<noteq> [] \<longrightarrow> last a \<noteq> backslash)"

lemma win_args_inside:
  assumes "quote \<notin> set a" "a = [] \<Longrightarrow> k = 0" "a \<noteq> [] \<Longrightarrow> last a \<noteq> backslash" "s = [] \<or> hd s \<noteq> quote"
  shows "win_args True k (Some cur) (a @ quote # s) = win_args False 0 (Some (cur @ replicate k backslash @ a)) s"
  using assms
proof (induction a arbitrary: k cur)
  case Nil
  then show ?case by auto
next
  case (Cons c a)
  show ?case
  proof (cases "c = backslash")
    case True
    have "a \<noteq> []" using Cons.prems(3) True by auto
    then show ?thesis using Cons.IH[of "Suc k" cur] Cons.prems True by (simp add: replicate_append_same[symmetric])
  next
    case False
    have l: "last a \<noteq> backslash" if "a \<noteq> []" using Cons.prems(3) that by simp
    have c: "c \<noteq> quote" "quote \<notin> set a" using Cons.prems(1) by auto
    show ?thesis using Cons.IH[OF c(2) refl l Cons.prems(4), of "cur @ replicate k backslash @ [c]"] False c(1) by simp
  qed
qed

lemma win_args_quoted:
  assumes "list_all plain_arg args"
  shows "win_args False 0 None (concat (map (\<lambda>a. CHR '' '' # quoted a) args)) = args
    \<and> win_args False 0 (Some b) (concat (map (\<lambda>a. CHR '' '' # quoted a) args)) = b # args"
  using assms
proof (induction args arbitrary: b)
  case (Cons a args)
  have "concat (map (\<lambda>a. CHR '' '' # quoted a) args) = [] \<or> hd (concat (map (\<lambda>a. CHR '' '' # quoted a) args)) \<noteq> quote"
    by (cases args) auto
  then have "win_args True 0 (Some []) (a @ quote # concat (map (\<lambda>a. CHR '' '' # quoted a) args)) = a # args"
    using win_args_inside[of a 0 "concat (map (\<lambda>a. CHR '' '' # quoted a) args)" "[]"] Cons by (auto simp: plain_arg_def)
  then show ?case by (simp add: quoted_def)
qed simp

lemma spawn_command_argv:
  assumes "list_all plain_arg args" "quote \<notin> set exe"
  shows "win_argv (spawn_command exe args) = args"
proof -
  have "dropWhile (\<lambda>c. c \<noteq> quote) (exe @ quote # s) = quote # s" for s
    using assms(2) by (subst dropWhile_append2) auto
  then show ?thesis using win_args_quoted[OF assms(1)] by (simp add: win_argv_def spawn_command_def quoted_def)
qed

text \<open>The arguments of the restart proof are of that kind.\<close>

lemma spawn_args_plain: "list_all plain_arg (spawn_args port i boot)"
proof -
  have plain: "plain_arg a" if "\<And>c. c \<in> set a \<Longrightarrow> c \<noteq> quote \<and> c \<noteq> backslash" for a
    using that last_in_set by (fastforce simp: plain_arg_def)
  have "\<not> is_digit quote" "\<not> is_digit backslash" by (simp_all add: is_digit_def)
  then have d: "plain_arg (nat_digits n)" for n
    using nat_digits_digits[of n] unfolding list_all_iff by (intro plain) metis
  have "c \<noteq> quote \<and> c \<noteq> backslash" if "c \<in> set (hex16 v)" for c v
  proof -
    obtain k where "c = hex_digit k" "k < 16" using \<open>c \<in> set (hex16 v)\<close> take_bit_4_less by (auto simp: hex16_def)
    then have "0 \<le> nib c" by (simp add: hex_digit_nib)
    then show ?thesis by (auto simp: nib_def)
  qed
  then have h: "plain_arg (id_to_string j)" for j by (intro plain) (auto simp: id_to_string_def)
  show ?thesis by (simp add: spawn_args_def d h) (simp add: plain_arg_def)
qed

text \<open>So the worker gets the arguments the main thread meant, and reads from them what it meant by them.\<close>

lemma child_reads_arguments:
  assumes "quote \<notin> set exe"
  shows "worker_of_args (win_argv (spawn_command exe (spawn_args port i boot))) = new_worker i boot (derive ''node-0'') (derive ''workload-0'') ''cuda''
     [''cuda:0''] [0, 1, 2, 3, 4, 5, 6, 7, 8, 9, 10, 11, 12, 13]"
  by (simp only: spawn_command_argv[OF spawn_args_plain assms] spawned_worker)

text \<open>An argument that ends in a backslash swallows the mark that should close it.\<close>

lemma trailing_backslash_joins: "win_argv (spawn_command ''w'' [''a'' @ [backslash], ''b'']) = [''a'' @ [quote] @ '' b'']"
  by (simp add: win_argv_def spawn_command_def quoted_def)

section \<open>The launcher of the CUDA demo\<close>

text \<open>\<open>exe.substr(0, exe.find_last_of(...))\<close>: the whole path when it has no backslash.\<close>

definition directory_of :: "string \<Rightarrow> string" where
  "directory_of exe = (if backslash \<in> set exe then rev (tl (dropWhile (\<lambda>c. c \<noteq> backslash) (rev exe))) else exe)"

text \<open>\<open>run\<close> creates a process from a command line and waits for its exit code.\<close>

definition run_cuda_demo :: "(string \<Rightarrow> 32 word option) \<Rightarrow> string \<Rightarrow> cli_outcome" where
  "run_cuda_demo run exe = (let cuda_exe = directory_of exe @ [backslash] @ ''warmth_cuda_demo.exe'' in
     case run (spawn_command cuda_exe []) of
       None \<Rightarrow> print_err (''CUDA demo not available ('' @ cuda_exe @ '')'' @ nl)
     | Some code \<Rightarrow> Exits (sint code) [] [])"

section \<open>The dispatch\<close>

definition process_outcome_of :: "cli_outcome \<Rightarrow> process_outcome option" where
  "process_outcome_of r = (case r of Exits c out err \<Rightarrow> Some (Returns c out err) | Hangs out \<Rightarrow> Some (Blocks out) | Unspecified \<Rightarrow> None)"

text \<open>No value when the source leaves the output open.\<close>

definition cli_main_windows ::
  "'w cli_env \<Rightarrow> 's process_world \<Rightarrow> u16 option \<Rightarrow> 's \<Rightarrow> (string \<Rightarrow> 32 word option) \<Rightarrow> string \<Rightarrow> string list \<Rightarrow> process_outcome option" where
  "cli_main_windows env w started s run exe a =
     (if a \<noteq> [] \<and> hd a = ''multiprocess'' then Some (run_multiprocess w started s)
      else process_outcome_of (if a \<noteq> [] \<and> hd a = ''cuda'' then run_cuda_demo run exe else cli_main env a))"

end
