(* ===== verification/Ieee_Single.thy ===== *)
theory Ieee_Single
  imports Ieee_Double
begin

text \<open>
  The \<open>float\<close> of the CUDA program: IEEE 754 binary32 by its bit pattern, in the manner of \<open>Ieee_Double\<close>, with
  the conversions, products, sums and comparisons that program uses. Values of moderate size stay finite.
\<close>

section \<open>Representation\<close>

type_synonym single = u32

definition sgl_inf_mag :: nat where
  "sgl_inf_mag = 255 * 2 ^ 23"

definition sgl_neg :: "single \<Rightarrow> bool" where
  "sgl_neg x \<longleftrightarrow> 2 ^ 31 \<le> unat x"

definition sgl_mag :: "single \<Rightarrow> nat" where
  "sgl_mag x = unat x mod 2 ^ 31"

definition sgl_isnan :: "single \<Rightarrow> bool" where
  "sgl_isnan x \<longleftrightarrow> sgl_inf_mag < sgl_mag x"

definition sgl_isinf :: "single \<Rightarrow> bool" where
  "sgl_isinf x \<longleftrightarrow> sgl_mag x = sgl_inf_mag"

definition sgl_pack :: "bool \<Rightarrow> nat \<Rightarrow> single" where
  "sgl_pack neg m = of_nat ((if neg then 2 ^ 31 else 0) + m)"

definition sgl_nan :: single where
  "sgl_nan = sgl_pack False (sgl_inf_mag + 2 ^ 22)"

text \<open>Values in units of \<open>2^-149\<close>.\<close>

definition sgl_units :: "nat \<Rightarrow> nat" where
  "sgl_units m = (let e = m div 2 ^ 23; f = m mod 2 ^ 23 in if e = 0 then f else (2 ^ 23 + f) * 2 ^ (e - 1))"

definition sgl_val :: "single \<Rightarrow> rat" where
  "sgl_val x = of_int ((if sgl_neg x then - 1 else 1) * int (sgl_units (sgl_mag x))) / 2 ^ 149"

text \<open>Equality of the values, false on NaN; the two zeros are equal.\<close>

definition sgl_eq :: "single \<Rightarrow> single \<Rightarrow> bool" where
  "sgl_eq a b \<longleftrightarrow> \<not> sgl_isnan a \<and> \<not> sgl_isnan b \<and> (a = b \<or> sgl_mag a = 0 \<and> sgl_mag b = 0)"

section \<open>Arithmetic\<close>

definition sgl_round :: "rat \<Rightarrow> nat" where
  "sgl_round u = (let k = ilog2 (nat \<lfloor>u\<rfloor>) - 23 in k * 2 ^ 23 + nat (rne (u / 2 ^ k)))"

definition sgl_rnd :: "bool \<Rightarrow> rat \<Rightarrow> single" where
  "sgl_rnd neg q = sgl_pack neg (min sgl_inf_mag (sgl_round (q * 2 ^ 149)))"

definition sgl_lit :: "rat \<Rightarrow> single" where
  "sgl_lit q = sgl_rnd (q < 0) \<bar>q\<bar>"

definition sgl_of_int :: "int \<Rightarrow> single" where
  "sgl_of_int i = sgl_lit (of_int i)"

definition sgl_add :: "single \<Rightarrow> single \<Rightarrow> single" where
  "sgl_add a b =
     (if sgl_isnan a \<or> sgl_isnan b then sgl_nan
      else if sgl_isinf a then (if sgl_isinf b \<and> sgl_neg a \<noteq> sgl_neg b then sgl_nan else a)
      else if sgl_isinf b then b
      else let s = sgl_val a + sgl_val b in
        if s = 0 then sgl_pack (sgl_neg a \<and> sgl_neg b) 0 else sgl_rnd (s < 0) \<bar>s\<bar>)"

definition sgl_mul :: "single \<Rightarrow> single \<Rightarrow> single" where
  "sgl_mul a b =
     (let s = (sgl_neg a \<noteq> sgl_neg b) in
      if sgl_isnan a \<or> sgl_isnan b then sgl_nan
      else if sgl_isinf a \<or> sgl_isinf b then (if sgl_mag a = 0 \<or> sgl_mag b = 0 then sgl_nan else sgl_pack s sgl_inf_mag)
      else sgl_rnd s \<bar>sgl_val a * sgl_val b\<bar>)"

section \<open>Values of moderate size\<close>

lemma sgl_mag_pack [simp]: "m \<le> sgl_inf_mag \<Longrightarrow> sgl_mag (sgl_pack s m) = m"
  by (simp add: sgl_pack_def sgl_mag_def sgl_inf_mag_def unat_of_nat del: of_nat_add)

text \<open>A finite number of value at most \<open>2 ^ p\<close>.\<close>

definition sgl_within :: "nat \<Rightarrow> single \<Rightarrow> bool" where
  "sgl_within p x \<longleftrightarrow> sgl_mag x < sgl_inf_mag \<and> \<bar>sgl_val x\<bar> \<le> 2 ^ p"

lemma sgl_within_not_nan: "sgl_within p x \<Longrightarrow> \<not> sgl_isnan x" "sgl_within p x \<Longrightarrow> \<not> sgl_isinf x"
  by (simp_all add: sgl_within_def sgl_isnan_def sgl_isinf_def)

lemma sgl_round_bound:
  assumes "0 \<le> u" "u \<le> 2 ^ m" "23 \<le> m"
  shows "sgl_round u \<le> (m - 21) * 2 ^ 23"
proof -
  define n k where "n = nat \<lfloor>u\<rfloor>" and "k = ilog2 n - 23"
  have n: "n \<le> 2 ^ m" using assms(2) unfolding n_def by (simp add: floor_le_iff nat_le_iff)
  have u: "u < of_nat n + 1" unfolding n_def using assms(1) by linarith
  have "ilog2 n \<le> m"
  proof (cases "n = 0")
    case True then show ?thesis by (simp add: ilog2.simps)
  next
    case False
    then have "(2::nat) ^ ilog2 n \<le> n" using ilog2_bounds by blast
    also note n
    finally show ?thesis by (rule power_le_imp_le_exp[rotated]) simp
  qed
  then have k: "k \<le> m - 23" by (simp add: k_def)
  have "n < 2 ^ (k + 24)"
  proof (cases "n = 0")
    case False
    then have "n < 2 ^ Suc (ilog2 n)" using ilog2_bounds by blast
    also have "\<dots> \<le> 2 ^ (k + 24)" by (rule power_increasing) (simp_all add: k_def)
    finally show ?thesis .
  qed simp
  then have "n + 1 \<le> 2 ^ (k + 24)" by simp
  then have "of_nat (n + 1) \<le> (of_nat (2 ^ (k + 24)) :: rat)" by (simp only: of_nat_le_iff)
  then have "u \<le> 2 ^ 24 * 2 ^ k" using u by (simp add: power_add)
  then have "u / 2 ^ k \<le> of_int (2 ^ 24)" by (simp add: divide_le_eq)
  then have "rne (u / 2 ^ k) \<le> 2 ^ 24" using rne_mono rne_of_int by metis
  then have "sgl_round u \<le> k * 2 ^ 23 + 2 ^ 24" by (simp add: sgl_round_def Let_def n_def[symmetric] k_def[symmetric])
  also have "\<dots> \<le> (m - 21) * 2 ^ 23" using k assms(3) by simp
  finally show ?thesis .
qed

lemma sgl_units_bound: "m \<le> c * 2 ^ 23 \<Longrightarrow> sgl_units m \<le> 2 ^ (23 + c)"
proof -
  assume m: "m \<le> c * 2 ^ 23"
  define e f where "e = m div 2 ^ 23" and "f = m mod 2 ^ 23"
  have e: "e \<le> c" using m unfolding e_def by (metis div_le_mono div_mult_self_is_m zero_less_numeral zero_less_power)
  have f: "f < 2 ^ 23" by (simp add: f_def)
  show ?thesis
  proof (cases "e = 0")
    case True
    have "f * 1 \<le> 2 ^ 23 * 2 ^ c" using f by (intro mult_mono) simp_all
    then show ?thesis using True unfolding sgl_units_def Let_def e_def[symmetric] f_def[symmetric] by (simp add: power_add)
  next
    case False
    have "(2 ^ 23 + f) * 2 ^ (e - 1) \<le> 2 ^ 24 * 2 ^ (e - 1)" using f by (intro mult_right_mono) simp_all
    also have "\<dots> = 2 ^ (23 + e)" using False by (cases e) (simp_all add: power_add)
    also have "\<dots> \<le> 2 ^ (23 + c)" using e by (intro power_increasing) simp_all
    finally show ?thesis using False unfolding sgl_units_def Let_def e_def[symmetric] f_def[symmetric] by simp
  qed
qed

lemma sgl_within_rnd:
  assumes "\<bar>q\<bar> \<le> 2 ^ p" "p < 127"
  shows "sgl_within (p + 2) (sgl_rnd s \<bar>q\<bar>)"
proof -
  have "\<bar>q\<bar> * 2 ^ 149 \<le> 2 ^ (p + 149)" using assms(1) by (simp add: power_add)
  then have r: "sgl_round (\<bar>q\<bar> * 2 ^ 149) \<le> (p + 128) * 2 ^ 23"
    using sgl_round_bound[of "\<bar>q\<bar> * 2 ^ 149" "p + 149"] by simp
  then have m: "sgl_mag (sgl_rnd s \<bar>q\<bar>) = sgl_round (\<bar>q\<bar> * 2 ^ 149)" "sgl_round (\<bar>q\<bar> * 2 ^ 149) < sgl_inf_mag"
    using assms(2) by (simp_all add: sgl_rnd_def sgl_inf_mag_def)
  have "sgl_units (sgl_mag (sgl_rnd s \<bar>q\<bar>)) \<le> 2 ^ (23 + (p + 128))" using sgl_units_bound[OF r] by (simp add: m(1))
  then have "(of_nat (sgl_units (sgl_mag (sgl_rnd s \<bar>q\<bar>))) :: rat) \<le> of_nat (2 ^ (p + 2 + 149))"
    by (simp only: of_nat_le_iff) (simp add: add.commute)
  then have "\<bar>sgl_val (sgl_rnd s \<bar>q\<bar>)\<bar> \<le> 2 ^ (p + 2)" by (simp add: sgl_val_def abs_mult power_add divide_le_eq)
  then show ?thesis using m by (simp add: sgl_within_def)
qed

lemma sgl_within_lit: "\<bar>q\<bar> \<le> 2 ^ p \<Longrightarrow> p < 127 \<Longrightarrow> sgl_within (p + 2) (sgl_lit q)"
  unfolding sgl_lit_def by (rule sgl_within_rnd)

lemma sgl_within_mul:
  assumes "sgl_within p a" "sgl_within q b" "p + q < 127"
  shows "sgl_within (p + q + 2) (sgl_mul a b)"
proof -
  have "\<bar>sgl_val a\<bar> * \<bar>sgl_val b\<bar> \<le> 2 ^ p * 2 ^ q"
    using assms(1,2) unfolding sgl_within_def by (intro mult_mono) simp_all
  then have "\<bar>sgl_val a * sgl_val b\<bar> \<le> 2 ^ (p + q)" by (simp add: abs_mult power_add)
  from sgl_within_rnd[OF this assms(3)] show ?thesis
    using sgl_within_not_nan[OF assms(1)] sgl_within_not_nan[OF assms(2)] by (simp add: sgl_mul_def Let_def)
qed

lemma sgl_add_eq_refl:
  assumes "sgl_within p a" "sgl_within q b"
  shows "sgl_eq (sgl_add a b) (sgl_add a b)"
proof -
  have "sgl_mag (sgl_rnd s r) \<le> sgl_inf_mag" for s r by (simp add: sgl_rnd_def)
  then show ?thesis
    using sgl_within_not_nan[OF assms(1)] sgl_within_not_nan[OF assms(2)] by (auto simp: sgl_add_def sgl_eq_def sgl_isnan_def Let_def leD)
qed

end
