(* ===== verification/Cuda_Probe.thy ===== *)
theory Cuda_Probe
  imports Windows_Cli Ieee_Single "HOL-Library.Signed_Division"
begin

text \<open>
  The CUDA program \<open>cuda/warmth_cuda.cu\<close>: cold start, retained executions, a replayed graph, teardown and a
  second warming, each followed by a comparison on the host. The CUDA runtime is a parameter (\<open>cuda\<close>), the
  kernel a function of one thread. \<open>Cuda_Device\<close> gives a runtime and runs the program on it.
\<close>

section \<open>Buffers and the kernel\<close>

type_synonym buffer = "single list"

definition kNum :: nat where "kNum = 2 ^ 20"
definition kIters :: nat where "kIters = 32"

definition bytes_per_buffer :: u64 where
  "bytes_per_buffer = 4 * of_nat kNum"

text \<open>One thread; no value when it leaves a buffer.\<close>

definition saxpy_kernel :: "nat \<Rightarrow> nat \<Rightarrow> nat \<Rightarrow> int \<Rightarrow> buffer \<Rightarrow> buffer \<Rightarrow> buffer \<Rightarrow> buffer option" where
  "saxpy_kernel block_idx block_dim thread_idx n a b out =
     (let i = sint (of_nat block_idx * of_nat block_dim + of_nat thread_idx :: u32) in
      if i < n then
        if 0 \<le> i \<and> nat i < length out \<and> nat i < length a \<and> nat i < length b
        then Some (out[nat i := sgl_add (a ! nat i) (b ! nat i)]) else None
      else Some out)"

definition init_a :: buffer where
  "init_a = map (\<lambda>i. sgl_mul (sgl_of_int (int i)) (sgl_lit (1 / 2))) [0..<kNum]"

definition init_b :: buffer where
  "init_b = map (\<lambda>i. sgl_mul (sgl_of_int (int i)) (sgl_lit (- 1 / 4))) [0..<kNum]"

definition verify :: "buffer \<Rightarrow> buffer \<Rightarrow> buffer \<Rightarrow> nat \<Rightarrow> bool" where
  "verify out a b n \<longleftrightarrow> list_all (\<lambda>i. sgl_eq (out ! i) (sgl_add (a ! i) (b ! i))) [0..<n]"

text \<open>Readings of the steady clock in nanoseconds.\<close>

definition ms_since :: "int \<Rightarrow> int \<Rightarrow> int" where
  "ms_since t0 t = (t - t0) sdiv 1000000"

section \<open>The runtime\<close>

text \<open>A launch names its grid and its buffers. A stream is \<open>None\<close> for the default one, a pointer \<open>None\<close> for null.\<close>

record kernel_call =
  kc_blocks :: nat
  kc_threads :: nat
  kc_out :: "nat option"
  kc_a :: "nat option"
  kc_b :: "nat option"
  kc_n :: int

text \<open>A call gives whether it succeeded, or the handle; \<open>cu_download\<close> also what is in the host buffer then.\<close>

record 'w cuda =
  cu_set_device :: "'w \<Rightarrow> bool \<times> 'w"
  cu_properties :: "'w \<Rightarrow> (string \<times> int \<times> int \<times> u64) option"
  cu_free_memory :: "'w \<Rightarrow> u64 option"
  cu_malloc :: "u64 \<Rightarrow> 'w \<Rightarrow> nat option \<times> 'w"
  cu_upload :: "nat option \<Rightarrow> buffer \<Rightarrow> 'w \<Rightarrow> bool \<times> 'w"
  cu_download :: "nat option \<Rightarrow> buffer \<Rightarrow> 'w \<Rightarrow> (bool \<times> buffer) \<times> 'w"
  cu_launch :: "nat option \<Rightarrow> kernel_call \<Rightarrow> 'w \<Rightarrow> 'w"
  cu_device_sync :: "'w \<Rightarrow> bool \<times> 'w"
  cu_stream_sync :: "nat option \<Rightarrow> 'w \<Rightarrow> bool \<times> 'w"
  cu_stream_create :: "'w \<Rightarrow> nat option \<times> 'w"
  cu_begin_capture :: "nat \<Rightarrow> 'w \<Rightarrow> bool \<times> 'w"
  cu_end_capture :: "nat \<Rightarrow> 'w \<Rightarrow> nat option \<times> 'w"
  cu_instantiate :: "nat \<Rightarrow> 'w \<Rightarrow> nat option \<times> 'w"
  cu_graph_launch :: "nat \<Rightarrow> nat \<Rightarrow> 'w \<Rightarrow> bool \<times> 'w"
  cu_exec_destroy :: "nat \<Rightarrow> 'w \<Rightarrow> 'w"
  cu_graph_destroy :: "nat \<Rightarrow> 'w \<Rightarrow> 'w"
  cu_free :: "nat option \<Rightarrow> 'w \<Rightarrow> 'w"
  cu_stream_destroy :: "nat \<Rightarrow> 'w \<Rightarrow> 'w"
  cu_reset :: "'w \<Rightarrow> 'w"

section \<open>Statements\<close>

text \<open>The output so far, the host buffer \<open>hout\<close>, and the runtime's world.\<close>

type_synonym ('w, 'a) probe = "(cli_outcome, string \<times> buffer \<times> 'w, 'a) program"

definition pr_call :: "('w \<Rightarrow> 'a \<times> 'w) \<Rightarrow> ('w, 'a) probe" where
  "pr_call g = (\<lambda>(out, h, w). case g w of (x, w') \<Rightarrow> Inr (x, out, h, w'))"

definition pr_do :: "('w \<Rightarrow> 'w) \<Rightarrow> ('w, unit) probe" where
  "pr_do f = pr_call (\<lambda>w. ((), f w))"

definition pr_print :: "string \<Rightarrow> ('w, unit) probe" where
  "pr_print s = (\<lambda>(out, h, w). Inr ((), out @ s @ nl, h, w))"

text \<open>\<open>printf(...); return 1;\<close>.\<close>

definition pr_require :: "bool \<Rightarrow> string \<Rightarrow> ('w, unit) probe" where
  "pr_require ok msg = (\<lambda>(out, h, w). if ok then Inr ((), out, h, w) else Inl (Exits 1 (out @ msg @ nl) []))"

text \<open>The use of a variable the runtime has not set.\<close>

definition pr_value :: "'a option \<Rightarrow> ('w, 'a) probe" where
  "pr_value x st = (case x of None \<Rightarrow> Inl Unspecified | Some y \<Rightarrow> Inr (y, st))"

definition pr_download :: "'w cuda \<Rightarrow> nat option \<Rightarrow> ('w, bool) probe" where
  "pr_download cu p = (\<lambda>(out, h, w). case cu_download cu p h w of ((ok, h'), w') \<Rightarrow> Inr (ok, out, h', w'))"

definition pr_verify :: "string \<Rightarrow> ('w, unit) probe" where
  "pr_verify msg = (\<lambda>(out, h, w). pr_require (verify h init_a init_b kNum) msg (out, h, w))"

text \<open>\<open>cudaMemGetInfo(&freeB, ...)\<close>: a failure leaves \<open>freeB\<close>.\<close>

definition pr_mem_info :: "'w cuda \<Rightarrow> u64 \<Rightarrow> ('w, u64) probe" where
  "pr_mem_info cu free_b = (\<lambda>(out, h, w). Inr (case cu_free_memory cu w of None \<Rightarrow> free_b | Some m \<Rightarrow> m, out, h, w))"

definition saxpy_call :: "nat option \<Rightarrow> nat option \<Rightarrow> nat option \<Rightarrow> kernel_call" where
  "saxpy_call dout da db = \<lparr>kc_blocks = (kNum + 255) div 256, kc_threads = 256, kc_out = dout, kc_a = da, kc_b = db, kc_n = int kNum\<rparr>"

definition show_mib :: "u64 \<Rightarrow> string" where
  "show_mib b = show_u64 (drop_bit 20 b)"

section \<open>The phases\<close>

definition probe_device :: "'w cuda \<Rightarrow> ('w, u64) probe" where
  "probe_device cu =
     prog_bind (pr_call (cu_set_device cu)) (\<lambda>ok.
     prog_bind (pr_require ok ''cudaSetDevice failed'') (\<lambda>_.
     prog_bind (\<lambda>(out, h, w). pr_value (cu_properties cu w) (out, h, w)) (\<lambda>(name, major, minor, total).
     prog_bind (pr_print (''device: '' @ name @ '' (compute '' @ printf_lld major @ ''.'' @ printf_lld minor @ '', global '' @
       show_mib total @ '' MiB)'')) (\<lambda>_.
     pr_mem_info cu 0))))"

definition probe_cold :: "'w cuda \<Rightarrow> string \<Rightarrow> ('w, nat option \<times> nat option \<times> nat option) probe" where
  "probe_cold cu ms =
     prog_bind (pr_call (cu_malloc cu bytes_per_buffer)) (\<lambda>dout. prog_bind (pr_require (dout \<noteq> None) ''cudaMalloc failed'') (\<lambda>_.
     prog_bind (pr_call (cu_malloc cu bytes_per_buffer)) (\<lambda>da. prog_bind (pr_require (da \<noteq> None) ''cudaMalloc failed'') (\<lambda>_.
     prog_bind (pr_call (cu_malloc cu bytes_per_buffer)) (\<lambda>db. prog_bind (pr_require (db \<noteq> None) ''cudaMalloc failed'') (\<lambda>_.
     prog_bind (pr_call (cu_upload cu da init_a)) (\<lambda>ok. prog_bind (pr_require ok ''H2D failed'') (\<lambda>_.
     prog_bind (pr_call (cu_upload cu db init_b)) (\<lambda>ok. prog_bind (pr_require ok ''H2D failed'') (\<lambda>_.
     prog_bind (pr_do (cu_launch cu None (saxpy_call dout da db))) (\<lambda>_.
     prog_bind (pr_call (cu_device_sync cu)) (\<lambda>ok. prog_bind (pr_require ok ''kernel/sync failed'') (\<lambda>_.
     prog_bind (pr_download cu dout) (\<lambda>ok. prog_bind (pr_require ok ''D2H failed'') (\<lambda>_.
     prog_bind (pr_verify ''COLD verification FAILED'') (\<lambda>_.
     prog_bind (pr_print (''COLD: allocated, transferred, ran, verified in '' @ ms @ '' ms'')) (\<lambda>_.
     prog_return (dout, da, db))))))))))))))))))"

fun warm_loop :: "'w cuda \<Rightarrow> kernel_call \<Rightarrow> nat \<Rightarrow> ('w, unit) probe" where
  "warm_loop cu k 0 = prog_return ()"
| "warm_loop cu k (Suc n) =
     prog_bind (pr_do (cu_launch cu None k)) (\<lambda>_.
     prog_bind (pr_call (cu_stream_sync cu None)) (\<lambda>ok.
     prog_bind (pr_require ok ''warm sync failed'') (\<lambda>_. warm_loop cu k n)))"

definition probe_warm :: "'w cuda \<Rightarrow> kernel_call \<Rightarrow> string \<Rightarrow> ('w, unit) probe" where
  "probe_warm cu k ms = prog_bind (warm_loop cu k kIters) (\<lambda>_.
     pr_print (''WARM: '' @ nat_digits kIters @ '' retained executions in '' @ ms @ '' ms''))"

definition probe_replay :: "'w cuda \<Rightarrow> nat option \<Rightarrow> nat \<Rightarrow> nat \<Rightarrow> ('w, unit) probe" where
  "probe_replay cu dout stream exec =
     prog_bind (pr_call (cu_graph_launch cu exec stream)) (\<lambda>ok. if \<not> ok then prog_return () else
     prog_bind (pr_call (cu_stream_sync cu (Some stream))) (\<lambda>ok. if \<not> ok then prog_return () else
     prog_bind (pr_download cu dout) (\<lambda>_.
     prog_bind (pr_verify ''GRAPH verification FAILED'') (\<lambda>_.
     pr_print ''GRAPH: capture/instantiate/replay verified''))))"

definition probe_graph :: "'w cuda \<Rightarrow> kernel_call \<Rightarrow> ('w, nat) probe" where
  "probe_graph cu k =
     prog_bind (pr_call (cu_stream_create cu)) (\<lambda>s.
     prog_bind (pr_value s) (\<lambda>stream.
     prog_bind (pr_call (cu_begin_capture cu stream)) (\<lambda>ok.
     prog_bind (if \<not> ok then prog_return () else
       prog_bind (pr_do (cu_launch cu (Some stream) k)) (\<lambda>_.
       prog_bind (pr_call (cu_end_capture cu stream)) (\<lambda>g. case g of None \<Rightarrow> prog_return () | Some graph \<Rightarrow>
         prog_bind (pr_call (cu_instantiate cu graph)) (\<lambda>e.
         prog_bind (case e of None \<Rightarrow> prog_return () | Some exec \<Rightarrow>
           prog_bind (probe_replay cu (kc_out k) stream exec) (\<lambda>_. pr_do (cu_exec_destroy cu exec))) (\<lambda>_.
         pr_do (cu_graph_destroy cu graph)))))) (\<lambda>_.
     prog_return stream))))"

definition probe_teardown :: "'w cuda \<Rightarrow> kernel_call \<Rightarrow> u64 \<Rightarrow> ('w, u64) probe" where
  "probe_teardown cu k free_b =
     prog_bind (pr_mem_info cu free_b) (\<lambda>before.
     prog_bind (pr_do (cu_free cu (kc_out k))) (\<lambda>_. prog_bind (pr_do (cu_free cu (kc_a k))) (\<lambda>_. prog_bind (pr_do (cu_free cu (kc_b k))) (\<lambda>_.
     prog_bind (pr_do (cu_reset cu)) (\<lambda>_.
     prog_bind (pr_mem_info cu before) (\<lambda>after.
     prog_bind (pr_print (''INVALIDATE: free memory '' @ show_mib before @ '' -> '' @ show_mib after @ '' MiB (warmth fell)'')) (\<lambda>_.
     prog_return after)))))))"

text \<open>Here the results of the allocations, copies and of the synchronisation are not looked at.\<close>

definition probe_rewarm :: "'w cuda \<Rightarrow> string \<Rightarrow> ('w, kernel_call) probe" where
  "probe_rewarm cu ms =
     prog_bind (pr_call (cu_set_device cu)) (\<lambda>ok.
     prog_bind (pr_require ok ''re-set device failed'') (\<lambda>_.
     prog_bind (pr_call (cu_malloc cu bytes_per_buffer)) (\<lambda>dout.
     prog_bind (pr_call (cu_malloc cu bytes_per_buffer)) (\<lambda>da.
     prog_bind (pr_call (cu_malloc cu bytes_per_buffer)) (\<lambda>db.
     prog_bind (pr_call (cu_upload cu da init_a)) (\<lambda>_.
     prog_bind (pr_call (cu_upload cu db init_b)) (\<lambda>_.
     prog_bind (pr_do (cu_launch cu None (saxpy_call dout da db))) (\<lambda>_.
     prog_bind (pr_call (cu_device_sync cu)) (\<lambda>_.
     prog_bind (pr_download cu dout) (\<lambda>_.
     prog_bind (pr_verify ''REWARM verification FAILED'') (\<lambda>_.
     prog_bind (pr_print (''REWARM: fresh readiness verified in '' @ ms @ '' ms'')) (\<lambda>_.
     prog_return (saxpy_call dout da db)))))))))))))"

definition probe_cleanup :: "'w cuda \<Rightarrow> kernel_call \<Rightarrow> nat \<Rightarrow> u64 \<Rightarrow> u64 \<Rightarrow> ('w, bool) probe" where
  "probe_cleanup cu k stream baseline after =
     prog_bind (pr_do (cu_free cu (kc_out k))) (\<lambda>_. prog_bind (pr_do (cu_free cu (kc_a k))) (\<lambda>_. prog_bind (pr_do (cu_free cu (kc_b k))) (\<lambda>_.
     prog_bind (pr_do (cu_stream_destroy cu stream)) (\<lambda>_.
     prog_bind (pr_do (cu_reset cu)) (\<lambda>_.
     prog_bind (pr_mem_info cu after) (\<lambda>final.
     prog_bind (pr_print (''CLEANUP: free memory '' @ show_mib after @ '' -> '' @ show_mib final @ '' MiB (baseline '' @ show_mib baseline @ '')'')) (\<lambda>_.
     prog_return (baseline \<le> final + push_bit 20 64))))))))"

text \<open>\<open>clock k\<close> is the \<open>k\<close>-th reading of the clock.\<close>

definition cuda_probe :: "'w cuda \<Rightarrow> (nat \<Rightarrow> int) \<Rightarrow> ('w, unit) probe" where
  "cuda_probe cu clock =
     (let cold = printf_lld (ms_since (clock 0) (clock 1)); warm = printf_lld (ms_since (clock 2) (clock 3));
          rewarm = printf_lld (ms_since (clock 4) (clock 5)) in
     prog_bind (probe_device cu) (\<lambda>baseline.
     prog_bind (probe_cold cu cold) (\<lambda>(dout, da, db).
     prog_bind (probe_warm cu (saxpy_call dout da db) warm) (\<lambda>_.
     prog_bind (probe_graph cu (saxpy_call dout da db)) (\<lambda>stream.
     prog_bind (probe_teardown cu (saxpy_call dout da db) baseline) (\<lambda>after.
     prog_bind (probe_rewarm cu rewarm) (\<lambda>k.
     prog_bind (probe_cleanup cu k stream baseline after) (\<lambda>recovered.
     prog_bind (pr_print (''cold='' @ cold @ ''ms warm='' @ warm @ ''ms rewarm='' @ rewarm @ ''ms memory_recovered='' @ (if recovered then ''1'' else ''0''))) (\<lambda>_.
     prog_bind (pr_require recovered ''CUDA memory did not recover'') (\<lambda>_.
     pr_print ''CUDA cold->warm->invalidate->rewarm proof PASSED''))))))))))"

definition run_cuda_probe :: "'w cuda \<Rightarrow> (nat \<Rightarrow> int) \<Rightarrow> 'w \<Rightarrow> cli_outcome" where
  "run_cuda_probe cu clock w = (case cuda_probe cu clock ([], replicate kNum 0, w) of Inl r \<Rightarrow> r | Inr (_, out, _) \<Rightarrow> Exits 0 out [])"

end
