(* ===== verification/Cuda_Device.thy ===== *)
theory Cuda_Device
  imports Cuda_Probe
begin

text \<open>
  A CUDA runtime for \<open>Cuda_Probe\<close>: device memory, a kernel launch that runs its threads in any order, stream
  capture and graphs. The kernel covers its buffers exactly, the program runs to its end, and what it prints
  does not depend on whether a replayed graph does anything or the device works after the reset.
\<close>

section \<open>All threads of a launch\<close>

definition run_threads :: "(nat \<times> nat) list \<Rightarrow> nat \<Rightarrow> int \<Rightarrow> buffer \<Rightarrow> buffer \<Rightarrow> buffer \<Rightarrow> buffer option" where
  "run_threads ts block_dim n a b out =
     fold (\<lambda>(block, thr) r. case r of None \<Rightarrow> None | Some out \<Rightarrow> saxpy_kernel block block_dim thr n a b out) ts (Some out)"

lemma sint_small:
  assumes "m < 2 ^ 31"
  shows "sint (of_nat m :: u32) = int m"
proof -
  have "take_bit 32 m = m" using assms by (intro take_bit_nat_eq_self) simp
  moreover have "signed_take_bit 31 (int m) = int m" using assms by (intro signed_take_bit_int_eq_self) simp_all
  ultimately show ?thesis by (simp add: sint_uint unsigned_of_nat)
qed

lemma saxpy_thread:
  assumes "block < 4096" "thr < 256" "length a = kNum" "length b = kNum" "length out = kNum"
  shows "saxpy_kernel block 256 thr (int kNum) a b out
    = Some (out[block * 256 + thr := sgl_add (a ! (block * 256 + thr)) (b ! (block * 256 + thr))])"
proof -
  define i where "i = block * 256 + thr"
  have i: "i < kNum" using assms(1,2) by (simp add: kNum_def i_def)
  have "sint (of_nat block * of_nat 256 + of_nat thr :: u32) = sint (of_nat i :: u32)" by (simp add: i_def)
  also have "\<dots> = int i" by (rule sint_small) (use i in \<open>simp add: kNum_def\<close>)
  finally show ?thesis using i assms(3-5) by (simp add: saxpy_kernel_def Let_def i_def[symmetric])
qed

lemma run_threads_steps:
  assumes "set ts \<subseteq> {..<4096} \<times> {..<256}" "length a = kNum" "length b = kNum" "length out = kNum"
  shows "\<exists>out'. run_threads ts 256 (int kNum) a b out = Some out' \<and> length out' = kNum \<and>
    (\<forall>i < kNum. out' ! i = (if (i div 256, i mod 256) \<in> set ts then sgl_add (a ! i) (b ! i) else out ! i))"
  using assms(1,4)
proof (induction ts arbitrary: out)
  case Nil
  then show ?case by (simp add: run_threads_def)
next
  case (Cons t ts)
  obtain block thr where t: "t = (block, thr)" "block < 4096" "thr < 256" using Cons.prems(1) by (cases t) auto
  let ?i = "block * 256 + thr"
  let ?out = "out[?i := sgl_add (a ! ?i) (b ! ?i)]"
  have s: "saxpy_kernel block 256 thr (int kNum) a b out = Some ?out" by (rule saxpy_thread) (use t assms(2,3) Cons.prems(2) in simp_all)
  have i: "(block, thr) = (i div 256, i mod 256) \<longleftrightarrow> i = ?i" for i using t(3) by auto
  obtain out' where o: "run_threads ts 256 (int kNum) a b ?out = Some out'" "length out' = kNum"
    "\<forall>i < kNum. out' ! i = (if (i div 256, i mod 256) \<in> set ts then sgl_add (a ! i) (b ! i) else ?out ! i)"
    using Cons.IH[of ?out] Cons.prems by auto
  have "run_threads (t # ts) 256 (int kNum) a b out = Some out'" using o(1) by (simp add: run_threads_def t(1) s)
  moreover have "out' ! k = (if (k div 256, k mod 256) \<in> set (t # ts) then sgl_add (a ! k) (b ! k) else out ! k)" if "k < kNum" for k
    using o(3) that i[of k] Cons.prems(2) by (auto simp: t(1) nth_list_update)
  ultimately show ?case using o(2) by blast
qed

text \<open>A launch whose threads are those of its grid, in any order and any multiplicity, adds the buffers.\<close>

lemma run_threads_all:
  assumes "set ts = {..<(kNum + 255) div 256} \<times> {..<256}" "length a = kNum" "length b = kNum" "length out = kNum"
  shows "run_threads ts 256 (int kNum) a b out = Some (map2 sgl_add a b)"
proof -
  have g: "(kNum + 255) div 256 = 4096" by (simp add: kNum_def)
  obtain out' where o: "run_threads ts 256 (int kNum) a b out = Some out'" "length out' = kNum"
    "\<forall>i < kNum. out' ! i = (if (i div 256, i mod 256) \<in> set ts then sgl_add (a ! i) (b ! i) else out ! i)"
    using run_threads_steps[OF _ assms(2-4), of ts] assms(1) by (auto simp: g)
  have "(i div 256, i mod 256) \<in> set ts" if "i < kNum" for i
    using that unfolding assms(1) g by (auto simp: kNum_def less_mult_imp_div_less)
  then have "out' = map2 sgl_add a b" using o(2,3) assms(2,3) by (intro nth_equalityI) simp_all
  then show ?thesis using o(1) by simp
qed

text \<open>The comparison on the host accepts that result: no sum is a NaN.\<close>

lemma init_within: "i < kNum \<Longrightarrow> sgl_within 26 (init_a ! i) \<and> sgl_within 26 (init_b ! i)"
proof -
  assume i: "i < kNum"
  have n: "sgl_within 22 (sgl_of_int (int i))" unfolding sgl_of_int_def
    by (rule sgl_within_lit[of _ 20, simplified]) (use i in \<open>simp_all add: kNum_def\<close>)
  have l: "sgl_within 2 (sgl_lit (1 / 2))" "sgl_within 2 (sgl_lit (- 1 / 4))"
    using sgl_within_lit[of "1 / 2" 0] sgl_within_lit[of "- 1 / 4" 0] by (simp_all only: numeral_2_eq_2) simp_all
  have "sgl_within 26 (sgl_mul (sgl_of_int (int i)) (sgl_lit (1 / 2)))" "sgl_within 26 (sgl_mul (sgl_of_int (int i)) (sgl_lit (- 1 / 4)))"
    using sgl_within_mul[OF n l(1)] sgl_within_mul[OF n l(2)] by simp_all
  then show ?thesis using i by (simp add: init_a_def init_b_def)
qed

lemma init_length [simp]: "length init_a = kNum" "length init_b = kNum"
  by (simp_all add: init_a_def init_b_def)

definition init_sum :: buffer where
  "init_sum = map2 sgl_add init_a init_b"

lemma verify_sum: "verify init_sum init_a init_b kNum"
proof -
  have "sgl_eq (init_sum ! i) (sgl_add (init_a ! i) (init_b ! i))" if "i < kNum" for i
    using sgl_add_eq_refl[of 26 "init_a ! i" 26 "init_b ! i"] init_within[OF that] that by (simp add: init_sum_def)
  then show ?thesis by (simp add: verify_def list_all_iff)
qed

section \<open>A runtime\<close>

text \<open>Handles are numbers. \<open>g_capture\<close> holds the stream that is captured and what it has recorded.\<close>

record gpu =
  g_mem :: "nat \<Rightarrow> buffer option"
  g_next :: nat
  g_capture :: "(nat \<times> kernel_call list) option"
  g_graphs :: "nat \<Rightarrow> kernel_call list option"
  g_execs :: "nat \<Rightarrow> kernel_call list option"
  g_free :: u64
  g_fault :: bool
  g_dead :: bool

definition gpu_new :: "u64 \<Rightarrow> gpu" where
  "gpu_new free = \<lparr>g_mem = \<lambda>_. None, g_next = 0, g_capture = None, g_graphs = \<lambda>_. None, g_execs = \<lambda>_. None, g_free = free,
     g_fault = False, g_dead = False\<rparr>"

definition g_buffer :: "gpu \<Rightarrow> nat option \<Rightarrow> buffer option" where
  "g_buffer w p = (case p of None \<Rightarrow> None | Some i \<Rightarrow> g_mem w i)"

text \<open>\<open>sched\<close> is the order in which the device runs the threads of a grid; the output buffer is not an input.\<close>

definition g_run :: "(nat \<Rightarrow> nat \<Rightarrow> (nat \<times> nat) list) \<Rightarrow> kernel_call \<Rightarrow> gpu \<Rightarrow> gpu" where
  "g_run sched k w = (case (g_buffer w (kc_out k), g_buffer w (kc_a k), g_buffer w (kc_b k)) of
       (Some out, Some a, Some b) \<Rightarrow> (case run_threads (sched (kc_blocks k) (kc_threads k)) (kc_threads k) (kc_n k) a b out of
           Some out' \<Rightarrow> w\<lparr>g_mem := (g_mem w)(the (kc_out k) \<mapsto> out')\<rparr> | None \<Rightarrow> w\<lparr>g_fault := True\<rparr>)
     | _ \<Rightarrow> w\<lparr>g_fault := True\<rparr>)"

definition g_launch :: "(nat \<Rightarrow> nat \<Rightarrow> (nat \<times> nat) list) \<Rightarrow> nat option \<Rightarrow> kernel_call \<Rightarrow> gpu \<Rightarrow> gpu" where
  "g_launch sched stream k w = (if g_dead w then w else case g_capture w of
       Some (s, ks) \<Rightarrow> if stream = Some s then w\<lparr>g_capture := Some (s, ks @ [k])\<rparr> else g_run sched k w
     | None \<Rightarrow> g_run sched k w)"

definition g_fresh :: "(nat \<Rightarrow> gpu \<Rightarrow> gpu) \<Rightarrow> gpu \<Rightarrow> nat option \<times> gpu" where
  "g_fresh f w = (Some (g_next w), f (g_next w) (w\<lparr>g_next := Suc (g_next w)\<rparr>))"

definition g_malloc :: "u64 \<Rightarrow> gpu \<Rightarrow> nat option \<times> gpu" where
  "g_malloc n w = (if g_dead w \<or> g_free w < n then (None, w)
     else g_fresh (\<lambda>i w. w\<lparr>g_mem := (g_mem w)(i \<mapsto> replicate (unat n div 4) 0), g_free := g_free w - n\<rparr>) w)"

definition g_upload :: "nat option \<Rightarrow> buffer \<Rightarrow> gpu \<Rightarrow> bool \<times> gpu" where
  "g_upload p d w = (case g_buffer w p of None \<Rightarrow> (False, w)
     | Some b \<Rightarrow> if length d \<le> length b then (True, w\<lparr>g_mem := (g_mem w)(the p \<mapsto> d @ drop (length d) b)\<rparr>) else (False, w))"

definition g_download :: "nat option \<Rightarrow> buffer \<Rightarrow> gpu \<Rightarrow> (bool \<times> buffer) \<times> gpu" where
  "g_download p h w = (case g_buffer w p of None \<Rightarrow> ((False, h), w) | Some b \<Rightarrow> ((True, take (length h) b), w))"

definition g_release :: "nat option \<Rightarrow> gpu \<Rightarrow> gpu" where
  "g_release p w = (case g_buffer w p of None \<Rightarrow> w
     | Some b \<Rightarrow> w\<lparr>g_mem := (g_mem w)(the p := None), g_free := g_free w + 4 * of_nat (length b)\<rparr>)"

text \<open>With \<open>idle\<close> a replayed graph does nothing; with \<open>broken\<close> nothing works after a reset but the queries. \<open>base\<close> is the
  free memory without allocations.\<close>

definition gpu_runtime ::
  "(nat \<Rightarrow> nat \<Rightarrow> (nat \<times> nat) list) \<Rightarrow> string \<times> int \<times> int \<times> u64 \<Rightarrow> u64 \<Rightarrow> bool \<Rightarrow> bool \<Rightarrow> gpu cuda" where
  "gpu_runtime sched info base idle broken =
     \<lparr>cu_set_device = Pair True,
      cu_properties = (\<lambda>w. Some info),
      cu_free_memory = (\<lambda>w. Some (g_free w)),
      cu_malloc = g_malloc,
      cu_upload = g_upload,
      cu_download = g_download,
      cu_launch = g_launch sched,
      cu_device_sync = (\<lambda>w. (\<not> g_fault w \<and> \<not> g_dead w, w)),
      cu_stream_sync = (\<lambda>s w. (\<not> g_fault w \<and> \<not> g_dead w, w)),
      cu_stream_create = g_fresh (\<lambda>i w. w),
      cu_begin_capture = (\<lambda>s w. (True, w\<lparr>g_capture := Some (s, [])\<rparr>)),
      cu_end_capture = (\<lambda>s w. case g_capture w of None \<Rightarrow> (None, w)
         | Some (_, ks) \<Rightarrow> g_fresh (\<lambda>i w. w\<lparr>g_capture := None, g_graphs := (g_graphs w)(i \<mapsto> ks)\<rparr>) w),
      cu_instantiate = (\<lambda>g w. case g_graphs w g of None \<Rightarrow> (None, w) | Some ks \<Rightarrow> g_fresh (\<lambda>i w. w\<lparr>g_execs := (g_execs w)(i \<mapsto> ks)\<rparr>) w),
      cu_graph_launch = (\<lambda>e s w. case g_execs w e of None \<Rightarrow> (False, w)
         | Some ks \<Rightarrow> (True, if idle then w else fold (g_run sched) ks w)),
      cu_exec_destroy = (\<lambda>e w. w\<lparr>g_execs := (g_execs w)(e := None)\<rparr>),
      cu_graph_destroy = (\<lambda>g w. w\<lparr>g_graphs := (g_graphs w)(g := None)\<rparr>),
      cu_free = g_release,
      cu_stream_destroy = (\<lambda>s w. w),
      cu_reset = (\<lambda>w. (gpu_new base)\<lparr>g_dead := broken\<rparr>)\<rparr>"

section \<open>The phases on this runtime\<close>

lemmas pr_defs = prog_bind_def prog_return_def pr_call_def pr_do_def pr_print_def pr_require_def pr_value_def pr_download_def
  pr_verify_def pr_mem_info_def

lemma bytes_small: "unat bytes_per_buffer = 4 * kNum" "bytes_per_buffer = 4194304"
  by (simp_all add: bytes_per_buffer_def kNum_def)

definition grid_order :: "(nat \<Rightarrow> nat \<Rightarrow> (nat \<times> nat) list) \<Rightarrow> bool" where
  "grid_order sched \<longleftrightarrow> set (sched ((kNum + 255) div 256) 256) = {..<(kNum + 255) div 256} \<times> {..<256}"

text \<open>The device between the phases: the three buffers, the output buffer holding the sums.\<close>

definition gpu_warm :: "nat \<Rightarrow> nat \<Rightarrow> u64 \<Rightarrow> gpu" where
  "gpu_warm p n free = \<lparr>g_mem = (\<lambda>_. None)(p \<mapsto> init_sum, Suc p \<mapsto> init_a, Suc (Suc p) \<mapsto> init_b), g_next = n, g_capture = None,
     g_graphs = \<lambda>_. None, g_execs = \<lambda>_. None, g_free = free, g_fault = False, g_dead = False\<rparr>"

abbreviation warm_call :: "nat \<Rightarrow> kernel_call" where
  "warm_call p \<equiv> saxpy_call (Some p) (Some (Suc p)) (Some (Suc (Suc p)))"

lemma sum_length [simp]: "length init_sum = kNum"
  by (simp add: init_sum_def)

lemma launch_runs:
  assumes "grid_order sched" "g_mem w p = Some out" "length out = kNum" "g_mem w (Suc p) = Some init_a" "g_mem w (Suc (Suc p)) = Some init_b"
  shows "g_run sched (warm_call p) w = w\<lparr>g_mem := (g_mem w)(p \<mapsto> init_sum)\<rparr>"
  using run_threads_all[OF assms(1)[unfolded grid_order_def] init_length assms(3)] assms(2,4,5)
  by (simp add: g_run_def g_buffer_def saxpy_call_def init_sum_def)

lemma launch_again: "grid_order sched \<Longrightarrow> g_run sched (warm_call p) (gpu_warm p n free) = gpu_warm p n free"
  by (subst launch_runs[where out = init_sum]) (simp_all add: gpu_warm_def fun_upd_idem)

lemma cold_runs:
  assumes "grid_order sched" "3 * unat bytes_per_buffer \<le> unat free"
  shows "probe_cold (gpu_runtime sched info base idle broken) ms (out, replicate kNum 0, gpu_new free)
    = Inr ((Some 0, Some 1, Some 2), out @ ''COLD: allocated, transferred, ran, verified in '' @ ms @ '' ms'' @ nl, init_sum,
        gpu_warm 0 3 (free - 3 * bytes_per_buffer))"
proof -
  have f: "\<not> free < bytes_per_buffer" "\<not> free - bytes_per_buffer < bytes_per_buffer" "\<not> free - 2 * bytes_per_buffer < bytes_per_buffer"
    using assms(2) unfolding bytes_small(2) by (simp_all add: word_less_nat_alt unat_sub_if')
  have b: "unat bytes_per_buffer div 4 = kNum" by (simp add: bytes_small(1))
  have m: "(\<lambda>_. None)(Suc 0 \<mapsto> init_a, Suc (Suc 0) \<mapsto> init_b, 0 \<mapsto> init_sum) = (\<lambda>_. None)(0 \<mapsto> init_sum, Suc 0 \<mapsto> init_a, Suc (Suc 0) \<mapsto> init_b)"
    by auto
  show ?thesis using launch_runs[OF assms(1), where p = 0]
    by (simp add: probe_cold_def pr_defs gpu_runtime_def g_malloc_def g_fresh_def gpu_new_def f b g_upload_def g_buffer_def g_launch_def
       g_download_def verify_sum gpu_warm_def m numeral_3_eq_3)
qed

lemma warm_runs:
  assumes "grid_order sched"
  shows "probe_warm (gpu_runtime sched info base idle broken) (warm_call p) ms (out, h, gpu_warm p n free)
    = Inr ((), out @ ''WARM: 32 retained executions in '' @ ms @ '' ms'' @ nl, h, gpu_warm p n free)"
proof -
  have s: "g_launch sched None (warm_call p) (gpu_warm p n free) = gpu_warm p n free"
    using launch_again[OF assms] by (simp add: g_launch_def) (simp add: gpu_warm_def)
  have "\<not> g_fault (gpu_warm p n free)" "\<not> g_dead (gpu_warm p n free)" by (simp_all add: gpu_warm_def)
  then have l: "warm_loop (gpu_runtime sched info base idle broken) (warm_call p) m (out, h, gpu_warm p n free) = Inr ((), out, h, gpu_warm p n free)" for m
    by (induction m) (simp_all add: pr_defs gpu_runtime_def s)
  have "nat_digits kIters = ''32''" by code_simp
  then show ?thesis by (simp add: probe_warm_def prog_bind_def l) (simp add: pr_print_def)
qed

lemma graph_runs:
  assumes "grid_order sched" "p + 3 = n"
  shows "probe_graph (gpu_runtime sched info base idle broken) (warm_call p) (out, init_sum, gpu_warm p n free)
    = Inr (n, out @ ''GRAPH: capture/instantiate/replay verified'' @ nl, init_sum, gpu_warm p (n + 3) free)"
proof -
  let ?x = "gpu_warm p (Suc (Suc (Suc n))) free\<lparr>g_graphs := (\<lambda>_. None)(Suc n \<mapsto> [warm_call p]), g_execs := (\<lambda>_. None)(Suc (Suc n) \<mapsto> [warm_call p])\<rparr>"
  have r: "g_run sched (warm_call p) ?x = ?x"
    by (subst launch_runs[OF assms(1), where out = init_sum]) (simp_all add: gpu_warm_def fun_upd_idem)
  have c: "kc_out (warm_call p) = Some p" by (simp add: saxpy_call_def)
  show ?thesis using r
    by (simp add: probe_graph_def probe_replay_def pr_defs gpu_runtime_def g_fresh_def g_launch_def gpu_warm_def g_download_def
        g_buffer_def c verify_sum numeral_3_eq_3)
qed

lemma device_runs:
  "probe_device (gpu_runtime sched (name, major, minor, mib) base idle broken) (out, h, gpu_new base)
    = Inr (base, out @ (''device: '' @ name @ '' (compute '' @ printf_lld major @ ''.'' @ printf_lld minor @ '', global '' @ show_mib mib @ '' MiB)'') @ nl,
        h, gpu_new base)"
  by (simp add: probe_device_def pr_defs gpu_runtime_def) (simp add: gpu_new_def)

lemma teardown_runs:
  "probe_teardown (gpu_runtime sched info base idle broken) k free_b (out, h, gpu_warm p n free)
    = Inr (base, out @ (''INVALIDATE: free memory '' @ show_mib free @ '' -> '' @ show_mib base @ '' MiB (warmth fell)'') @ nl, h,
        (gpu_new base)\<lparr>g_dead := broken\<rparr>)"
  by (simp add: probe_teardown_def pr_defs gpu_runtime_def) (simp add: gpu_warm_def gpu_new_def)

text \<open>The second warming prints the same whether the device works or not: the host buffer still holds the sums.\<close>

lemma rewarm_runs:
  assumes "grid_order sched" "3 * unat bytes_per_buffer \<le> unat base"
  shows "\<exists>k w. \<forall>out. probe_rewarm (gpu_runtime sched info base idle broken) ms (out, init_sum, (gpu_new base)\<lparr>g_dead := broken\<rparr>)
    = Inr (k, out @ ''REWARM: fresh readiness verified in '' @ ms @ '' ms'' @ nl, init_sum, w)"
proof (cases broken)
  case True
  then show ?thesis
    by (simp add: probe_rewarm_def pr_defs gpu_runtime_def g_malloc_def g_upload_def g_buffer_def g_launch_def g_download_def verify_sum)
next
  case False
  have f: "\<not> base < bytes_per_buffer" "\<not> base - bytes_per_buffer < bytes_per_buffer" "\<not> base - 2 * bytes_per_buffer < bytes_per_buffer"
    using assms(2) unfolding bytes_small(2) by (simp_all add: word_less_nat_alt unat_sub_if')
  have b: "unat bytes_per_buffer div 4 = kNum" by (simp add: bytes_small(1))
  show ?thesis using launch_runs[OF assms(1), where p = 0] False
    by (simp add: probe_rewarm_def pr_defs gpu_runtime_def g_malloc_def g_fresh_def gpu_new_def f b g_upload_def g_buffer_def g_launch_def
       g_download_def verify_sum)
qed

lemma cleanup_runs:
  "\<exists>w'. \<forall>out. probe_cleanup (gpu_runtime sched info base idle broken) k stream baseline after (out, h, w)
    = Inr (baseline \<le> base + 2 ^ 26, out @ (''CLEANUP: free memory '' @ show_mib after @ '' -> '' @ show_mib base @ '' MiB (baseline '' @ show_mib baseline @ '')'') @ nl,
        h, w')"
proof -
  have "push_bit 20 64 = (2 ^ 26 :: u64)" by (simp add: push_bit_eq_mult)
  then show ?thesis by (simp add: probe_cleanup_def pr_defs gpu_runtime_def gpu_new_def)
qed

section \<open>The whole program\<close>

definition probe_log :: "string \<times> int \<times> int \<times> u64 \<Rightarrow> u64 \<Rightarrow> (nat \<Rightarrow> int) \<Rightarrow> string list" where
  "probe_log = (\<lambda>(name, major, minor, mib) base clock.
     let cold = printf_lld (ms_since (clock 0) (clock 1)); warm = printf_lld (ms_since (clock 2) (clock 3));
         rewarm = printf_lld (ms_since (clock 4) (clock 5)) in
     [''device: '' @ name @ '' (compute '' @ printf_lld major @ ''.'' @ printf_lld minor @ '', global '' @ show_mib mib @ '' MiB)'',
      ''COLD: allocated, transferred, ran, verified in '' @ cold @ '' ms'',
      ''WARM: 32 retained executions in '' @ warm @ '' ms'',
      ''GRAPH: capture/instantiate/replay verified'',
      ''INVALIDATE: free memory '' @ show_mib (base - 3 * bytes_per_buffer) @ '' -> '' @ show_mib base @ '' MiB (warmth fell)'',
      ''REWARM: fresh readiness verified in '' @ rewarm @ '' ms'',
      ''CLEANUP: free memory '' @ show_mib base @ '' -> '' @ show_mib base @ '' MiB (baseline '' @ show_mib base @ '')'',
      ''cold='' @ cold @ ''ms warm='' @ warm @ ''ms rewarm='' @ rewarm @ ''ms memory_recovered=1'',
      ''CUDA cold->warm->invalidate->rewarm proof PASSED''])"

lemma probe_runs:
  assumes "grid_order sched" "3 * unat bytes_per_buffer \<le> unat base" "unat base < 2 ^ 64 - 2 ^ 26"
  shows "run_cuda_probe (gpu_runtime sched info base idle broken) clock (gpu_new base)
    = Exits 0 (concat (map (\<lambda>l. l @ nl) (probe_log info base clock))) []"
proof -
  obtain name major minor mib where info: "info = (name, major, minor, mib)" by (cases info)
  have rec: "base \<le> base + 2 ^ 26" using assms(3) by (simp add: word_le_nat_alt unat_word_ariths)
  let ?cu = "gpu_runtime sched info base idle broken"
  let ?cold = "printf_lld (ms_since (clock 0) (clock 1))" and ?warm = "printf_lld (ms_since (clock 2) (clock 3))"
    and ?rewarm = "printf_lld (ms_since (clock 4) (clock 5))"
  obtain k w where r: "\<And>out. probe_rewarm ?cu ?rewarm (out, init_sum, (gpu_new base)\<lparr>g_dead := broken\<rparr>)
      = Inr (k, out @ ''REWARM: fresh readiness verified in '' @ ?rewarm @ '' ms'' @ nl, init_sum, w)"
    using rewarm_runs[OF assms(1,2), of info idle broken ?rewarm] by blast
  obtain w' where c: "\<And>out. probe_cleanup ?cu k 3 base base (out, init_sum, w)
      = Inr (base \<le> base + 2 ^ 26, out @ (''CLEANUP: free memory '' @ show_mib base @ '' -> '' @ show_mib base @ '' MiB (baseline '' @ show_mib base @ '')'') @ nl, init_sum, w')"
    using cleanup_runs[of sched info base idle broken k 3 base base init_sum w] by blast
  have g: "probe_graph ?cu (warm_call 0) (out, init_sum, gpu_warm 0 3 free)
      = Inr (3, out @ ''GRAPH: capture/instantiate/replay verified'' @ nl, init_sum, gpu_warm 0 6 free)" for out free
    using graph_runs[OF assms(1), of 0 3] by simp
  have q: "pr_print s (out, h, w) = Inr ((), out @ s @ nl, h, w)" "pr_require True m (out, h, w) = Inr ((), out, h, w)" for s m out h and w :: gpu
    by (simp_all add: pr_print_def pr_require_def)
  have call: "saxpy_call (Some 0) (Some 1) (Some 2) = warm_call 0" by (simp add: numeral_2_eq_2)
  show ?thesis
    unfolding run_cuda_probe_def cuda_probe_def Let_def prog_bind_def
    by (simp only: sum.case prod.case info device_runs cold_runs[OF assms(1,2)] call warm_runs[OF assms(1)] g[unfolded info] teardown_runs r[unfolded info] c[unfolded info] rec q if_True)
      (simp add: probe_log_def Let_def)
qed

end
