(* ===== verification/Examples.thy ===== *)
theory Examples
  imports Cli
begin

text \<open>
  The example programs under \<open>examples/\<close> and \<open>consumer/\<close> that use the fabric: each is a short run of the library,
  and what it prints is proved. The readings of the clock are \<open>clk 0\<close>, \<open>clk 1\<close>, and so on. The example
  with a coordinator is in \<open>Stale_Authority\<close>.
\<close>

section \<open>The programs\<close>

definition example_fabric :: "string \<Rightarrow> fabric" where
  "example_fabric workload = new_fabric (derive workload) (derive ''node'') ''cuda:0'' ''cuda'' (policy_defaults 1) (2 ^ 30)"

text \<open>\<open>f.get(id)->state()\<close> and the like are undefined without the object.\<close>

definition print_lines :: "string option list \<Rightarrow> cli_outcome" where
  "print_lines ls = (if None \<in> set ls then Unspecified else print_out (concat (map the ls)))"

definition shown_state :: "warmth_object \<Rightarrow> string" where
  "shown_state o' = ''state='' @ state_to_string (wo_state o')"

definition shown_ready :: "warmth_object \<Rightarrow> string" where
  "shown_ready o' = shown_state o' @ '' ready='' @ yes_no (execution_ready o')"

definition measured_ms :: "bool \<Rightarrow> warmth_action \<Rightarrow> double" where
  "measured_ms ok action = (if ok then fst (snd (synthetic_warm action)) else dbl_zero)"

definition example_lifecycle :: "(nat \<Rightarrow> timestamp) \<Rightarrow> cli_outcome" where
  "example_lifecycle clk =
    (let (i, f0) = register_object MODEL_WEIGHTS ''model.weights'' None None None None (example_fabric ''example'');
         (ok, f1) = warm (\<lambda>f. f) (clk 0) (clk 1) i LOAD_MODEL f0;
         f2 = snd (invalidate i IR_MODEL_REVISION_CHANGE f1);
         f3 = snd (warm (\<lambda>f. f) (clk 2) (clk 3) i INIT_ENGINE f2)
     in print_lines
       [with_object i f0 (\<lambda>o'. ''COLD: '' @ shown_ready o' @ nl),
        with_object i f1 (\<lambda>o'. ''WARM: '' @ shown_ready o' @ '' measured='' @ printf_g 6 (measured_ms ok LOAD_MODEL) @ ''ms'' @ nl),
        with_object i f2 (\<lambda>o'. ''INVALIDATED: '' @ shown_state o' @ nl),
        with_object i f3 (\<lambda>o'. ''REWARMED: '' @ shown_ready o' @ '' balanced='' @ yes_no (budgets_balanced f3) @ nl)])"

definition example_decay_invalidation :: "(nat \<Rightarrow> timestamp) \<Rightarrow> cli_outcome" where
  "example_decay_invalidation clk =
    (let (i, f0) = register_object MODEL_WEIGHTS ''model.weights'' None None None None (example_fabric ''example'');
         f1 = snd (warm (\<lambda>f. f) (clk 0) (clk 1) i LOAD_MODEL f0);
         f2 = fabric_decay \<lparr>ev_now = clk 2, ev_pressure = False, ev_dependency = True, ev_reset = False, ev_restart = False\<rparr> f1;
         f3 = fabric_decay \<lparr>ev_now = clk 3 + 3 * 3600 * 1000, ev_pressure = False, ev_dependency = False, ev_reset = False, ev_restart = False\<rparr> f2;
         f4 = snd (warm (\<lambda>f. f) (clk 4) (clk 5) i INIT_ENGINE f3);
         f5 = fabric_decay \<lparr>ev_now = clk 6, ev_pressure = True, ev_dependency = False, ev_reset = False, ev_restart = False\<rparr> f4
     in print_lines
       [with_object i f1 (\<lambda>o'. ''setup: '' @ shown_state o' @ nl),
        with_object i f2 (\<lambda>o'. ''after dep change: '' @ shown_ready o' @ nl),
        with_object i f3 (\<lambda>o'. ''after idle: '' @ shown_state o' @ nl),
        with_object i f4 (\<lambda>o'. ''rewarmed: '' @ shown_state o' @ nl),
        with_object i f5 (\<lambda>o'. ''after memory pressure: '' @ shown_state o' @ nl)])"

definition budget_example_policy :: warmth_policy where
  "budget_example_policy = (let p = policy_defaults 1 in
     p\<lparr>pol_budgets := (pol_budgets p)\<lparr>device_memory_bytes := 2 ^ 30, concurrent_warming_ops := 1\<rparr>\<rparr>)"

definition warm_line :: "string \<Rightarrow> bool \<Rightarrow> fabric \<Rightarrow> string" where
  "warm_line name ok f = ''warm '' @ name @ '': '' @ (if ok then ''ok'' else ''infeasible'') @ '' (budget usage='' @
     show_u64 (budget_usage BK_DEVICE_MEMORY f) @ '')'' @ nl"

definition example_budget_schedule :: "(nat \<Rightarrow> timestamp) \<Rightarrow> cli_outcome" where
  "example_budget_schedule clk =
    (let f0 = new_fabric (derive ''example'') (derive ''node'') ''cuda:0'' ''cuda'' budget_example_policy (2 ^ 30);
         (a, f1) = register_object MODEL_WEIGHTS ''a.model'' None None None None f0;
         (b, f2) = register_object MODEL_WEIGHTS ''b.model'' None None None None f1;
         (wa, f3) = warm (\<lambda>f. f) (clk 0) (clk 1) a LOAD_MODEL f2;
         (wb, f4) = warm (\<lambda>f. f) (clk 2) (clk 3) b LOAD_MODEL f3
     in print_out (warm_line ''a'' wa f3 @ warm_line ''b'' wb f4 @ plan_to_text (explain_plan f4) @
          ''balanced after all='' @ yes_no (budgets_balanced f4) @ nl))"

text \<open>An exception of \<open>encode_snapshot\<close> inside \<open>save\<close> is among the errors of \<open>fabric_save\<close>.\<close>

definition example_persistence :: "'w cli_env \<Rightarrow> cli_outcome" where
  "example_persistence env =
    (let (i, f0) = register_object MODEL_WEIGHTS ''model.weights'' None None None None (example_fabric ''example'');
         f1 = snd (warm (\<lambda>f. f) (env_clock env 0) (env_clock env 1) i LOAD_MODEL f0)
     in case fabric_save (env_io env) ''example.wfbin'' f1 (env_files env) of
          Deadlock \<Rightarrow> Hangs []
        | Done (Inl e, _) \<Rightarrow> Exits 1 (''save failed: '' @ e @ nl) []
        | Done (Inr _, fs) \<Rightarrow>
            let out = ''saved snapshot: '' @ nat_digits (object_count f1) @ '' objects'' @ nl
            in case recover (env_io env) ''example.wfbin'' fs (example_fabric ''example'') of
                 (Inl e, _) \<Rightarrow> Exits 1 (out @ ''recover failed: '' @ e @ nl) []
               | (Inr _, f2) \<Rightarrow> print_out (out @ ''recovered: '' @ nat_digits (object_count f2) @ '' objects; live dims must be revalidated'' @ nl @
                   ''recovered object state='' @ (case fabric_get i f2 of None \<Rightarrow> ''absent'' | Some o' \<Rightarrow> state_to_string (wo_state o')) @
                   '' ready='' @ yes_no (case fabric_get i f2 of None \<Rightarrow> False | Some o' \<Rightarrow> execution_ready o') @
                   '' (ephemeral revalidation required)'' @ nl))"

definition readiness_example_dims :: warmth_dimensions where
  "readiness_example_dims = dims_default\<lparr>model_residency := D_PARTIAL, artifact_availability := D_VALID,
     artifact_validation := D_VALID, local_dependency_readiness := D_VALID\<rparr>"

definition example_readiness :: cli_outcome where
  "example_readiness =
    (let (i, f0) = register_object MODEL_WEIGHTS ''model.weights'' None None None None (example_fabric ''example'');
         f1 = snd (fabric_set_dimensions i readiness_example_dims f0);
         rule = replicate 20 (CHR ''='') @ nl
     in print_lines [Some rule, map_option readiness_to_text (explain i f1), Some rule, Some (plan_to_text (explain_plan f1))])"

definition consumer_main :: "(nat \<Rightarrow> timestamp) \<Rightarrow> cli_outcome" where
  "consumer_main clk =
    (let (i, f0) = register_object MODEL_WEIGHTS ''consumer.model'' None None None None (example_fabric ''consumer'');
         f1 = snd (warm (\<lambda>f. f) (clk 0) (clk 1) i LOAD_MODEL f0)
     in print_out (''downstream consumer: state='' @ (case fabric_get i f1 of None \<Rightarrow> ''absent'' | Some o' \<Rightarrow> state_to_string (wo_state o')) @
          '' ready='' @ yes_no (case fabric_get i f1 of None \<Rightarrow> False | Some o' \<Rightarrow> execution_ready o') @
          '' balanced='' @ yes_no (budgets_balanced f1) @ nl))"

section \<open>One object in a fabric of its own\<close>

lemma example_registered:
  "\<exists>i f o'. register_object MODEL_WEIGHTS owner None None None None (example_fabric workload) = (i, f) \<and> fb_op f = None \<and> fb_objects f = [(i, o')]
     \<and> fb_budget f = idle_budget 1 [] \<and> fb_policy f = policy_defaults 1 \<and> wo_state o' = COLD \<and> wo_dims o' = dims_default"
  by (simp add: register_object_def example_fabric_def new_fabric_def new_object_def Let_def policy_defaults_def new_tracker_def idle_budget_def)

lemma cold_warms: "transition_allowed COLD PREPARING" "transition_allowed INVALIDATED PREPARING"
  by (simp_all add: transition_allowed_def)

lemmas example_outputs = print_lines_def with_object_def fabric_get_def shown_ready_def shown_state_def execution_ready_def
  is_execution_ready_def yes_no_def

lemma lifecycle_output:
  "example_lifecycle clk = Exits 0 (concat (map (\<lambda>l. l @ nl) [''COLD: state=COLD ready=no'',
     ''WARM: state=WARM ready=yes measured='' @ printf_g 6 (fst (snd (synthetic_warm LOAD_MODEL))) @ ''ms'',
     ''INVALIDATED: state=INVALIDATED'', ''REWARMED: state=WARM ready=yes balanced=yes''])) []"
proof -
  obtain i f0 o0 where r: "register_object MODEL_WEIGHTS ''model.weights'' None None None None (example_fabric ''example'') = (i, f0)"
    and f0: "fb_op f0 = None" "fb_objects f0 = [(i, o0)]" "fb_budget f0 = idle_budget 1 []" "wo_state o0 = COLD"
    using example_registered by metis
  obtain f1 f2 f3 o1 o2 o3 where h: "warm (\<lambda>f. f) (clk 0) (clk 1) i LOAD_MODEL f0 = (True, f1)"
    "invalidate i IR_MODEL_REVISION_CHANGE f1 = (True, f2)" "warm (\<lambda>f. f) (clk 2) (clk 3) i INIT_ENGINE f2 = (True, f3)"
    and o: "fabric_get i f1 = Some o1" "fabric_get i f2 = Some o2" "fabric_get i f3 = Some o3"
      "wo_state o1 = WARM" "wo_state o2 = INVALIDATED" "wo_state o3 = WARM" "budgets_balanced f3"
    using warm_cycle[OF f0, of "clk 0" "clk 1" LOAD_MODEL "clk 2" "clk 3"] by metis
  show ?thesis using o f0
    by (simp add: example_lifecycle_def r h example_outputs Let_def measured_ms_def print_out_def del: One_nat_def)
qed

lemma consumer_output: "consumer_main clk = Exits 0 (''downstream consumer: state=WARM ready=yes balanced=yes'' @ nl) []"
proof -
  obtain i f0 o0 where r: "register_object MODEL_WEIGHTS ''consumer.model'' None None None None (example_fabric ''consumer'') = (i, f0)"
    and f0: "fb_op f0 = None" "fb_objects f0 = [(i, o0)]" "fb_budget f0 = idle_budget 1 []" "wo_state o0 = COLD"
    using example_registered by metis
  obtain f1 f2 f3 o1 where h: "warm (\<lambda>f. f) (clk 0) (clk 1) i LOAD_MODEL f0 = (True, f1)" "fabric_get i f1 = Some o1" "wo_state o1 = WARM"
    using warm_cycle[OF f0, of "clk 0" "clk 1" LOAD_MODEL] by metis
  have c: "transition_allowed (wo_state o0) PREPARING" by (simp add: f0(4) cold_warms)
  have "budgets_balanced f1" using idle_warm[OF f0(1-3) c, of "clk 0" "clk 1" LOAD_MODEL] h(1)
    by (auto simp: budgets_balanced_def balanced_def idle_budget_def)
  then show ?thesis using h by (simp add: consumer_main_def r execution_ready_def is_execution_ready_def yes_no_def print_out_def del: One_nat_def)
qed

lemma decay_single:
  assumes "fb_objects f = [(i, o')]" "fb_policy f = policy_defaults 1"
  shows "fb_objects (fabric_decay e f) = [(i, decay_apply decay_policy_default e o')]" "fb_op (fabric_decay e f) = fb_op f"
    "fb_budget (fabric_decay e f) = fb_budget f" "fb_policy (fabric_decay e f) = policy_defaults 1"
  using assms by (simp_all add: fabric_decay_def map_update_all_def policy_defaults_def)

lemma decay_visits:
  "wo_state o' = WARM \<Longrightarrow> ev_dependency e \<Longrightarrow> wo_state (decay_apply decay_policy_default e o') = STALE"
  "wo_state o' = WARM \<Longrightarrow> e = \<lparr>ev_now = t, ev_pressure = True, ev_dependency = False, ev_reset = False, ev_restart = False\<rparr> \<Longrightarrow>
    wo_state (decay_apply decay_policy_default e o') = PARTIALLY_WARM"
  "idle_baseline (decay_apply p e o') = idle_baseline o'"
  by (simp_all add: wo_state_decay_apply decay_result_of_def decay_object_def Let_def go_stale_def decay_to_def decay_policy_default_def)
    (simp add: decay_apply_def Let_def transition_def idle_baseline_def)

text \<open>With readings of the clock in order and not absurdly far apart, the decay example goes through the states its
  comments name: \<open>STALE\<close>, \<open>INVALIDATED\<close>, \<open>WARM\<close>, \<open>PARTIALLY_WARM\<close>.\<close>

lemma decay_example_output:
  assumes "clk 1 \<noteq> 0" "0 \<le> sint (clk 3 + 3 * 3600 * 1000 - clk 1) - 600000" "sint (clk 3 + 3 * 3600 * 1000 - clk 1) < 2 ^ 53"
  shows "example_decay_invalidation clk = Exits 0 (concat (map (\<lambda>l. l @ nl) [''setup: state=WARM'', ''after dep change: state=STALE ready=no'',
     ''after idle: state=INVALIDATED'', ''rewarmed: state=WARM'', ''after memory pressure: state=PARTIALLY_WARM''])) []"
proof -
  obtain i f0 o0 where r: "register_object MODEL_WEIGHTS ''model.weights'' None None None None (example_fabric ''example'') = (i, f0)"
    and f0: "fb_op f0 = None" "fb_objects f0 = [(i, o0)]" "fb_budget f0 = idle_budget 1 []" "fb_policy f0 = policy_defaults 1" "wo_state o0 = COLD"
    using example_registered by metis
  have c: "transition_allowed (wo_state o0) PREPARING" by (simp add: f0(5) cold_warms)
  define o1 where "o1 = warmed LOAD_MODEL (clk 0) (clk 1) o0"
  obtain f1 u1 where 1: "warm (\<lambda>f. f) (clk 0) (clk 1) i LOAD_MODEL f0 = (True, f1)" "fb_objects f1 = [(i, o1)]"
    "fb_op f1 = None" "fb_budget f1 = idle_budget (1 + 2) u1" "fb_policy f1 = policy_defaults 1"
    using idle_warm[OF f0(1-3) c, of "clk 0" "clk 1" LOAD_MODEL] f0(4) by (auto simp: o1_def)
  have o1: "wo_state o1 = WARM" "idle_baseline o1 = clk 1"
    using warmed_fields(1)[OF c] assms(1) by (simp_all add: o1_def) (simp add: idle_baseline_def warmed_def synthetic_warm_def record_warm_def)
  define e2 e3 e5 where "e2 = \<lparr>ev_now = clk 2, ev_pressure = False, ev_dependency = True, ev_reset = False, ev_restart = False\<rparr>"
    and "e3 = \<lparr>ev_now = clk 3 + 3 * 3600 * 1000, ev_pressure = False, ev_dependency = False, ev_reset = False, ev_restart = False\<rparr>"
    and "e5 = \<lparr>ev_now = clk 6, ev_pressure = True, ev_dependency = False, ev_reset = False, ev_restart = False\<rparr>"
  define o2 o3 where "o2 = decay_apply decay_policy_default e2 o1" and "o3 = decay_apply decay_policy_default e3 o2"
  have o2: "wo_state o2 = STALE" "idle_baseline o2 = clk 1" using decay_visits(1)[OF o1(1)] by (simp_all add: o2_def e2_def decay_visits(3) o1(2))
  have "wo_state o3 = idle_timetable (sint (clk 3 + 3 * 3600 * 1000 - clk 1)) STALE"
    using decay_object_timetable[of "clk 3 + 3 * 3600 * 1000" o2] assms(3) unfolding o2
    by (simp add: o3_def wo_state_decay_apply decay_result_of_def e3_def)
  then have o3: "wo_state o3 = INVALIDATED" using assms(2) by simp
  note f2 = decay_single[OF 1(2,5), of e2, unfolded 1(3,4) o2_def[symmetric]]
  note f3 = decay_single[OF f2(1,4), of e3, unfolded f2(2,3) o3_def[symmetric]]
  have p: "transition_allowed (wo_state o3) PREPARING" by (simp add: o3 cold_warms)
  obtain f4 u4 where 4: "warm (\<lambda>f. f) (clk 4) (clk 5) i INIT_ENGINE (fabric_decay e3 (fabric_decay e2 f1)) = (True, f4)"
    "fb_objects f4 = [(i, warmed INIT_ENGINE (clk 4) (clk 5) o3)]" "fb_policy f4 = policy_defaults 1"
    using idle_warm[OF f3(2,1,3) p, of "clk 4" "clk 5" INIT_ENGINE] f3(4) by auto
  note o4 = warmed_fields(1)[OF p, of INIT_ENGINE "clk 4" "clk 5"]
  have o5: "wo_state (decay_apply decay_policy_default e5 (warmed INIT_ENGINE (clk 4) (clk 5) o3)) = PARTIALLY_WARM"
    by (rule decay_visits(2)[OF o4 e5_def])
  show ?thesis
    unfolding example_decay_invalidation_def e2_def[symmetric] e3_def[symmetric] e5_def[symmetric]
    by (simp add: r 1 4 f2(1) f3(1) decay_single(1)[OF 4(2,3)] o1(1) o2(1) o3 o4 o5 example_outputs Let_def print_out_def del: One_nat_def)
qed

text \<open>The persistence example never gets past \<open>save\<close>, which locks the fabric twice.\<close>

lemma persistence_hangs: "example_persistence env = Hangs []"
  by (simp add: example_persistence_def fabric_save_def snapshot_deadlocks Let_def split: prod.split)

end
