(* ===== verification/Stale_Authority.thy ===== *)
theory Stale_Authority
  imports Restart
begin

text \<open>
  \<open>examples/example_stale_authority.cpp\<close>: a coordinator and a worker as threads of one process, an object
  warmed through them, and a report under another epoch sent from a connection of its own. The main thread is a
  program over the worlds of \<open>Multiprocess\<close>; in that of \<open>Restart\<close> it runs to its end, and prints the same
  whatever epoch the report carries: what refuses it is that its connection has not registered.
\<close>

section \<open>The program\<close>

definition sa_worker_id :: id128 where "sa_worker_id = derive ''example-worker''"
definition sa_boot :: id128 where "sa_boot = derive ''example-boot''"
definition sa_object :: id128 where "sa_object = derive ''example-object''"

definition sa_worker :: worker where
  "sa_worker = new_worker sa_worker_id sa_boot (derive ''n'') (derive ''wl'') ''cuda'' [''cuda:0''] [0, 1]"

definition sa_report :: "u64 \<Rightarrow> u64 \<Rightarrow> u64 \<Rightarrow> report_payload" where
  "sa_report epoch wg dg = \<lparr>rp_boot = sa_boot, rp_epoch = epoch, rp_warmth_gen = wg, rp_dep_gen = dg,
     rp_objects = [restore_state WARM ''stale'' (new_object sa_object MODEL_WEIGHTS (derive ''wl'') (derive ''n'') ''cuda:0'' ''cuda'')]\<rparr>"

definition mt_report :: "'s process_world \<Rightarrow> u64 \<Rightarrow> nat option \<Rightarrow> ('s, unit) main_thread" where
  "mt_report w skew conn = (case conn of None \<Rightarrow> prog_return ()
     | Some cid \<Rightarrow>
         prog_bind (mt_look w co_current_epoch) (\<lambda>epoch.
         prog_bind (mt_look w co_warmth_generation) (\<lambda>wg.
         prog_bind (mt_look w co_dependency_generation) (\<lambda>dg.
         prog_bind (mt_world w (pw_write w cid (plain_frame MT_REPORT (encode_report (sa_report (epoch + skew) wg dg))))) (\<lambda>_.
         mt_world w (\<lambda>s. ((), pw_close w cid s)))))))"

definition shown :: "warmth_object option \<Rightarrow> string" where
  "shown ob = ''state='' @ state_text ob @ '' ready='' @ yes_no (ready_object ob)"

text \<open>\<open>start\<close> creates the worker's thread, \<open>up\<close> reads the flag it sets when it has connected; the program has \<open>skew = 100\<close>.\<close>

definition stale_authority_main ::
  "'s process_world \<Rightarrow> (worker \<Rightarrow> 's \<Rightarrow> 's) \<Rightarrow> ('s \<Rightarrow> bool) \<Rightarrow> u64 \<Rightarrow> ('s, unit) main_thread" where
  "stale_authority_main w start up skew =
     prog_bind (mt_world w (\<lambda>s. ((), start sa_worker s))) (\<lambda>_.
     prog_bind (\<lambda>(out, sc). Inr ((), out, poll (pw_others w) (\<lambda>sc. \<not> up (fst sc)) 400 sc)) (\<lambda>_.
     prog_bind (mt_poll w 400 (\<lambda>c. registered_workers c < 1)) (\<lambda>_.
     prog_bind (mt_issue w sa_object LOAD_MODEL sa_worker_id) (\<lambda>_.
     prog_bind (mt_wait w) (\<lambda>_.
     prog_bind (mt_look w (find_object sa_object)) (\<lambda>ob.
     prog_bind (mt_print (''object warm under authority: '' @ shown ob)) (\<lambda>_.
     prog_bind (mt_world w (pw_connect w)) (\<lambda>conn.
     prog_bind (mt_report w skew conn) (\<lambda>_.
     prog_bind (mt_look w (find_object sa_object)) (\<lambda>ob.
     mt_print (''after stale-epoch report: '' @ shown ob @ '' (must still be ready)'')))))))))))"

definition example_stale_authority ::
  "'s process_world \<Rightarrow> (worker \<Rightarrow> 's \<Rightarrow> 's) \<Rightarrow> ('s \<Rightarrow> bool) \<Rightarrow> u64 \<Rightarrow> u16 option \<Rightarrow> 's \<Rightarrow> process_outcome" where
  "example_stale_authority w start up skew started s = (case started of None \<Rightarrow> leave False 1 [] []
     | Some port \<Rightarrow> (case stale_authority_main w start up skew ([], s, new_coordinator) of Inl r \<Rightarrow> r
         | Inr (_, out, sc) \<Rightarrow> (case pw_stop w sc of None \<Rightarrow> Blocks out
             | Some (s', c') \<Rightarrow> leave False 0 (out @ ''stale authority rejected; accounting balanced='' @ yes_no (co_balanced c') @ nl) [])))"

section \<open>A worker thread in the world of processes\<close>

definition start_thread :: "worker \<Rightarrow> procs \<Rightarrow> procs" where
  "start_thread w s = s\<lparr>ps_next := Suc (ps_next s), ps_accepting := ps_accepting s @ [ps_next s],
     ps_joining := map_set (ps_next s) w (ps_joining s),
     ps_inbox := ps_inbox s @ [(ps_next s, plain_frame MT_HELLO (encode_hello (worker_hello w)))]\<rparr>"

definition has_worker :: "procs \<Rightarrow> bool" where
  "has_worker s \<longleftrightarrow> ps_workers s \<noteq> []"

lemma thread_round:
  assumes "quiet s" "hello_ok (worker_hello w)" "wk_observed w = []" "\<not> stale_boot (worker_hello w) (on_connection (ps_next s) c)"
  shows "others_round clk wclk (start_thread w s, c)
    = (s\<lparr>ps_next := Suc (ps_next s), ps_workers := map_set (ps_next s) (joined_worker w c) (ps_workers s)\<rparr>, joined (ps_next s) w c)"
proof -
  let ?s = "s\<lparr>ps_next := Suc (ps_next s)\<rparr>" and ?n = "ps_next s"
  have q: "quiet ?s" using assms(1) by (simp add: quiet_workers)
  define s1 where "s1 = ?s\<lparr>ps_joining := [(?n, w)], ps_inbox := []\<rparr>"
  obtain p where p: "handle_frame ?n (clk s1) (plain_frame MT_HELLO (encode_hello (worker_hello w))) (on_connection ?n c)
      = ([(?n, MT_HELLO_ACK, p)], joined ?n w c)" "worker_accept (plain_frame MT_HELLO_ACK p) w = (True, joined_worker w c)"
    using hello_frame[OF assms(2-4)] by blast
  have "deliver clk (accept_main (start_children (start_thread w s, c)))
      = (?s\<lparr>ps_joining := [(?n, w)], ps_mail := [(?n, plain_frame MT_HELLO_ACK p)]\<rparr>, joined ?n w c)"
    using quietD[OF assms(1)] p(1) by (simp add: start_thread_def start_children_def accept_main_def deliver_def s1_def upd_same)
  then show ?thesis
    using quietD[OF assms(1)] p(2) by (simp add: others_round_def workers_turn_def worker_turn_def deliver_def end_connections_def upd_same)
qed

section \<open>The run\<close>

lemma sa_report_refused:
  assumes "\<not> cn_registered (conn_of cid c)"
  shows "handle_frame cid clock (plain_frame MT_REPORT (encode_report (sa_report e g d))) c = ([(cid, MT_ERROR, [])], c)"
proof -
  have "report_ok (sa_report e g d)"
    by (simp add: report_ok_def sa_report_def obj_wire_ok_def new_object_def restore_state_def)
  then have "\<exists>p. decode_report (encode_report (sa_report e g d)) = Inr (p, [])"
    using report_codec.dec_enc[of "sa_report e g d" "[]"] by simp
  then show ?thesis using assms by (auto simp: handle_frame_def plain_frame_def handle_report_def authority_ok_def)
qed

text \<open>The coordinator with the worker.\<close>

definition sa_joined :: coordinator where
  "sa_joined = joined 0 sa_worker new_coordinator"

definition sa_conn :: conn_state where
  "sa_conn = \<lparr>cn_id = sa_worker_id, cn_boot = sa_boot, cn_node = derive ''n'', cn_registered = True, cn_backend = ''cuda''\<rparr>"

lemma sa_joined: "sa_joined = new_coordinator\<lparr>co_conns := [(0, sa_conn)], co_workers := [(sa_worker_id, 0)], co_last_boot := [(sa_worker_id, sa_boot)]\<rparr>"
  by (simp add: sa_joined_def joined_def on_connection_def hello_register_def worker_hello_def sa_worker_def new_worker_def
      new_coordinator_def conn_of_def Let_def sa_conn_def)

lemma sa_worker_ok: "hello_ok (worker_hello sa_worker)" "wk_observed sa_worker = []" "\<not> wk_shutdown (joined_worker sa_worker c)"
  "\<not> stale_boot (worker_hello sa_worker) (on_connection 0 new_coordinator)" "in_sync 0 (joined_worker sa_worker new_coordinator) sa_joined"
  by (simp_all add: hello_ok_def worker_hello_def sa_worker_def new_worker_def joined_worker_def stale_boot_def on_connection_def
      sa_joined in_sync_def authority_ok_def conn_of_def sa_conn_def) (simp_all add: new_coordinator_def)

definition sa_idle :: "nat \<Rightarrow> worker \<Rightarrow> procs" where
  "sa_idle n w = no_procs\<lparr>ps_next := n, ps_workers := [(0, w)]\<rparr>"

lemma sa_idle: "quiet (sa_idle n w)" "ps_next (sa_idle n w) = n" "ps_workers (sa_idle n w) = [(0, w)]" "ps_sockets (sa_idle n w) = []"
  "sa_idle n w\<lparr>ps_workers := [(0, w')]\<rparr> = sa_idle n w'" "sa_idle n w\<lparr>ps_next := n'\<rparr> = sa_idle n' w"
  by (simp_all add: sa_idle_def no_procs_def quiet_def)

lemma sa_starts:
  "others_round clk wclk (start_thread sa_worker no_procs, new_coordinator) = (sa_idle 1 (joined_worker sa_worker new_coordinator), sa_joined)"
  using thread_round[of no_procs sa_worker new_coordinator clk wclk] sa_worker_ok(1,2,4)
  by (simp add: quiet_def no_procs_def sa_joined_def sa_idle_def)

lemma sa_orders:
  "\<exists>sc w' u o'. mt_issue (procs_world clk wclk) sa_object LOAD_MODEL sa_worker_id (out, sa_idle 1 (joined_worker sa_worker new_coordinator), sa_joined)
      = Inr (True, out, sc)
    \<and> others_round clk wclk sc = (sa_idle 1 w', answered 0 sa_object 3 u o' sa_joined) \<and> wo_state o' = WARM"
proof -
  have k: "(1::u64) + 1 \<noteq> 0" "(1::u64) + 2 = 3" by simp_all
  have b: "co_budget sa_joined = idle_budget 1 []" by (simp add: sa_joined new_coordinator_def idle_budget_def new_tracker_def)
  show ?thesis
    using order_settles[OF sa_idle(1)[where n = 1] _ sa_worker_ok(3,5) b, where worker = sa_worker_id and object = sa_object]
    by (simp add: sa_idle k sa_joined) (simp add: new_coordinator_def)
qed

lemma sa_report_runs:
  assumes "co_conns c = [(0, cs)]"
  shows "prog_bind (mt_world (procs_world clk wclk) (pw_connect (procs_world clk wclk))) (mt_report (procs_world clk wclk) skew) (out, sa_idle 1 w, c)
    = Inr ((), out, sa_idle 2 w\<lparr>ps_gone := [1]\<rparr>, on_connection 1 c)"
proof -
  define c1 where "c1 = on_connection 1 c"
  define s1 where "s1 = sa_idle 2 w\<lparr>ps_sockets := [1]\<rparr>"
  have q: "quiet s1" by (simp add: s1_def quiet_workers sa_idle(1))
  have n: "\<not> cn_registered (conn_of 1 c1)" by (simp add: c1_def conn_of_def on_connection_def new_conn_def)
  have 1: "mt_world (procs_world clk wclk) (pw_connect (procs_world clk wclk)) (out, sa_idle 1 w, c) = Inr (Some 1, out, s1\<lparr>ps_accepting := [1]\<rparr>, c)"
    by (simp add: mt_defs world_ops quiet_round[OF sa_idle(1)] sa_idle) (simp add: s1_def sa_idle_def no_procs_def)
  have l: "mt_look (procs_world clk wclk) f (out, s1\<lparr>ps_accepting := [1]\<rparr>, c) = Inr (f c1, out, s1, c1)"
    "mt_look (procs_world clk wclk) f (out, s1, c1) = Inr (f c1, out, s1, c1)" for f :: "coordinator \<Rightarrow> u64"
    by (simp_all add: mt_defs world_ops accept_round[OF q] quiet_round[OF q] c1_def)
  have m: "map_find 1 (ps_workers s1) = None" by (simp add: s1_def sa_idle)
  note f = main_frame_round[OF q m sa_report_refused[OF n]]
  show ?thesis unfolding prog_bind_def[of "mt_world (procs_world clk wclk) (pw_connect (procs_world clk wclk))"] 1
    using quietD[OF q]
    by (simp add: mt_report_def prog_bind_def l del: One_nat_def)
      (simp add: mt_world_def world_ops quiet_round[OF q] f del: One_nat_def, simp add: s1_def c1_def sa_idle_def no_procs_def)
qed

lemma prog_bind_assoc: "prog_bind m (\<lambda>x. prog_bind (f x) g) st = prog_bind (prog_bind m f) g st"
  by (simp add: prog_bind_def split: sum.split)

lemma disconnect_budget: "co_budget (on_disconnect cid clock c) = co_budget c"
  using keeps_on_disconnect[of cid clock] by (simp add: keeps_def co_core_def)

lemma stale_authority_output:
  "example_stale_authority (procs_world clk wclk) start_thread has_worker skew (Some port) no_procs
    = Returns 0 (concat (map (\<lambda>l. l @ nl) [''object warm under authority: state=WARM ready=yes'',
        ''after stale-epoch report: state=WARM ready=yes (must still be ready)'', ''stale authority rejected; accounting balanced=yes''])) []"
proof -
  let ?W = "procs_world clk wclk" and ?w = "joined_worker sa_worker new_coordinator"
  obtain sc w' u o' where i: "mt_issue ?W sa_object LOAD_MODEL sa_worker_id ([], sa_idle 1 ?w, sa_joined) = Inr (True, [], sc)"
    "others_round clk wclk sc = (sa_idle 1 w', answered 0 sa_object 3 u o' sa_joined)" and o': "wo_state o' = WARM"
    using sa_orders[of clk wclk "[]"] by blast
  define c where "c = answered 0 sa_object 3 u o' sa_joined"
  have c: "co_conns c = [(0, sa_conn)]" "co_workers c = [(sa_worker_id, 0)]" "find_object sa_object c = Some o'" "settled c" "co_budget c = idle_budget 3 u"
    using answered_settled[of sa_joined] answered_fields(3,4) by (simp_all add: c_def) (simp_all add: answered_def worker_objects_insert_def sa_joined new_coordinator_def)
  define c1 where "c1 = on_connection 1 c"
  have c1: "find_object sa_object c1 = Some o'" "co_budget c1 = idle_budget 3 u" "co_workers c1 = [(sa_worker_id, 0)]" "on_disconnect 1 clock c1 = c1" for clock
    using c by (simp_all add: c1_def find_object_def on_connection_def on_disconnect_def conn_of_def new_conn_def)
  have "shown (Some o') = ''state=WARM ready=yes''"
    using o' by (simp add: shown_def state_text_def ready_object_def execution_ready_def is_execution_ready_def yes_no_def)
  note f = this c(3) c1(1)
  have q0: "quiet no_procs" by (simp add: quiet_def no_procs_def)
  have 1: "mt_world ?W (\<lambda>s. ((), start_thread sa_worker s)) ([], no_procs, new_coordinator) = Inr ((), [], start_thread sa_worker no_procs, new_coordinator)"
    by (simp add: mt_defs world_ops quiet_round[OF q0])
  have 2: "poll (pw_others ?W) (\<lambda>sc. \<not> has_worker (fst sc)) 400 (start_thread sa_worker no_procs, new_coordinator) = (sa_idle 1 ?w, sa_joined)"
    by (simp add: world_ops poll_once sa_starts has_worker_def sa_idle)
  have 3: "mt_poll ?W 400 (\<lambda>c. registered_workers c < 1) ([], sa_idle 1 ?w, sa_joined) = Inr ((), [], sa_idle 1 ?w, sa_joined)"
    unfolding mt_poll_def prod.case world_ops(1) by (subst poll_once) (simp_all add: quiet_round[OF sa_idle(1)] registered_workers_def sa_joined)
  have 4: "mt_wait ?W ([], sc) = Inr ((), [], sa_idle 1 w', c)" using c(4) by (simp add: mt_wait_def world_ops i(2) c_def)
  have 5: "mt_look ?W f (out, sa_idle 1 w', c) = Inr (f c, out, sa_idle 1 w', c)" for out and f :: "coordinator \<Rightarrow> warmth_object option"
    by (simp add: mt_defs world_ops quiet_round[OF sa_idle(1)])
  have 6: "prog_bind (mt_world ?W (pw_connect ?W)) (\<lambda>conn. prog_bind (mt_report ?W skew conn) g) (out, sa_idle 1 w', c)
      = g () (out, sa_idle 2 w'\<lparr>ps_gone := [1]\<rparr>, c1)" for out and g :: "unit \<Rightarrow> (procs, unit) main_thread"
    unfolding prog_bind_assoc c1_def prog_bind_def[of "prog_bind _ _"] by (simp add: sa_report_runs[OF c(1)] del: One_nat_def)
  have 7: "mt_look ?W f (out, sa_idle 2 w'\<lparr>ps_gone := [1]\<rparr>, c1) = Inr (f c1, out, sa_idle 2 w', c1)" for out and f :: "coordinator \<Rightarrow> warmth_object option"
    by (simp add: mt_defs world_ops gone_round[OF sa_idle(1)] c1(4) del: One_nat_def)
  have p: "mt_print t (out, sc) = Inr ((), out @ t @ nl, sc)" for t out and sc :: "procs \<times> coordinator" by (simp add: mt_print_def)
  have "stale_authority_main ?W start_thread has_worker skew ([], no_procs, new_coordinator)
      = Inr ((), ([] @ (''object warm under authority: '' @ shown (Some o')) @ nl) @
          (''after stale-epoch report: '' @ shown (Some o') @ '' (must still be ready)'') @ nl, sa_idle 2 w', c1)"
    unfolding stale_authority_main_def
    by (simp only: prog_bind_def[of "mt_world ?W (\<lambda>s. ((), start_thread sa_worker s))"] prog_bind_def[of "\<lambda>(out, sc). Inr ((), out, poll (pw_others ?W) (\<lambda>sc. \<not> has_worker (fst sc)) 400 sc)"]
        prog_bind_def[of "mt_poll w n go" for w n go] prog_bind_def[of "mt_issue w x a k" for w x a k] prog_bind_def[of "mt_wait w" for w]
        prog_bind_def[of "mt_look w g" for w g] prog_bind_def[of "mt_print t" for t] sum.case prod.case 1 2 3 4 5 6 7 i(1) p c(3) c1(1))
  moreover have "pw_stop ?W (sa_idle 2 w', c1) = Some (sa_idle 2 w'\<lparr>ps_workers := []\<rparr>, on_disconnect 0 (clk (sa_idle 2 w')) c1)"
    by (simp add: procs_world_def c1(3)) (simp add: sa_idle_def no_procs_def)
  ultimately show ?thesis
    by (simp add: example_stale_authority_def leave_def f(1) co_balanced_def disconnect_budget c1(2) outstanding_def idle_budget_def yes_no_def)
qed

end
