(* ===== verification/Spec2Isabelle.thy ===== *)
theory Spec2Isabelle
  imports Sha256 Scheduler Invalidation Scenario Cli Cursor Restart_Run Cuda_Device Examples Stale_Authority
begin

text \<open>
  Warmth Fabric: a verification of the library under \<open>src/include/warmth\<close> and \<open>src/src\<close>.

  \<^bold>\<open>The program.\<close> The library keeps track of how ready the parts of an inference stack are
  (weights, contexts, kernels, graphs, and so on). Each part is a warmth object with a guarded state machine and
  twelve readiness dimensions. The in-process \<open>WarmthFabric\<close> (\<open>fabric.cpp\<close>) holds the objects of one
  workload, warms them under budgets, lets them decay, plans and explains, and saves and recovers
  snapshots. The distributed part has a \<open>Coordinator\<close> (\<open>coordinator.cpp\<close>), which owns the authoritative
  objects, generations and budgets, and \<open>Worker\<close>s (\<open>worker.cpp\<close>), which register with it, receive
  warming orders and return results in checksummed frames over TCP.

  \<^bold>\<open>The theories\<close>, in the order they build on each other:

  \<^item> \<open>Prelude\<close>: machine words, \<open>std::map\<close> as a sorted association list (locale \<open>ordered_map\<close>),
    \<open>std::sort\<close> by a comparator (locale \<open>tie_broken_order\<close>: any algorithm returns the same list).
  \<^item> \<open>Ieee_Double\<close>: \<open>double\<close> as its 64 bits, arithmetic by exact rational result and rounding to nearest
    even, printing with six decimals; rounding is monotone and exact on representable numbers.
  \<^item> \<open>Hash\<close>, \<open>Sha256\<close> (\<open>detail/hash.hpp\<close>), \<open>Identity\<close> (\<open>identity.hpp\<close>, \<open>identity.cpp\<close>): the table CRC-32 and
    the incremental SHA-256 equal their reference definitions; identifiers print and parse.
  \<^item> \<open>Warmth_State\<close>, \<open>Warmth_Dimensions\<close>, \<open>Warmth_Object\<close>, \<open>Invalidation\<close>, \<open>Decay\<close>, \<open>Policy\<close>: one per header.
    The enumerations meet the locale \<open>byte_enum\<close>. Decay goes down the state machine and settles.
  \<^item> \<open>Budget\<close> (\<open>budget.hpp\<close>): reservations with wrap-around usage. The locale \<open>reservation_ledger\<close> is the
    contract the fabric and the coordinator use; its client lemmas say what a pair of reservations costs
    and that giving it back leaves nothing open.
  \<^item> \<open>Cost_Model\<close>, \<open>Scheduler\<close>, \<open>Explanation\<close>: estimates, scores, the ordered plan, text output.
  \<^item> \<open>Decimal\<close>, \<open>Json\<close> (\<open>json.hpp\<close>), \<open>Explanation_Json\<close>: \<open>%.17g\<close> and \<open>std::stod\<close> (with the range errors of
    glibc; seventeen digits determine a normal double), the JSON printer and parser, the JSON forms of explanations.
  \<^item> \<open>Byte_Codec\<close> (readers over byte lists and the locale \<open>codec\<close>), \<open>Wire\<close> (\<open>wire.hpp\<close>), \<open>Persistence\<close>
    (\<open>persistence.cpp\<close>), \<open>Messages\<close> (\<open>messages.hpp\<close>): encoders and decoders with every error branch; one
    interpretation of \<open>codec\<close> per format.
  \<^item> \<open>Cursor\<close>: the classes \<open>WireEncoder\<close> and \<open>WireDecoder\<close> as written (a growing buffer; a span, a position and a
    flag) with every message codec on them; a simulation shows that those writers and readers abstract them.
  \<^item> \<open>Sockets\<close> (\<open>transport.cpp\<close>, POSIX branch): listen, accept, connect, close and move over a record of system
    calls, with the set of open descriptors accounted for on every path.
  \<^item> \<open>Transport\<close> (\<open>transport.cpp\<close>), \<open>Protocol\<close> (\<open>protocol.hpp\<close>), \<open>Frame_Loop\<close>: the read and write loops over
    arbitrary \<open>send\<close> and \<open>recv\<close>, frames, and the receive loop both ends run (locale \<open>frame_handler\<close>).
  \<^item> \<open>Fabric\<close>: every operation of \<open>WarmthFabric\<close> as a function of its state record; \<open>warm\<close> is two atomic
    phases. \<open>fabric_step\<close> interleaves all operations of any number of threads.
  \<^item> \<open>Coordinator\<close>: the handlers of \<open>handle_frame\<close>, \<open>issue_warm\<close> in its two locked sections, \<open>roll_epoch\<close>,
    \<open>on_disconnect\<close>; \<open>co_step\<close> interleaves them, with frames of arbitrary payload.
  \<^item> \<open>Worker\<close>: the worker, the coordinator's connection thread, and the two ends together.
  \<^item> \<open>Server\<close>: the coordinator's threads as a machine with one event per atomic step (accept loop, connection
    threads, \<open>stop\<close> and its joins, \<open>wait_until_settled\<close> on its condition variable, callers); it refines \<open>co_step\<close>.
  \<^item> \<open>Cli\<close> (\<open>tools/warmth_cli.cpp\<close> as built off Windows): one definition per command and the dispatch of \<open>main\<close>.
  \<^item> \<open>Sha256_Eval\<close>, \<open>Process_Ids\<close>: the hash restated over integers and proved equal, so that digests evaluate: a
    published test vector, and the identifiers the restart proof derives from names.
  \<^item> \<open>Multiprocess\<close> (\<open>run_multiprocess\<close> of \<open>tools/warmth_cli.cpp\<close>): its main thread as a program over a world of
    processes and sockets; a failing return terminates the process. \<open>Restart\<close>: such a world, made of the models of
    the worker and of the coordinator. \<open>Restart_Run\<close>: the program runs to its end in it.
  \<^item> \<open>Windows_Cli\<close>: the command line \<open>spawn_child\<close> writes and the way a child splits it again, the launcher of
    the CUDA demo, and the dispatch of \<open>main\<close> on Windows.
  \<^item> \<open>Ieee_Single\<close>, \<open>Cuda_Probe\<close> (\<open>cuda/warmth_cuda.cu\<close>): \<open>float\<close>, the kernel as a function of one thread, and the host
    program over a CUDA runtime. \<open>Cuda_Device\<close>: a runtime, and the program's run on it.
  \<^item> \<open>Examples\<close>, \<open>Stale_Authority\<close>: the programs under \<open>examples\<close> and \<open>consumer\<close>, with what they print; the second
    is the one with a coordinator, in the world of \<open>Restart\<close>.
  \<^item> \<open>Scenario\<close>: a small concrete run used to instantiate the properties below.

  \<^bold>\<open>Correspondence.\<close> A class is a record with the fields of the source, an operation is a definition
  with the source's name (prefixed \<open>fabric_\<close>, \<open>co_\<close>, \<open>worker_\<close>, \<open>sha_\<close>, \<open>id_\<close>, \<open>dims_\<close> where two classes share
  it), returning what it returns and the new state. Errors are the source's error texts or enumeration
  values. Integers have their width; \<open>double\<close> is bit exact. Clock readings are arguments, one per call of
  \<open>now_ms\<close> in the source's order. Code outside the repository is a parameter: \<open>send\<close> and \<open>recv\<close> with the
  documented behaviour of a stream socket (\<open>send_ok\<close>, \<open>recv_ok\<close>, \<open>full_duplex\<close>), the results of the C file
  functions (\<open>file_io\<close>), the socket calls (\<open>os\<close>, with \<open>os_ok\<close> for what they do to descriptors), the application's
  warming hook, the random bits of \<open>Id128::random\<close>, the processes (\<open>process_world\<close>), the CUDA runtime (\<open>cuda\<close>).
  A handler that holds the lock throughout is one atomic step; what it sends is returned as frames.

  \<^bold>\<open>Bounds.\<close> Runs are counted: a fabric or coordinator run of fewer than \<open>2 ^ 62\<close> steps cannot exhaust the
  64-bit reservation and attempt counters, which is what \<open>fabric_inv n\<close> and \<open>co_inv n\<close> (\<open>n\<close> more steps are
  possible) carry along. Loops are structurally recursive, have a termination proof, or (\<open>serve_frames\<close>) are
  partial functions with a theorem that they end. Only the recursive descent of the JSON parser takes fuel:
  three units per character and one more, proved to be enough for every text (\<open>parse_answers\<close>). The depth of
  the C++ stack is not modelled.

  \<^bold>\<open>What the properties show.\<close> Accounting invariants of coordinator and fabric under every interleaving, also
  of the threads that carry them; a warming from order to accepted result through both ends; fencing by
  generations, at-most-once results; the handshake; termination of the connection loops and of \<open>stop\<close>; that
  settling wakes a sleeping waiter; descriptors; round trips and rejection of damaged snapshots and frames;
  equivalence of the optimised hashes with their references; the restart over several processes; exact decay thresholds; ordered plans; printed JSON
  parses back, the parser answers every text; how each command of the command line ends.
  Some state defects: \<open>save\<close> deadlocks (so the commands \<open>save\<close> and \<open>snapshot\<close> hang), a snapshot after
  recovery is unreadable, \<open>HOT\<close> objects escape demotion on recovery and on first report, a quotation mark in a
  string makes its JSON unreadable, a connection with two names leaves a ghost in the registry, \<open>stop\<close> waits for
  silent strangers, \<open>wait_until_settled\<close> can miss its wakeup, the restart proof cannot fail with its exit code, and the
  CUDA program accepts a second warming that did not happen.

  \<^bold>\<open>Threads.\<close> An event of \<open>Server\<close> is what one thread does between two points where others can interfere: the
  locked section of a handler with the notification after it is one event, reading a frame and handling it are
  two, so a frame read before \<open>stop\<close> may be handled after it. \<open>threads_\<close> is changed and read without a lock; that
  race is undefined behaviour in C++, and the model shows only its sequential outcomes.

  \<^bold>\<open>Not modelled.\<close> The Windows branches of the sockets and the calls that create and end processes, which only
  call the Windows API; spurious wakeups; move construction of the fabric; the failure of \<open>malloc\<close> on the host; the
  benchmark program; compiler attributes (\<open>macros.hpp\<close>); the tests.
\<close>

section \<open>The coordinator\<close>

text \<open>C1. The coordinator's accounts are exact at every moment of every run. After any sequence of
  connections, frames with any payload, disconnections, generation bumps, epoch rolls, issued
  warmings and rollbacks: the counter that \<open>wait_until_settled\<close> waits on is the number of attempts in
  flight; it is zero exactly when no reservation is open; and every attempt in flight still holds the
  device memory it was granted. No interleaving leaks or double-releases a reservation.\<close>

theorem coordinator_accounts_exact:
  assumes "(co_step ^^ k) new_coordinator c" "k < 2 ^ 62"
  shows "unat (co_in_flight_count c) = in_flight_attempts c \<and> (settled c \<longleftrightarrow> outstanding_budget c = 0) \<and>
    (\<forall>(a, info) \<in> set (co_in_flight c). opens_of (co_budget c) (at_reservation info) \<noteq> None)"
proof -
  have inv: "co_inv 0 c" using co_reach_inv[OF assms(1), of 0] co_inv_new[OF assms(2)] by simp
  then have "unat (co_in_flight_count c) = in_flight_attempts c"
    by (simp add: co_inv_def accounts_def co_core_def in_flight_attempts_def)
  moreover have "settled c \<longleftrightarrow> outstanding_budget c = 0"
    using settled_iff[OF inv] by (simp add: co_balanced_def outstanding_budget_def)
  ultimately show ?thesis using attempt_reservation_open[OF inv] by auto
qed

theorem coordinator_accounts_exact_witness:
  "in_flight_attempts sc_issued = 1 \<and> co_in_flight_count sc_issued = 1 \<and> outstanding_budget sc_issued \<noteq> 0 \<and>
    opens_of (co_budget sc_issued) 1 \<noteq> None"
proof -
  have n: "in_flight_attempts sc_issued = 1" by (simp add: in_flight_attempts_def sc_issued_fields(1))
  note all = coordinator_accounts_exact[OF sc_reach_issued, simplified]
  have "unat (co_in_flight_count sc_issued) = unat (1 :: u64)" using all n by simp
  then show ?thesis using all n by (auto simp: sc_issued_fields(1) settled_def word_unat_eq_iff)
qed

text \<open>One warming from order to result. In any state of any run, when \<open>issue_warm\<close> grants an
  attempt and the worker it was sent to answers with a success carrying the authority it was given,
  the coordinator accepts the frame, the object is execution ready under the current warmth
  generation, and the attempts in flight and the open reservations are what they were before the
  warming was issued.\<close>

theorem issued_warming_completes:
  assumes "(co_step ^^ k) new_coordinator c" "k < 2 ^ 62 - 1"
    and "issue_begin object action preferred c = (Some (a, (target, mt, bs)), c1)"
    and "length (wr_error res) < 2 ^ 32" "wr_attempt res = a" "wr_object res = object" "wr_success res"
    and "authority_ok target (wr_boot res) (wr_epoch res) (wr_warmth_gen res) (wr_dep_gen res) c1"
  shows "\<exists>c' o'. handle_frame target clock \<lparr>fr_type = MT_WARM_RESULT, fr_flags = fl, fr_payload = encode_warm_result res\<rparr> c1 = ([], c')
    \<and> co_in_flight c' = co_in_flight c \<and> co_in_flight_count c' = co_in_flight_count c
    \<and> opens_of (co_budget c') = opens_of (co_budget c)
    \<and> find_object object c' = Some o' \<and> is_execution_ready (wo_state o') \<and> wo_warmth_gen o' = co_warmth_gen c"
proof -
  have "co_inv (k + 1) new_coordinator" using assms(2) by (intro co_inv_new) simp
  then have inv: "co_inv (Suc 0) c" using co_reach_inv[OF assms(1), of 1] by simp
  have d: "decode_warm_result (encode_warm_result res) = Inr (res, [])"
    using warm_result_codec.dec_enc[OF assms(4), of "[]"] by simp
  show ?thesis using issue_then_result[OF inv assms(3) d assms(5-8), of clock]
    by (simp add: handle_frame_def find_object_def)
qed

theorem issued_warming_completes_witness:
  "\<exists>c' o'. handle_frame 0 sc_clock \<lparr>fr_type = MT_WARM_RESULT, fr_flags = 0, fr_payload = encode_warm_result sc_result\<rparr> sc_issued
      = ([], c') \<and> co_in_flight c' = [] \<and> find_object sc_object c' = Some o' \<and> is_execution_ready (wo_state o')"
proof -
  obtain mt bs where i: "issue_begin sc_object INIT_ENGINE None sc_registered = (Some (1, (0, mt, bs)), sc_issued)"
    using sc_issue by blast
  have r: "length (wr_error sc_result) < 2 ^ 32" "wr_attempt sc_result = 1" "wr_object sc_result = sc_object" "wr_success sc_result"
    by (simp_all add: sc_result_def)
  have "co_in_flight sc_registered = []" by (simp add: sc_registered_eq new_coordinator_def)
  then show ?thesis
    using issued_warming_completes[OF sc_reach_registered _ i r sc_authority, of sc_clock 0] by auto
qed


text \<open>C5. At most once: in any state of any run, a warming result that has taken effect changes
  nothing when it is delivered again, even on another connection.\<close>

theorem warm_result_at_most_once:
  assumes "(co_step ^^ k) new_coordinator c" "k < 2 ^ 62" "snd (handle_warm_result cid clock p c) \<noteq> c"
  shows "handle_warm_result cid' clock' p (snd (handle_warm_result cid clock p c)) = ([], snd (handle_warm_result cid clock p c))"
  using warm_result_replay[of 0 c cid' clock' p cid clock] co_reach_inv[OF assms(1), of 0] co_inv_new[OF assms(2)] assms(3) by simp

theorem warm_result_at_most_once_witness:
  "fst (handle_warm_result 1 sc_clock (encode_warm_result sc_result)
     (snd (handle_warm_result 0 sc_clock (encode_warm_result sc_result) sc_issued))) = []"
proof -
  have "snd (handle_warm_result 0 sc_clock (encode_warm_result sc_result) sc_issued) \<noteq> sc_issued"
    using sc_result_settles sc_issued_fields(1) by auto
  then show ?thesis using warm_result_at_most_once[OF sc_reach_issued, of 0 sc_clock _ 1 sc_clock] by simp
qed

text \<open>C6. Fencing: once the epoch is rolled, no report and no warming result that carries the warmth
  generation of before changes anything, whoever sends it and whatever else it contains; a stale
  report is answered with an error frame, a stale result is dropped.\<close>

theorem roll_epoch_fences_messages:
  assumes "report_ok p" "rp_warmth_gen p = co_warmth_gen c"
    and "length (wr_error r) < 2 ^ 32" "wr_warmth_gen r = co_warmth_gen c"
  shows "handle_frame cid clock \<lparr>fr_type = MT_REPORT, fr_flags = fl, fr_payload = encode_report p\<rparr> (roll_epoch c)
      = ([(cid, MT_ERROR, [])], roll_epoch c) \<and>
    handle_frame cid clock \<lparr>fr_type = MT_WARM_RESULT, fr_flags = fl, fr_payload = encode_warm_result r\<rparr> (roll_epoch c)
      = ([], roll_epoch c)"
  using report_codec.dec_enc[OF assms(1), of "[]"] warm_result_codec.dec_enc[OF assms(3), of "[]"]
    roll_epoch_fences[of cid _ _ c] assms(2,4)
  by (simp add: handle_frame_def handle_report_def handle_warm_result_def report_nf_def)

theorem roll_epoch_fences_messages_witness:
  "handle_frame 0 sc_clock \<lparr>fr_type = MT_WARM_RESULT, fr_flags = 0, fr_payload = encode_warm_result sc_result\<rparr> (roll_epoch sc_issued)
     = ([], roll_epoch sc_issued)"
proof -
  have g: "co_warmth_gen sc_issued = 0" by (rule sc_issued_fields)
  show ?thesis
    using roll_epoch_fences_messages[of "\<lparr>rp_boot = sc_boot, rp_epoch = 0, rp_warmth_gen = 0, rp_dep_gen = 0, rp_objects = []\<rparr>" sc_issued sc_result 0 sc_clock 0]
    by (simp add: g report_ok_def) (simp add: sc_result_def)
qed

text \<open>C7. Rolling the epoch takes everything back: in any state of any run it leaves no object live or
  stale, no attempt in flight, nothing waited for and nothing reserved.\<close>

theorem roll_epoch_takes_all_back:
  assumes "(co_step ^^ k) new_coordinator c" "k < 2 ^ 62"
  shows "settled (roll_epoch c) \<and> outstanding_budget (roll_epoch c) = 0 \<and> in_flight_attempts (roll_epoch c) = 0 \<and>
    (\<forall>i o'. find_object i (roll_epoch c) = Some o' \<longrightarrow> wo_state o' \<notin> {PARTIALLY_WARM, WARM, HOT, STALE})"
proof -
  have inv: "co_inv 0 c" using co_reach_inv[OF assms(1), of 0] co_inv_new[OF assms(2)] by simp
  show ?thesis using roll_epoch_settles[OF inv] roll_epoch_objects
    by (auto simp: in_flight_attempts_def outstanding_budget_def co_balanced_def find_object_def)
qed

theorem roll_epoch_takes_all_back_witness: "outstanding_budget (roll_epoch sc_issued) = 0"
  using roll_epoch_takes_all_back[OF sc_reach_issued] by simp


definition sc_warm_object :: warmth_object where
  "sc_warm_object = (new_object sc_object MODEL_WEIGHTS sc_worker sc_node ''gpu'' ''cpu'')\<lparr>wo_state := WARM\<rparr>"


text \<open>A warming result takes effect only with full authority: if the state changes at all, the
  payload decodes, the connection is registered with the boot id it names, epoch and generations are
  current, and the attempt is in flight for that worker and that object. Then the attempt is closed,
  no other attempt and no other object is touched.\<close>

theorem warm_result_needs_authority:
  assumes "snd (handle_warm_result cid clock p c) = c'" "c' \<noteq> c"
  shows "\<exists>res rest info. decode_warm_result p = Inr (res, rest)
    \<and> authority_ok cid (wr_boot res) (wr_epoch res) (wr_warmth_gen res) (wr_dep_gen res) c
    \<and> map_find (wr_attempt res) (co_in_flight c) = Some info
    \<and> at_worker info = cn_id (conn_of cid c) \<and> at_object info = wr_object res
    \<and> co_in_flight c' = map_erase (wr_attempt res) (co_in_flight c)
    \<and> (\<forall>i. i \<noteq> wr_object res \<longrightarrow> find_object i c' = find_object i c)"
proof -
  obtain fs where r: "handle_warm_result cid clock p c = (fs, c')" using assms(1) by (metis prod.collapse)
  from r show ?thesis
  proof (cases rule: warm_result_cases)
    case (settles res rest info c2)
    obtain wos where c2: "c2 = c\<lparr>co_objects := co_objects c2, co_worker_objects := wos\<rparr>" using settles(9) by blast
    have "co_in_flight c2 = co_in_flight c" by (subst c2) simp
    then show ?thesis using settles(2-8) by (auto simp: settle_attempt_def find_object_def split: option.split)
  qed (use assms(2) in simp)
qed

theorem warm_result_needs_authority_witness:
  "\<exists>res rest. decode_warm_result (encode_warm_result sc_result) = Inr (res, rest) \<and>
     authority_ok 0 (wr_boot res) (wr_epoch res) (wr_warmth_gen res) (wr_dep_gen res) sc_issued"
proof -
  have "snd (handle_warm_result 0 sc_clock (encode_warm_result sc_result) sc_issued) \<noteq> sc_issued"
    using sc_result_settles sc_issued_fields(1) by auto
  then show ?thesis using warm_result_needs_authority[OF refl] by blast
qed

section \<open>The threads of the coordinator\<close>

text \<open>C11. Every run of the threads is a run of the handlers: whatever the accept loop, the connection
  threads, \<open>stop\<close>, waiters and callers do, the metadata takes at most as many steps of \<open>co_step\<close> as there
  were events, so the accounts stay exact while the process starts and stops connections: nothing waited
  for and nothing reserved are the same, and the counter is the number of attempts in flight.\<close>

theorem server_runs_are_accounted:
  assumes "server_run es new_server = Some s" "length es < 2 ^ 62"
  shows "(\<exists>k \<le> length es. (co_step ^^ k) new_coordinator (sv_co s)) \<and> (settled (sv_co s) \<longleftrightarrow> outstanding_budget (sv_co s) = 0) \<and>
    unat (co_in_flight_count (sv_co s)) = in_flight_attempts (sv_co s)"
proof -
  have steps: "\<exists>k \<le> length es. (co_step ^^ k) new_coordinator (sv_co s)"
    using server_run_refines[OF server_wf_new assms(1)] by (simp add: new_server_def)
  have inv: "co_inv 0 (sv_co s)" using server_run_inv[OF assms(1), of 0] assms(2) by simp
  then have "unat (co_in_flight_count (sv_co s)) = in_flight_attempts (sv_co s)"
    by (simp add: co_inv_def accounts_def co_core_def in_flight_attempts_def)
  then show ?thesis using steps settled_iff[OF inv] by (simp add: co_balanced_def outstanding_budget_def)
qed

theorem server_runs_are_accounted_witness:
  "outstanding_budget sc_issued \<noteq> 0 \<and> unat (co_in_flight_count sc_issued) = 1"
proof -
  have "length sc_events < 2 ^ 62" by (simp add: sc_events_def)
  from server_runs_are_accounted[OF sc_server_run this] show ?thesis
    using sc_not_settled by (simp add: sc_server_def in_flight_attempts_def sc_issued_fields)
qed

text \<open>C12. A registered worker can be heard: in every run, when the registry maps a worker to a connection
  that still carries the worker's id, that connection is registered and its thread is running, so its
  disconnection will be noticed. (C13 shows what happens when a connection changes its id.)\<close>

theorem registered_worker_has_thread:
  assumes "server_run es new_server = Some s" "map_find w (co_workers (sv_co s)) = Some cid"
    and "cn_id (conn_of cid (sv_co s)) = w"
  shows "map_find cid (sv_running s) \<noteq> None \<and> cn_registered (conn_of cid (sv_co s)) \<and> cid < sv_next s"
proof -
  have "server_wf s" by (rule server_run_wf[OF server_wf_new assms(1)])
  from server_wfD(4,5)[OF this assms(2)] assms(3) show ?thesis by simp
qed

theorem registered_worker_has_thread_witness: "map_find 0 (sv_running sc_server) \<noteq> None"
  using registered_worker_has_thread[OF sc_server_run, of sc_worker 0]
  by (simp add: sc_workers sc_server_def sc_issued_fields)



text \<open>C13. \<open>stop\<close> returns when every running connection is the registered one of some worker: from the
  moment it begins, while no new connection comes, no thread can read another frame, each step of a thread
  uses up one of finitely many, as long as any are left some thread can move, and when none is left the
  joins are over or can be done. Other threads may do anything else meanwhile.\<close>

theorem stop_returns:
  assumes "server_run es0 new_server = Some s" "\<not> sv_stopping s"
    and "\<forall>cid t. map_find cid (sv_running s) = Some t \<longrightarrow> cid \<in> snd ` set (co_workers (sv_co s))"
    and "server_run (Stop_Begins # es) s = Some s'" "\<forall>e \<in> set es. \<not> starts_thread e"
  shows "length (filter is_thread_event es) + thread_work s' = thread_work s
    \<and> (\<forall>cid f. server_step (Thread_Reads cid f) s' = None)
    \<and> (if thread_work s' = 0 then sv_joined s' \<or> server_step Stop_Joins s' \<noteq> None
       else \<exists>e. is_thread_event e \<and> server_step e s' \<noteq> None)"
proof -
  have run: "server_run es (server_stop s) = Some s'" using assms(4) by simp
  have "server_step Stop_Begins s = Some (server_stop s)" by simp
  then have wf: "server_wf (server_stop s)" using server_run_wf[OF server_wf_new assms(1)] server_step_wf by blast
  note cl = stop_closes[OF assms(2,3)]
  have r: "all_closed s' \<and> sv_stopping s' \<and> length (filter is_thread_event es) + thread_work s' = thread_work s"
    using closed_run[OF wf _ _ assms(5) run] cl by simp
  then show ?thesis using closed_no_reads[of s'] thread_can_move[of s'] by (auto simp: thread_work_0)
qed

theorem stop_returns_witness:
  "\<exists>s'. server_run [Stop_Begins, Thread_Ends 0 sc_clock] sc_server = Some s' \<and> server_step Stop_Joins s' \<noteq> None"
proof -
  obtain s' where r: "server_run [Stop_Begins, Thread_Ends 0 sc_clock] sc_server = Some s'" "sv_joined s' = False" "thread_work s' = 0"
    by (simp add: sc_server_def server_stop_def thread_work_def)
  have "\<forall>cid t. map_find cid (sv_running sc_server) = Some t \<longrightarrow> cid \<in> snd ` set (co_workers (sv_co sc_server))"
    by (simp add: sc_server_def sc_workers)
  from stop_returns[OF sc_server_run _ this r(1)] r(2,3) have "server_step Stop_Joins s' \<noteq> None"
    by (simp add: sc_server_def)
  then show ?thesis using r(1) by blast
qed

text \<open>C22. \<open>stop\<close> waits for strangers: a connection that no worker of the registry has (one that never said
  \<open>HELLO\<close>, was refused, or was replaced by a later one) is not closed by \<open>stop\<close>. As long as its peer keeps
  silent, and whatever all other threads do, its socket stays open, its thread stays in the read, and the
  joins are not possible.\<close>

theorem stop_waits_for_silent_peer:
  assumes "server_run es0 new_server = Some s" "\<not> sv_stopping s"
    and "map_find cid (sv_running s) = Some Reading" "cid \<in> set (sv_open s)" "cid \<notin> snd ` set (co_workers (sv_co s))"
    and "server_run (Stop_Begins # es) s = Some s'" "\<forall>e \<in> set es. event_thread e \<noteq> Some cid"
  shows "server_step Stop_Joins s' = None \<and> map_find cid (sv_running s') = Some Reading \<and> cid \<in> set (sv_open s')"
proof -
  have wf: "server_wf s" by (rule server_run_wf[OF server_wf_new assms(1)])
  have "server_step Stop_Begins s = Some (server_stop s)" by simp
  then have wf': "server_wf (server_stop s)" using wf server_step_wf by blast
  have "server_run es (server_stop s) = Some s'" using assms(6) by simp
  then have "blocked_on cid s'" using blocked_run[OF wf' stop_blocked[OF wf assms(2-5)] assms(7)] by simp
  then show ?thesis using blocked_no_join by (auto simp: blocked_on_def)
qed

theorem stop_waits_for_silent_peer_witness:
  "\<exists>s'. server_run [Listener_Accepts, Connection_Starts False, Stop_Begins] new_server = Some s' \<and> server_step Stop_Joins s' = None"
proof -
  obtain s where s: "server_run [Listener_Accepts, Connection_Starts False] new_server = Some s" "\<not> sv_stopping s"
    "map_find 0 (sv_running s) = Some Reading" "0 \<in> set (sv_open s)" "0 \<notin> snd ` set (co_workers (sv_co s))"
    by (simp add: new_server_def start_connection_def on_connection_def new_coordinator_def)
  from stop_waits_for_silent_peer[OF s, of "[]" "server_stop s"] have "server_step Stop_Joins (server_stop s) = None" by simp
  moreover have "server_run ([Listener_Accepts, Connection_Starts False] @ [Stop_Begins]) new_server = Some (server_stop s)"
    unfolding server_run_append s(1) by simp
  ultimately show ?thesis by auto
qed

text \<open>C14. A sleeping waiter is woken by whatever settles the coordinator: in every run, the event that takes
  the last attempt out of flight wakes a caller of \<open>wait_until_settled\<close> that sleeps on the condition
  variable, and the test it then makes lets it return.\<close>

theorem sleeper_is_woken:
  assumes "server_run es new_server = Some s" "length es + 1 < 2 ^ 62" "sv_waiter s = Asleep"
    and "server_step e s = Some s'" "\<not> settled (sv_co s)" "settled (sv_co s')"
  shows "sv_waiter s' = Woken \<and> server_step Wait_Checks s' = Some (s'\<lparr>sv_waiter := Not_Waiting\<rparr>)"
proof -
  have inv: "server_wf s" "co_inv (Suc 0) (sv_co s)" using server_run_inv[OF assms(1), of 1] assms(2) by simp_all
  show ?thesis using settling_notifies[OF inv assms(4-6)] assms(3,6) by (simp add: notify_all_def)
qed

theorem sleeper_is_woken_witness:
  "\<exists>s. server_run (sc_events @ [Wait_Sleeps, Public Roll]) new_server = Some s \<and> sv_waiter s = Woken"
proof -
  let ?s = "sc_server\<lparr>sv_waiter := Asleep\<rparr>"
  have r: "server_run (sc_events @ [Wait_Sleeps]) new_server = Some ?s"
    unfolding server_run_append sc_server_run by (simp add: sc_server_def)
  have st: "settled (roll_epoch sc_issued)"
    using roll_epoch_settles co_reach_inv[OF sc_reach_issued, of 0] co_inv_new[of 3] by simp
  obtain s' where s': "server_step (Public Roll) ?s = Some s'" "sv_co s' = roll_epoch sc_issued" by (simp add: sc_server_def)
  have "sv_waiter s' = Woken"
    using sleeper_is_woken[OF r _ _ s'(1)] s'(2) st sc_not_settled by (simp add: sc_events_def sc_server_def)
  moreover have "server_run ((sc_events @ [Wait_Sleeps]) @ [Public Roll]) new_server = Some s'"
    unfolding server_run_append[of "sc_events @ [Wait_Sleeps]"] r using s'(1) by simp
  ultimately show ?thesis by auto
qed

text \<open>C21. A wakeup can be lost: \<open>wait_until_settled\<close> tests under \<open>warm_mutex_\<close>, but the notifiers do not take
  it, so the last attempt may settle after the test and before the caller sleeps. It then sleeps although
  nothing is in flight, and unless new work is issued, an epoch rolled or a sending fails, nothing in any run
  wakes it. (A spurious wakeup, which the standard permits, would.)\<close>

theorem wakeup_can_be_lost:
  assumes "server_run es new_server = Some s" "length es + 1 < 2 ^ 62" "sv_waiter s = Checked"
    and "server_step e s = Some s1" "settled (sv_co s1)"
    and "server_run (Wait_Sleeps # fs) s1 = Some s2" "\<forall>e \<in> set fs. \<not> new_work e"
  shows "sv_waiter s2 = Asleep \<and> settled (sv_co s2)"
proof -
  have "server_run (es @ [e]) new_server = Some s1" unfolding server_run_append assms(1) using assms(4) by simp
  then have "co_inv 0 (sv_co s1)" using server_run_inv[of "es @ [e]" s1 0] assms(2) by simp
  then have empty: "co_in_flight (sv_co s1) = []" using settled_iff(1) assms(5) by blast
  obtain s1' where s1': "server_step Wait_Sleeps s1 = Some s1'" "server_run fs s1' = Some s2" using server_run_Cons[OF assms(6)] by blast
  have "lost_wakeup s1'" using s1'(1) assms(5) empty by (auto simp: lost_wakeup_def split: if_splits)
  then have "lost_wakeup s2" using lost_wakeup_run assms(7) s1'(2) by blast
  then show ?thesis by (simp add: lost_wakeup_def)
qed

theorem wakeup_can_be_lost_witness:
  "\<exists>s. server_run (sc_events @ [Public Roll, Wait_Sleeps, Thread_Ends 0 sc_clock]) new_server = Some s \<and> sv_waiter s = Asleep
     \<and> settled (sv_co s)"
proof -
  have st: "settled (roll_epoch sc_issued)"
    using roll_epoch_settles co_reach_inv[OF sc_reach_issued, of 0] co_inv_new[of 3] by simp
  obtain s1 where s1: "server_step (Public Roll) sc_server = Some s1" "sv_co s1 = roll_epoch sc_issued"
    "sv_waiter s1 = Checked" "sv_running s1 = [(0, Reading)]" by (simp add: sc_server_def notify_all_def)
  obtain s2 where s2: "server_run [Wait_Sleeps, Thread_Ends 0 sc_clock] s1 = Some s2" using s1 by simp
  have "sv_waiter s2 = Asleep \<and> settled (sv_co s2)"
    using wakeup_can_be_lost[OF sc_server_run _ _ s1(1) _ s2] s1(2) st by (simp add: sc_events_def sc_server_def)
  moreover have "server_run (sc_events @ [Public Roll, Wait_Sleeps, Thread_Ends 0 sc_clock]) new_server = Some s2"
    unfolding server_run_append sc_server_run using s1(1) s2 by simp
  ultimately show ?thesis by blast
qed

section \<open>Sockets\<close>

text \<open>C24. No descriptor leaks and no foreign one is closed, on any path: on an operating system whose calls
  open and close descriptors as documented, \<open>listen\<close> ends with a new socket exactly when it succeeds and has
  given up only its old one; \<open>accept\<close> and \<open>connect\<close> leave open exactly what they return, nothing after a
  failure; closing and moving a connection close what they owned.\<close>

theorem sockets_accounted:
  assumes "os_ok os fds"
  shows "(case tcp_listen os host port (l, w) of (b, l', w') \<Rightarrow> b = (ls_sock l' \<noteq> invalid_socket)
      \<and> owned (ls_sock l') \<inter> (fds w - owned (ls_sock l)) = {} \<and> fds w' = fds w - owned (ls_sock l) \<union> owned (ls_sock l'))
    \<and> (case tcp_accept os l w of (None, w') \<Rightarrow> fds w' = fds w | (Some s, w') \<Rightarrow> tcp_valid s \<and> s \<notin> fds w \<and> fds w' = insert s (fds w))
    \<and> (case tcp_connect os host port w of (s, w') \<Rightarrow> owned s \<inter> fds w = {} \<and> fds w' = fds w \<union> owned s)
    \<and> (case tcp_close os (s, w) of (s', w') \<Rightarrow> s' = invalid_socket \<and> fds w' = fds w - owned s)
    \<and> (case tcp_move_assign os False d s w of (d', s', w') \<Rightarrow> d' = s \<and> s' = invalid_socket \<and> fds w' = fds w - owned d)"
  using tcp_listen_fds[OF assms, of host port l w] tcp_accept_fds[OF assms, of l w] tcp_connect_fds[OF assms, of host port w]
    tcp_close_fds[OF assms, of s w] tcp_move_assign_fds[OF assms, of d s w]
  by (auto split: prod.split option.split)

theorem sockets_accounted_witness:
  "case tcp_connect sc_os ''example'' 80 (3, {0, 1, 2}) of (s, w') \<Rightarrow> s = invalid_socket \<and> snd w' = {0, 1, 2}"
proof -
  have "fst (tcp_connect sc_os ''example'' 80 (3, {0, 1, 2})) = invalid_socket"
    by (simp add: tcp_connect_def sc_os_def sc_fresh_def socket_init_def invalid_socket_def)
  then show ?thesis using sockets_accounted[OF sc_os_ok, where host = "''example''" and port = 80 and w = "(3, {0, 1, 2})"] by auto
qed

section \<open>The command line\<close>

text \<open>C25. \<open>warmth_cli list --json\<close> prints one document for each object of the fabric, in its order, that a JSON
  reader gets back with the object's identifier, state, readiness and twelve dimensions.\<close>

theorem cli_listing_parses:
  "\<exists>out vs. cli_main env (''list'' # ''--json'' # a) = Exits 0 out [] \<and> json_parse out = Inr (JArray vs)
     \<and> list_all2 shows_object (map snd (fb_objects build_sample_fabric)) vs"
  using listing_parses[of build_sample_fabric] by (simp add: cli_main_def hasarg_def run_list_def)



section \<open>The fabric\<close>



text \<open>A call of \<open>warm\<close> is neutral: whatever the outcome (unknown id, no memory, a state that does not
  allow preparation, a backend that fails or succeeds) a call that is not interleaved leaves exactly
  the reservations that were open before it.\<close>

theorem warm_leaves_reservations:
  assumes "tracker_ok (Suc (Suc n)) (fb_budget f)" "warm (\<lambda>f. f) now now' i action f = (ok, f')"
  shows "bt_reservations (fb_budget f') = bt_reservations (fb_budget f)"
  by (rule warm_neutral[OF assms])

theorem warm_leaves_reservations_witness:
  "bt_reservations (fb_budget (snd (warm (\<lambda>f. f) 5 6 sc_object INIT_ENGINE sc_fabric))) = []"
proof -
  have "tracker_ok (Suc (Suc 0)) (fb_budget sc_fabric)" unfolding sc_fabric_budget by (rule tracker_ok_new) simp
  from warm_leaves_reservations[OF this prod.collapse[symmetric], of 5 6 sc_object INIT_ENGINE]
  show ?thesis by (simp add: sc_fabric_budget new_tracker_def)
qed



text \<open>\<open>warm_to_ready\<close> is what it says, across the readiness, dimension and cost models: on a known
  object it returns true, and afterwards the object is execution ready, its composite level is \<open>HOT\<close>
  and the estimated time to first use is zero.\<close>

theorem warm_to_ready_is_ready:
  assumes "fabric_get i f = Some o'"
  shows "\<exists>f' o1. warm_to_ready i f = (True, f') \<and> fabric_get i f' = Some o1 \<and> execution_ready o1 \<and>
    obj_composite_level o1 = C_HOT \<and> rc_expected_ttfu_ms (cost_of i f') = dbl_zero"
proof -
  have ready: "all_ready dims_all_valid" by (simp add: all_ready_iff)
  note br = estimate_breakdown_ready[of "(make_warm ''warm_to_ready'' (o'\<lparr>wo_dims := dims_all_valid\<rparr>))
      \<lparr>wo_residency := R_DEVICE_RESIDENT, wo_provenance := P_MEASURED\<rparr>"]
  show ?thesis using assms br ready
    by (simp add: warm_to_ready_def fabric_get_def on_object_def Let_def cost_of_def execution_ready_def make_warm_state
        obj_composite_level_def composite_all_valid ttf_total_zero is_cold_state_def)
qed

theorem warm_to_ready_is_ready_witness: "fst (warm_to_ready sc_object sc_fabric)"
  using warm_to_ready_is_ready[of sc_object sc_fabric sc_cold_object] by (auto simp: fabric_get_def sc_fabric_find)



text \<open>\<open>save\<close> never completes: \<open>snapshot\<close> takes \<open>mutex_\<close> and then calls \<open>objects\<close>, which takes it again,
  so a call from a thread that holds nothing blocks on itself and no file is written.\<close>

theorem save_deadlocks:
  "fabric_snapshot False f = Deadlock \<and> fabric_save io path f fs = Deadlock \<and> fabric_objects False f = Done (map snd (fb_objects f))"
  by (simp add: fabric_save_def fabric_snapshot_def fabric_objects_def lock_guard_def)

text \<open>C40. The snapshot that would describe a fabric right after a recovery is one no fabric loads:
  recovery advances the policy generation of the fabric but keeps the generation inside the policy,
  and the decoder demands that the two agree.\<close>

theorem recovered_fabric_snapshot_unreadable:
  assumes "pol_generation (sn_policy snap) = sn_policy_generation snap" "sn_policy_generation snap \<noteq> - 1"
    and "encode_snapshot (snapshot_with os (recover_from snap f)) = Inr bs"
    and "length (payload_of (snapshot_with os (recover_from snap f))) < 2 ^ 32"
  shows "decode_snapshot bs = Inl ''invalid generation relation (policy)''"
  by (rule recovered_snapshot_rejected[OF assms(1,2) refl assms(3,4)])

theorem recovered_fabric_snapshot_unreadable_witness:
  "decode_snapshot (frame_of (payload_of (snapshot_with [] (recover_from sc_snapshot sc_fabric))))
     = Inl ''invalid generation relation (policy)''"
proof (rule recovered_fabric_snapshot_unreadable)
  show "pol_generation (sn_policy sc_snapshot) = sn_policy_generation sc_snapshot" "sn_policy_generation sc_snapshot \<noteq> - 1"
    by (simp_all add: sc_snapshot_def policy_defaults_def)
  show "encode_snapshot (snapshot_with [] (recover_from sc_snapshot sc_fabric))
      = Inr (frame_of (payload_of (snapshot_with [] (recover_from sc_snapshot sc_fabric))))"
    by (simp add: encode_snapshot_iff snap_finite_def snapshot_with_def recover_from_def sc_snapshot_def policy_finite_defaults)
  show "length (payload_of (snapshot_with [] (recover_from sc_snapshot sc_fabric))) < 2 ^ 32"
    by (simp add: payload_of_def snapshot_with_def recover_from_def sc_snapshot_def encode_policy_def put_u64_def put_bool_def put_u8_def Let_def)
qed

section \<open>Snapshots\<close>

text \<open>C4. Saving and loading: a snapshot whose numbers are finite, whose strings and object ids are
  within the format and whose generations agree is written to the file, and loading that file gives
  it back, with confidence and freshness clamped to the unit interval and empty optional ids and
  reasons dropped.\<close>

theorem snapshot_file_round_trip:
  assumes "snap_ok s" "snap_finite s" "io_open_ok io" "io_write_ok io" "io_tell_ok io" "io_read_ok io"
  shows "\<exists>fs'. save_snapshot_file io path s fs = (Inr (), fs') \<and> load_snapshot_file io path fs' = Inr (snap_nf s)"
proof -
  have e: "encode_snapshot s = Inr (frame_of (payload_of s))" using assms(2) by (simp add: encode_snapshot_iff)
  show ?thesis using assms(3-6) decode_encode[OF assms(1) e]
    by (simp add: save_snapshot_file_def load_snapshot_file_def e)
qed

theorem snapshot_file_round_trip_witness:
  "\<exists>fs'. save_snapshot_file sc_io ''s'' sc_snapshot Map.empty = (Inr (), fs') \<and>
     load_snapshot_file sc_io ''s'' fs' = Inr (snap_nf sc_snapshot)"
  by (rule snapshot_file_round_trip[OF sc_snapshot_ok]) (simp_all add: sc_io_def)

text \<open>A file cut short is never accepted: every proper prefix of a snapshot file is rejected, and
  with the message that says where it ends.\<close>

theorem truncated_snapshot_rejected:
  assumes "encode_snapshot s = Inr bs" "length (payload_of s) < 2 ^ 32" "n < length bs"
  shows "decode_snapshot (take n bs) = Inl (if n < 16 then ''truncated header'' else ''truncated payload'')"
proof -
  have "bs = frame_of (payload_of s)" using assms(1) by (auto simp: encode_snapshot_iff split: if_splits)
  then show ?thesis using frame_truncated[OF assms(2), of n] assms(3) by simp
qed

theorem truncated_snapshot_rejected_witness:
  "decode_snapshot (take 3 (frame_of (payload_of sc_snapshot))) = Inl ''truncated header''"
proof -
  have e: "encode_snapshot sc_snapshot = Inr (frame_of (payload_of sc_snapshot))"
    by (simp add: encode_snapshot_iff sc_snapshot_ok)
  have "length (payload_of sc_snapshot) < 2 ^ 32" using sc_snapshot_ok(1) by (simp add: snap_ok_def)
  from truncated_snapshot_rejected[OF e this, of 3] show ?thesis by (simp add: frame_of_def)
qed

text \<open>C35. Corruption is noticed: replacing up to four consecutive bytes of the payload of a snapshot
  file, anywhere, by different ones makes the load fail with a checksum mismatch.\<close>

theorem corrupted_snapshot_rejected:
  assumes "encode_snapshot s = Inr bs" "length bs < 2 ^ 32" "bs = x @ w @ y" "16 \<le> length x"
    and "length w' = length w" "length w \<le> 4" "w' \<noteq> w"
  shows "decode_snapshot (x @ w' @ y) = Inl ''checksum mismatch''"
proof -
  define p where "p = payload_of s"
  define h where "h = put_u32 kMagic @ put_u32 kVersion @ put_u32 (of_nat (length p)) @ put_u32 (crc32 p)"
  have bs: "bs = h @ p" using assms(1) by (auto simp: encode_snapshot_iff frame_of_def p_def h_def split: if_splits)
  have h: "length h = 16" by (simp add: h_def)
  define x' where "x' = drop 16 x"
  have x: "x = h @ x'" using arg_cong[OF bs[unfolded assms(3)], of "take 16"] assms(4) h
    unfolding x'_def by simp (metis append_take_drop_id)
  have p: "p = x' @ w @ y" using bs unfolding assms(3) x by simp
  have "length (x' @ w @ y) < 2 ^ 32" using assms(2) unfolding bs p by simp
  from frame_corrupted[OF this assms(5)[symmetric] assms(6) assms(7)[symmetric]]
  show ?thesis unfolding x h_def p by simp
qed

theorem corrupted_snapshot_rejected_witness:
  "\<exists>x b y. encode_snapshot sc_snapshot = Inr (x @ [b] @ y) \<and> decode_snapshot (x @ [b + 1] @ y) = Inl ''checksum mismatch''"
proof -
  let ?bs = "frame_of (payload_of sc_snapshot)"
  have e: "encode_snapshot sc_snapshot = Inr ?bs" by (simp add: encode_snapshot_iff sc_snapshot_ok)
  have len: "16 < length ?bs \<and> length ?bs < 2 ^ 32"
    by (simp add: frame_of_def payload_of_def sc_snapshot_def encode_policy_def encode_object_def sc_cold_object_def new_object_def
        put_u64_def put_u8_def put_id_def put_str_def put_opt_def put_dims_def put_deps_def put_invalidation_def put_bool_def
        policy_defaults_def Let_def dimension_indices_def)
  have split: "?bs = take 16 ?bs @ [?bs ! 16] @ drop 17 ?bs" using len id_take_nth_drop[of 16 ?bs] by simp
  show ?thesis
    using corrupted_snapshot_rejected[OF e _ split, of "[?bs ! 16 + 1]"] len e split by (intro exI conjI) auto
qed

text \<open>Nothing may follow the payload: a snapshot file with any bytes appended is rejected.\<close>

theorem extended_snapshot_rejected:
  assumes "encode_snapshot s = Inr bs" "length (payload_of s) < 2 ^ 32" "xs \<noteq> []"
  shows "decode_snapshot (bs @ xs) = Inl ''trailing garbage''"
  using frame_extended[OF assms(2,3)] assms(1) by (auto simp: encode_snapshot_iff split: if_splits)

theorem extended_snapshot_rejected_witness: "decode_snapshot (frame_of (payload_of sc_snapshot) @ [0]) = Inl ''trailing garbage''"
proof -
  have e: "encode_snapshot sc_snapshot = Inr (frame_of (payload_of sc_snapshot))"
    by (simp add: encode_snapshot_iff sc_snapshot_ok)
  have "length (payload_of sc_snapshot) < 2 ^ 32" using sc_snapshot_ok(1) by (simp add: snap_ok_def)
  from extended_snapshot_rejected[OF e this, of "[0]"] show ?thesis by simp
qed

section \<open>The wire\<close>

text \<open>One layout, two codecs: the object writer of the snapshot files produces byte for byte what the
  encoder of the protocol produces, and each of the two decoders reads it back to the same object and
  leaves the rest of the input.\<close>

theorem object_codecs_agree:
  assumes "obj_wire_ok o'" "obj_finite o'" "wo_warmth_gen o' \<le> wg"
  shows "write_object o' = Inr (encode_object o') \<and> decode_object (encode_object o' @ s) = Inr (obj_nf o', s) \<and>
    read_object wg (encode_object o' @ s) = Inr (obj_nf o', s)"
  using assms write_object_encode[of o'] object_codec.dec_enc[OF assms(1)] read_object_encode[OF assms] by simp

theorem object_codecs_agree_witness: "decode_object (encode_object sc_cold_object @ [1]) = Inr (sc_cold_object, [1])"
  using object_codecs_agree[OF sc_object_ok(1,2), of 0 "[1]"] by (simp add: sc_object_ok) (simp add: sc_cold_object_def new_object_def)



text \<open>C10. A frame that was written arrives, however the network cuts the stream: when \<open>FrameWriter::write\<close>
  reports success, a reader whose stream starts with the bytes handed to the sender gets the same
  frame from \<open>FrameReader::read\<close> and is left at the first byte after it. \<open>send\<close> and \<open>recv\<close> may move any
  number of bytes per call.\<close>

theorem written_frame_arrives:
  assumes "send_ok send sent" "frame_write send f c = (True, c')"
    and "recv_ok recv stream" "conn_valid r"
    and "stream (conn_world r) = drop (length (sent (conn_world c))) (sent (conn_world c')) @ rest"
  shows "\<exists>r'. frame_read recv r = (Some f, r') \<and> conn_valid r' \<and> stream (conn_world r') = rest"
proof -
  have w: "sent (conn_world c') = sent (conn_world c) @ frame_bytes f" "length (fr_payload f) \<le> kMaxPayload"
    using frame_write_bytes[OF assms(1,2)] by auto
  have "stream (conn_world r) = frame_bytes f @ rest" by (simp add: assms(5) w(1))
  then show ?thesis using frame_read_refines[OF assms(3,4)] parse_frame_bytes[OF w(2), of rest]
    by (cases "frame_read recv r") (simp add: frame_read_spec_def)
qed

text \<open>A sender that takes three bytes per call, and a receiver that delivers one.\<close>

definition sc_send :: "bytes send_fn" where
  "sc_send w bs = (let k = min 3 (length bs) in (Some k, w @ take k bs))"

definition sc_recv :: "bytes recv_fn" where
  "sc_recv w n = (Some (take 1 w), drop 1 w)"

lemma sc_send_ok: "send_ok sc_send (\<lambda>w. w)"
  by (auto simp: send_ok_def sc_send_def Let_def)

lemma sc_recv_ok: "recv_ok sc_recv (\<lambda>w. w)"
  by (auto simp: recv_ok_def sc_recv_def)

theorem written_frame_arrives_witness:
  "\<exists>r'. frame_read sc_recv \<lparr>conn_valid = True, conn_world = drop 2 (conn_world (snd (frame_write sc_send
       \<lparr>fr_type = MT_PING, fr_flags = 0, fr_payload = []\<rparr> \<lparr>conn_valid = True, conn_world = [7, 7]\<rparr>))) @ [9]\<rparr>
     = (Some \<lparr>fr_type = MT_PING, fr_flags = 0, fr_payload = []\<rparr>, r') \<and> conn_world r' = [9]"
proof -
  let ?f = "\<lparr>fr_type = MT_PING, fr_flags = 0, fr_payload = []\<rparr>" and ?c = "\<lparr>conn_valid = True, conn_world = [7 :: u8, 7]\<rparr>"
  have "fst (frame_write sc_send ?f ?c)"
    by (simp add: frame_write_def write_all_def frame_header_def frame_crc_def put_u32_def put_u16_def be_bytes_def
        upt_rec write_loop.simps sc_send_def Let_def)
  then have w: "frame_write sc_send ?f ?c = (True, snd (frame_write sc_send ?f ?c))" by (metis prod.collapse)
  show ?thesis
    using written_frame_arrives[OF sc_send_ok w sc_recv_ok, of "\<lparr>conn_valid = True, conn_world =
      drop (length (conn_world ?c)) (conn_world (snd (frame_write sc_send ?f ?c))) @ [9]\<rparr>" "[9]"] by (auto simp: numeral_2_eq_2)
qed

text \<open>C19. The reader is a refinement of a parser of byte streams: for every socket that behaves like a
  stream, reading a frame succeeds exactly when the specification \<open>parse_frame\<close> accepts the bytes to
  come, with the same frame and the same remainder.\<close>

theorem frame_read_refines_parser:
  assumes "recv_ok recv stream" "conn_valid c"
  shows "case parse_frame (stream (conn_world c)) of Inl _ \<Rightarrow> fst (frame_read recv c) = None
    | Inr (f, s) \<Rightarrow> fst (frame_read recv c) = Some f \<and> stream (conn_world (snd (frame_read recv c))) = s"
  using frame_read_refines[OF assms] by (auto simp: frame_read_spec_def split: sum.splits)

theorem frame_read_refines_parser_witness: "fst (frame_read sc_recv \<lparr>conn_valid = True, conn_world = [1, 2, 3]\<rparr>) = None"
  using frame_read_refines_parser[OF sc_recv_ok, of "\<lparr>conn_valid = True, conn_world = [1, 2, 3]\<rparr>"]
  by (simp add: parse_frame_def rbind_def take_n_def)

text \<open>C36. A damaged payload is not delivered: if up to four consecutive bytes of a frame's payload are
  replaced by different ones in transit, the reader returns no frame.\<close>

theorem damaged_frame_rejected:
  assumes "recv_ok recv stream" "conn_valid c" "length (fr_payload f) \<le> kMaxPayload"
    and "fr_payload f = x @ w @ y" "length w' = length w" "length w \<le> 4" "w' \<noteq> w"
    and "stream (conn_world c) = frame_header f @ (x @ w' @ y) @ frame_crc (fr_payload f) @ rest"
  shows "fst (frame_read recv c) = None"
proof -
  have "crc32 (x @ w' @ y) \<noteq> crc32 (fr_payload f)" using crc32_burst_differs[of w' w x y] assms(4-7) by simp
  then have "parse_frame (stream (conn_world c)) = Inl ()"
    using parse_frame_payload[OF assms(3), of "x @ w' @ y" "crc32 (fr_payload f)" rest] assms(4,5)
    by (simp add: assms(8) frame_crc_def)
  then show ?thesis using frame_read_refines[OF assms(1,2)] by (simp add: frame_read_spec_def)
qed

theorem damaged_frame_rejected_witness:
  "fst (frame_read sc_recv \<lparr>conn_valid = True, conn_world =
     frame_header \<lparr>fr_type = MT_ERROR, fr_flags = 0, fr_payload = [1, 2]\<rparr> @ [1, 3] @ frame_crc [1, 2]\<rparr>) = None"
  using damaged_frame_rejected[OF sc_recv_ok, of "\<lparr>conn_valid = True, conn_world =
     frame_header \<lparr>fr_type = MT_ERROR, fr_flags = 0, fr_payload = [1, 2]\<rparr> @ [1, 3] @ frame_crc [1, 2]\<rparr>"
     "\<lparr>fr_type = MT_ERROR, fr_flags = 0, fr_payload = [1, 2]\<rparr>" "[1]" "[2]" "[]" "[3]" "[]"]
  by (simp add: kMaxPayload_def)

section \<open>Checksums, digests and identifiers\<close>

text \<open>C33. The table-driven CRC-32 is the bit-serial one: the 256-entry table and the byte loop of
  \<open>hash.hpp\<close> compute the reflected polynomial division bit by bit.\<close>

theorem crc32_table_is_bit_serial: "crc32 data = crc32_ref data"
  by (rule crc32_eq_ref)

text \<open>C32. The incremental SHA-256 is the one-shot function: any sequence of \<open>update\<close> calls, of any sizes
  including zero, gives the digest of the concatenation, block by block with the padding appended.\<close>

theorem sha256_incremental:
  "sha_finish (fold sha_update chunks sha_new) = sha_digest_ref (concat chunks) \<and> sha_digest data = sha_digest_ref data"
  using sha_chunks_eq_ref sha_digest_eq_ref by blast

text \<open>Identifiers survive printing and serialisation: \<open>from_string\<close> reads back \<open>to_string\<close>, with or
  without the prefix \<open>0x\<close>, \<open>from_bytes\<close> reads back \<open>to_bytes\<close>, and different identifiers print
  differently.\<close>

theorem id_round_trips:
  "id_from_string (id_to_string i) = Some i \<and> id_from_string (''0x'' @ id_to_string i) = Some i \<and>
    from_bytes (to_bytes i) = i \<and> (id_to_string i = id_to_string j \<longleftrightarrow> i = j)"
  using id_from_string_digits[of "id_to_string i" i] id_from_string_digits[of "''0x'' @ id_to_string i" i] id_to_string_inject
  by simp

section \<open>States, dimensions and decay\<close>

text \<open>Nothing becomes ready without preparation: along every sequence of allowed transitions from
  \<open>COLD\<close>, \<open>INVALIDATED\<close>, \<open>EVICTED\<close> or \<open>FAILED\<close> to a state that is execution ready, the object has been
  \<open>DISCOVERED\<close> or \<open>PREPARING\<close> on the way.\<close>

theorem ready_only_after_preparation:
  assumes "s \<in> {COLD, INVALIDATED, EVICTED, FAILED}" "state_path s ts" "t \<in> set ts" "is_execution_ready t"
  shows "DISCOVERED \<in> set ts \<or> PREPARING \<in> set ts"
  using path_through_preparation[of s ts] assms by (auto simp: is_unprepared_def)

theorem ready_only_after_preparation_witness:
  "DISCOVERED \<in> set [PREPARING, WARM] \<or> PREPARING \<in> set [PREPARING, WARM]"
  using ready_only_after_preparation[of COLD "[PREPARING, WARM]" WARM] by (simp add: transition_allowed_def)

text \<open>The composite level is \<open>HOT\<close> exactly when all twelve dimensions are valid, and \<open>READY\<close> exactly
  when all are ready or valid and not all are valid; it is \<open>COLD\<close> exactly when every dimension scores
  nothing.\<close>

theorem composite_level_characterised:
  "(dims_composite_level d = C_HOT \<longleftrightarrow> (\<forall>i. dims_get i d = D_VALID)) \<and>
   (dims_composite_level d = C_READY \<longleftrightarrow> (\<forall>i. dims_get i d \<in> {D_READY, D_VALID}) \<and> (\<exists>i. dims_get i d \<noteq> D_VALID)) \<and>
   (dims_composite_level d = C_COLD \<longleftrightarrow> (\<forall>i. dimension_score (dims_get i d) = 0))"
  using composite_hot_iff[of d] composite_ready_iff[of d] composite_cold_iff[of d] by blast

text \<open>Decay only goes down and only along the state machine: whatever the policy, the clock and the
  flags, a decay step that changes an object is an allowed transition to a state of no higher level,
  so the guarded transition the fabric performs with it never fails.\<close>

theorem decay_is_downward:
  "let r = decay_object obj p now pressure dep reset restart in
     (if dr_changed r then transition_allowed (wo_state obj) (dr_state r) \<and> fst (transition (dr_state r) why obj)
        \<and> level_code (to_level (dr_state r)) \<le> level_code (to_level (wo_state obj))
      else dr_state r = wo_state obj)"
  using decay_object_sound[of obj p now pressure dep reset restart] by (simp add: decay_sound_def Let_def)

text \<open>Decay settles: however often the decay pass visits an object, and whatever it is told each time,
  the object's state changes at most four times.\<close>

theorem decay_changes_at_most_four: "decay_changes p es obj \<le> 4"
  using decay_changes_bound[of p es obj] decay_rank_le[of "wo_state obj"] by linarith

text \<open>C34. The default thresholds are exact to the millisecond: under the default policy, without pressure
  or resets, an object idle for \<open>t\<close> milliseconds since its last use (or preparation) decays exactly by
  the timetable, HOT at 300 s, WARM at 1200 s, STALE at 600 s, PARTIALLY_WARM at 3600 s; rounding in the
  floating-point seconds never moves a threshold.\<close>

theorem decay_thresholds_exact:
  assumes "sint (now - idle_baseline obj) < 2 ^ 53"
  shows "dr_state (decay_object obj decay_policy_default now False False False False)
     = idle_timetable (sint (now - idle_baseline obj)) (wo_state obj)"
  by (rule decay_object_timetable[OF assms])

theorem decay_thresholds_exact_witness:
  "dr_state (decay_object (sc_cold_object\<lparr>wo_state := HOT, wo_last_used := 1\<rparr>) decay_policy_default 300001 False False False False) = WARM"
  using decay_thresholds_exact[of 300001 "sc_cold_object\<lparr>wo_state := HOT, wo_last_used := 1\<rparr>"]
  by (simp add: idle_baseline_def)

section \<open>Budgets\<close>

text \<open>A tracker never loses count: after any sequence of reserve and release calls, with any kinds,
  amounts and ids (unknown ones and double releases included), a kind with a limit has usage equal to
  the sum of its open reservations, and that sum is within the limit.\<close>

theorem budget_history_exact:
  assumes "length ops < 2 ^ 63" "limits_get k l \<noteq> 0"
  shows "unat (usage k (budget_run ops (new_tracker l))) = open_sum k (budget_run ops (new_tracker l)) \<and>
    open_sum k (budget_run ops (new_tracker l)) \<le> unat (limits_get k l)"
proof -
  have "tracker_ok (length ops + 0) (new_tracker l)" using assms(1) by (intro tracker_ok_new) simp
  moreover have "kind_limited_inv k (new_tracker l)"
    using kind_exact_new[of k l] assms(2) by (simp add: kind_limited_inv_def open_sum_def new_tracker_def)
  ultimately have "kind_limited_inv k (budget_run ops (new_tracker l))" using budget_run_inv by blast
  moreover have "bt_limits (budget_run ops (new_tracker l)) = l" by (simp add: bt_limits_run new_tracker_def)
  ultimately show ?thesis by (simp add: kind_limited_inv_def kind_exact_def)
qed

theorem budget_history_exact_witness:
  "unat (usage BK_DEVICE_MEMORY (budget_run [Reserve BK_DEVICE_MEMORY 5 ''a'', Release 9, Release 1, Release 1]
     (new_tracker (budget_limits_default\<lparr>device_memory_bytes := 7\<rparr>)))) \<le> 7"
  using budget_history_exact[of "[Reserve BK_DEVICE_MEMORY 5 ''a'', Release 9, Release 1, Release 1]" BK_DEVICE_MEMORY
      "budget_limits_default\<lparr>device_memory_bytes := 7\<rparr>"] by simp

text \<open>The admission rule: with exact usage, a positive amount is granted exactly when the kind is
  unlimited or the open reservations and the amount together stay within the limit; a refusal reports
  \<open>LIMIT_EXCEEDED\<close> and leaves the tracker as it was.\<close>

theorem reserve_admits_iff:
  assumes "tracker_ok (Suc n) b" "kind_exact k b" "amount \<noteq> 0" "reserve k amount tag b = (i, e, b')"
  shows "(i \<noteq> 0 \<longleftrightarrow> limits_get k (bt_limits b) = 0 \<or> open_sum k b + unat amount \<le> unat (limits_get k (bt_limits b))) \<and>
    (i = 0 \<longrightarrow> e = BE_LIMIT_EXCEEDED \<and> b' = b)"
  using assms(1,4)
proof (cases rule: reserve_cases)
  case refused
  then show ?thesis using assms(3) fits_iff[OF assms(2), of amount] by auto
next
  case granted
  then show ?thesis using fits_iff[OF assms(2), of amount] by blast
qed

theorem reserve_admits_iff_witness:
  "fst (reserve BK_DEVICE_MEMORY 8 ''a'' (new_tracker (budget_limits_default\<lparr>device_memory_bytes := 7\<rparr>))) = 0"
proof -
  let ?b = "new_tracker (budget_limits_default\<lparr>device_memory_bytes := 7\<rparr>)"
  have "tracker_ok (Suc 0) ?b" by (rule tracker_ok_new) simp
  moreover obtain i e b' where r: "reserve BK_DEVICE_MEMORY 8 ''a'' ?b = (i, e, b')" by (metis prod_cases3)
  ultimately have "i \<noteq> 0 \<longleftrightarrow> open_sum BK_DEVICE_MEMORY ?b + 8 \<le> (7 :: nat)"
    using reserve_admits_iff[OF _ kind_exact_new _ r, of 0] by (simp add: new_tracker_def)
  then show ?thesis using r by simp
qed

text \<open>A reservation is released once: releasing an id that was just granted restores the open
  reservations and reports success; releasing it again reports a double release and changes nothing.\<close>

theorem release_once:
  assumes "tracker_ok (Suc n) b" "reserve k amount tag b = (i, e, b1)" "i \<noteq> 0"
  shows "\<exists>b2. release i b1 = (BE_NONE, b2) \<and> bt_reservations b2 = bt_reservations b \<and> release i b2 = (BE_DOUBLE_RELEASE, b2)"
proof -
  have ok1: "tracker_ok n b1" by (rule reserve_ok[OF assms(1,2)])
  have op: "opens_of b i = None" "opens_of b1 = (opens_of b)(i \<mapsto> entry_of k amount tag)"
    using ledger.acquire_opens[OF assms] by auto
  have f: "map_find i (bt_reservations b1) = Some (entry_of k amount tag)" using op(2) by (simp add: opens_of_def fun_eq_iff)
  obtain b2 where r: "release i b1 = (BE_NONE, b2)" using release_present[OF assms(3) f] by simp
  have o2: "opens_of b2 = opens_of b" using ledger.giveback_opens[OF ok1 r] op by (auto simp: fun_eq_iff)
  have "bt_reservations b2 = bt_reservations b" by (rule opens_of_eqD[OF release_ok[OF ok1 r] assms(1) o2])
  moreover have "map_find i (bt_reservations b2) = None" using o2 op(1) by (metis opens_of_def)
  ultimately show ?thesis using r release_absent[OF assms(3)] by blast
qed

theorem release_once_witness:
  "\<exists>b2. snd (release 1 (snd (snd (reserve BK_DEVICE_MEMORY 5 ''a'' (new_tracker budget_limits_default))))) = b2 \<and>
     fst (release 1 b2) = BE_DOUBLE_RELEASE"
proof -
  let ?b = "new_tracker budget_limits_default"
  have ok: "tracker_ok (Suc 0) ?b" by (rule tracker_ok_new) simp
  obtain e b1 where r: "reserve BK_DEVICE_MEMORY 5 ''a'' ?b = (1, e, b1)"
    by (simp add: reserve_def new_tracker_def budget_limits_default_def fits_def next_id_def usage_def usage_at_def Let_def)
  show ?thesis using release_once[OF ok r] r by auto
qed

section \<open>Plans and costs\<close>

text \<open>C30. The plan of a fabric lists every object once, by descending score and, between equal scores, by
  ascending id. In every state the fabric can reach from an empty one, with weights bounded by
  \<open>2 ^ 48\<close>, no score is NaN, so the comparator is a strict order and the result does not depend on the
  sorting algorithm.\<close>

theorem fabric_plan_ordered:
  assumes "(fabric_step ^^ k) (new_fabric wl node dev be pol mb, {#}) (f, P)" "k < 2 ^ 62"
    and "\<forall>w \<in> set (policy_weights (fb_policy f)). dbl_within (2 ^ 48) w"
  shows "sorted_wrt step_before (plan_steps (plan f)) \<and> mset (map ps_object (plan_steps (plan f))) = mset (object_ids f)"
proof -
  have "fabric_inv (Suc (2 * k + 0)) (new_fabric wl node dev be pol mb, {#})"
    using assms(2) by (intro fabric_inv_new) simp
  from fabric_reach_inv[OF assms(1) this] have wf: "map_wf (fb_objects f)" "keyed (fb_objects f)" by (auto simp: fabric_inv_def)
  note ids = fabric_candidate_ids[OF wf(2)]
  have "sorted_wrt step_before (plan_steps (plan f))" unfolding plan_def
  proof (rule build_sorted)
    show "distinct (map cd_id (map (fabric_candidate f \<circ> snd) (fb_objects f)))"
      unfolding ids by (rule map_wf_distinct[OF wf(1)])
  qed (use fabric_scores_not_nan[OF assms(3)] in blast)
  moreover have "mset (map ps_object (plan_steps (plan f))) = mset (object_ids f)"
    unfolding plan_def build_steps_perm ids object_ids_def ..
  ultimately show ?thesis ..
qed

theorem fabric_plan_ordered_witness: "mset (map ps_object (plan_steps (plan sc_warming))) = mset (object_ids sc_warming)"
proof -
  have "policy_weights (fb_policy sc_warming) = policy_weights (policy_defaults 1)"
    using sc_warm_begin by (auto simp: sc_warming_policy policy_weights_def sc_policy_def)
  then have "\<forall>w \<in> set (policy_weights (fb_policy sc_warming)). dbl_within (2 ^ 48) w"
    using dbl_within_mono[OF default_weights_within[of _ 1], of _ "2 ^ 48"] by simp
  from fabric_plan_ordered[OF sc_reach_warming _ this] show ?thesis by simp
qed

text \<open>Planning is deterministic: permuting the candidates does not change the plan, when their ids
  differ and no score is NaN.\<close>

theorem plan_ignores_order:
  assumes "\<forall>c \<in> set cs. \<not> isnan (preference_score (cd_preference c) (policy_weights pol))" "distinct (map cd_id cs)"
    and "mset cs' = mset cs"
  shows "build pol wl rp cs' = build pol wl rp cs"
  by (rule build_perm_invariant[OF assms])

definition sc_candidate :: "u64 \<Rightarrow> candidate" where
  "sc_candidate n = \<lparr>cd_id = Id128 0 n, cd_preference = preference_default, cd_estimated_cost_ms = dbl_zero, cd_suggested_action = INIT_ENGINE\<rparr>"

theorem plan_ignores_order_witness:
  "build (policy_defaults 1) sc_worker sc_node [sc_candidate 2, sc_candidate 1] = build (policy_defaults 1) sc_worker sc_node [sc_candidate 1, sc_candidate 2]"
proof (rule plan_ignores_order)
  have "\<not> isnan (preference_score preference_default (policy_weights (policy_defaults 1)))"
    by (rule score_not_nan[of _ 3]) (use default_weights_within[of _ 1] in \<open>auto simp: preference_components_def preference_default_def\<close>)
  then show "\<forall>c \<in> set [sc_candidate 1, sc_candidate 2]. \<not> isnan (preference_score (cd_preference c) (policy_weights (policy_defaults 1)))"
    by (simp add: sc_candidate_def)
qed (simp_all add: sc_candidate_def add_mset_commute)

text \<open>The estimated time to first use is a non-negative number, never NaN; it is at least three seconds for an
  object in a cold state, and zero for one that is not cold and has all dimensions ready.\<close>

theorem estimate_bounds:
  "dbl_nonneg (rc_expected_ttfu_ms (estimate obj mb)) \<and>
   (is_cold_state (wo_state obj) \<longrightarrow> dbl_le (dbl_lit 3000) (rc_expected_ttfu_ms (estimate obj mb))) \<and>
   (\<not> is_cold_state (wo_state obj) \<and> all_ready (wo_dims obj) \<longrightarrow> rc_expected_ttfu_ms (estimate obj mb) = dbl_zero)"
  using ttf_total_nonneg ttf_total_term[of "dbl_lit 3000" "wo_state obj" "estimate_breakdown obj mb"]
    estimate_breakdown_ready[of obj mb] ttf_total_zero[of "wo_state obj"]
  by (auto simp: ttf_terms_def)

theorem estimate_bounds_witness: "dbl_le (dbl_lit 3000) (rc_expected_ttfu_ms (estimate sc_cold_object 0))"
  using estimate_bounds[of sc_cold_object 0] by (simp add: sc_cold_object_def is_cold_state_def)

section \<open>JSON\<close>

text \<open>C27. What is printed is parsed back: for every indentation, the document printed for a value whose
  strings and keys contain no quotation mark and whose numbers are zero or normal doubles (seventeen
  digits determine them) parses to that value, with minus zero turned into zero.\<close>

theorem json_round_trip:
  assumes "json_ok v"
  shows "json_parse (dump indent v) = Inr (json_nf v)"
  by (rule json_parse_dump[OF assms])

theorem json_round_trip_witness:
  "json_parse (dump 2 (JObject [(''k'', JArray [JNumber 0x3FB999999999999A, JString [backslash, CHR 0x01], JNull])]))
     = Inr (JObject [(''k'', JArray [JNumber 0x3FB999999999999A, JString [backslash, CHR 0x01], JNull])])"
proof -
  have mag: "dbl_mag 0x3FB999999999999A = 0x3FB999999999999A" by (simp add: dbl_mag_def)
  have "num_ok 0x3FB999999999999A" by (simp add: num_ok_def isfinite_def inf_mag_def mag)
  then have "json_ok (JObject [(''k'', JArray [JNumber 0x3FB999999999999A, JString [backslash, CHR 0x01], JNull])])" by simp
  from json_round_trip[OF this, of 2] show ?thesis by (simp add: num_nf_def mag)
qed

text \<open>C28. The parser answers every text: it ends, either with a value whose numbers are finite and whose
  objects are ordered maps, having read everything, or with an error at a position of the text.\<close>

theorem json_parse_total:
  "case parse_document cs of Inr (v, rest) \<Rightarrow> json_wf v \<and> rest = []
   | Inl (Parse_error unread msg) \<Rightarrow> unread \<le> length cs | Inl Out_of_fuel \<Rightarrow> False"
  using parse_document_answers[of cs] by (auto split: sum.split json_error.split)

text \<open>C37. A quotation mark is lost: the document printed for a string parses exactly when the string contains
  none, because the printer does not escape it.\<close>

theorem json_quote_lost: "(\<exists>v. json_parse (dump indent (JString s)) = Inr v) \<longleftrightarrow> quote_char \<notin> set s"
proof (cases "quote_char \<in> set s")
  case True
  then obtain a b where "s = a @ quote_char # b" "quote_char \<notin> set a" using split_list_first by fast
  then show ?thesis using json_parse_quote[of a indent b] by simp
qed (simp add: json_parse_dump)

text \<open>C31. The JSON of an explanation says what the object is: for any object of the fabric whose recorded
  reason contains no quotation mark and whose observed time is zero or normal, the printed explanation parses,
  and under the keys a client looks at it has the identifier, the state, the readiness that
  \<open>execution_ready\<close> computes and the twelve dimensions.\<close>

theorem explanation_json_faithful:
  assumes "map_find i (fb_objects f) = Some o'" "explain i f = Some e"
    and "quote_char \<notin> set (re_invalidation_reason e)"
    and "num_ok (wo_observed_ttr_ms o')"
  shows "\<exists>v. json_parse (dump indent (readiness_to_json e)) = Inr v
    \<and> json_find ''object'' v = Some (JString (id_to_string (wo_id o')))
    \<and> json_find ''state'' v = Some (JString (state_to_string (wo_state o')))
    \<and> json_find ''execution_ready'' v = Some (JBool (execution_ready o'))
    \<and> json_find ''dimensions'' v = Some (JArray (map (\<lambda>d. dimension_to_json \<lparr>dr_index = d, dr_status = dimension d o'\<rparr>) dimension_indices))"
proof (intro exI conjI)
  have "explanation_ok e"
    using assms explain_ok[OF assms(1,2)] by simp
  then show "json_parse (dump indent (readiness_to_json e)) = Inr (json_nf (readiness_to_json e))"
    by (intro json_parse_dump readiness_to_json_ok)
qed (use assms(1,2) in \<open>auto simp: json_find_nf readiness_to_json_find explain_def Let_def json_id_def dimension_to_json_nf\<close>)

definition sc_ready_object :: warmth_object where
  "sc_ready_object = sc_warm_object\<lparr>wo_dims := dims_all_valid\<rparr>"

theorem explanation_json_faithful_witness:
  "\<exists>v. json_parse (dump 2 (readiness_to_json (the (explain sc_object (sc_fabric\<lparr>fb_objects := [(sc_object, sc_ready_object)]\<rparr>))))) = Inr v
     \<and> json_find ''state'' v = Some (JString ''WARM'') \<and> json_find ''execution_ready'' v = Some (JBool (execution_ready sc_ready_object))"
proof -
  let ?f = "sc_fabric\<lparr>fb_objects := [(sc_object, sc_ready_object)]\<rparr>"
  have find: "map_find sc_object (fb_objects ?f) = Some sc_ready_object" by simp
  then obtain e where e: "explain sc_object ?f = Some e" by (simp add: explain_def)
  have st: "wo_state sc_ready_object = WARM" by (simp add: sc_ready_object_def sc_warm_object_def)
  have "num_ok dbl_zero" by (simp add: num_ok_def dbl_mag_def)
  moreover have "wo_observed_ttr_ms sc_ready_object = dbl_zero" "re_invalidation_reason e = []"
    using e find by (auto simp: explain_def Let_def sc_ready_object_def sc_warm_object_def new_object_def)
  ultimately have "\<exists>v. json_parse (dump 2 (readiness_to_json e)) = Inr v
      \<and> json_find ''state'' v = Some (JString ''WARM'') \<and> json_find ''execution_ready'' v = Some (JBool (execution_ready sc_ready_object))"
    using explanation_json_faithful[OF find e, of 2] st by auto
  then show ?thesis by (simp add: e)
qed

section \<open>The CUDA program\<close>



section \<open>Coordinator and worker together\<close>

text \<open>C2. The whole protocol for one warming: in any state of any run of the coordinator, when it issues a
  warming to a worker whose authority is current and the worker's hook succeeds, the worker answers the
  order with exactly one frame, the coordinator accepts that frame, the object is execution ready under
  the current warmth generation, and attempts in flight and reservations are what they were before.\<close>

theorem warming_end_to_end:
  assumes "(co_step ^^ k) new_coordinator c" "k < 2 ^ 62 - 1" "in_sync target w c"
    and "issue_begin object action preferred c = (Some (a, (target, mt, bs)), c1)"
    and "hook h object (action_code action) = ((True, d, b), h')"
  shows "\<exists>reply w' c' o'. worker_react hook clock (plain_frame mt bs) (h, w) = ([reply], (h', w'))
    \<and> handle_frame target clock' reply c1 = ([], c')
    \<and> co_in_flight c' = co_in_flight c \<and> opens_of (co_budget c') = opens_of (co_budget c)
    \<and> find_object object c' = Some o' \<and> is_execution_ready (wo_state o') \<and> wo_warmth_gen o' = co_warmth_gen c"
proof -
  have "co_inv (k + 1) new_coordinator" using assms(2) by (intro co_inv_new) simp
  then have "co_inv (Suc 0) c" using co_reach_inv[OF assms(1), of 1] by simp
  then show ?thesis using assms(3-5) by (rule warming_round_trip)
qed

theorem warming_end_to_end_witness:
  "\<exists>reply w' c' o'. worker_react synthetic_hook (\<lambda>_. sc_clock)
       (plain_frame MT_WARM_TOPIC (encode_warm_topic (warm_topic_for sc_object INIT_ENGINE 1 sc_issued))) ((), sc_peer) = ([reply], ((), w'))
     \<and> handle_frame 0 sc_clock reply sc_issued = ([], c') \<and> find_object sc_object c' = Some o' \<and> is_execution_ready (wo_state o')"
proof -
  have i: "issue_begin sc_object INIT_ENGINE None sc_registered =
     (Some (1, (0, MT_WARM_TOPIC, encode_warm_topic (warm_topic_for sc_object INIT_ENGINE 1 sc_issued))), sc_issued)"
    using sc_issue by blast
  obtain d b where h: "synthetic_hook () sc_object (action_code INIT_ENGINE) = ((True, d, b), ())"
    by (simp add: synthetic_hook_def)
  show ?thesis
    using warming_end_to_end[OF sc_reach_registered _ sc_peer_in_sync i, of synthetic_hook "()", OF _ h, of "\<lambda>_. sc_clock" sc_clock]
    by auto
qed



text \<open>C9. Both ends serve a connection to its end: on a socket that behaves like a stream and holds some
  frames followed by bytes that are no frame (or nothing), the coordinator's connection thread and the
  worker's loop terminate; the coordinator has handled exactly those frames in order, with whatever
  other threads did in between, and then the disconnection; the worker has handled them up to a
  shutdown.\<close>

theorem frame_loops_end:
  assumes "recv_ok recv stream" "full_duplex send stream" "conn_valid conn"
    and "stream (conn_world conn) = concat (map frame_bytes fs) @ junk" "parse_frame junk = Inl ()"
    and "\<forall>f \<in> set fs. length (fr_payload f) \<le> kMaxPayload"
  shows "(\<exists>conn'. process_connection send recv cid clock clock' env conn c = Some (conn', on_disconnect cid clock'
        (handle_all (\<lambda>k f c. snd (handle_frame cid (clock k) f (env k c))) (\<lambda>_. False) 0 fs c))) \<and>
    (\<exists>conn'. worker_run send recv hook wclock conn hw = Some (conn',
        handle_all (\<lambda>k f hw. snd (worker_react hook (wclock k) f hw)) (\<lambda>hw. wk_shutdown (snd hw)) 0 fs hw))"
  using connection_frames.serve_frames_ends[OF assms(1,2,5,3,4,6), where stop = "\<lambda>_. False" and cid = cid and clock = clock
      and env = env and k = 0 and s = c]
    worker_frames.serve_frames_ends[OF assms(1,2,5,3,4,6), where stop = "\<lambda>hw. wk_shutdown (snd hw)" and hook = hook
      and clock = wclock and k = 0 and s = hw]
  by (auto simp: process_connection_def worker_run_def)

text \<open>A socket that delivers one byte per call and drops what is sent.\<close>

definition sc_sink :: "bytes send_fn" where
  "sc_sink w bs = (Some (length bs), w)"

theorem frame_loops_end_witness:
  "\<exists>conn'. worker_run sc_sink sc_recv synthetic_hook (\<lambda>_ _. sc_clock)
       \<lparr>conn_valid = True, conn_world = frame_bytes (plain_frame MT_SHUTDOWN []) @ [1, 2]\<rparr> ((), sc_peer)
     = Some (conn', ((), sc_peer\<lparr>wk_shutdown := True\<rparr>))"
proof -
  have "full_duplex sc_sink (\<lambda>w. w)" by (simp add: full_duplex_def sc_sink_def)
  moreover have "parse_frame [1, 2] = Inl ()" by (simp add: parse_frame_def rbind_def take_n_def)
  ultimately show ?thesis
    using frame_loops_end[OF sc_recv_ok, of sc_sink
        "\<lparr>conn_valid = True, conn_world = frame_bytes (plain_frame MT_SHUTDOWN []) @ [1, 2]\<rparr>"
        "[plain_frame MT_SHUTDOWN []]" "[1, 2]" 0 "\<lambda>_. sc_clock" sc_clock "\<lambda>_ c. c" new_coordinator synthetic_hook "\<lambda>_ _. sc_clock" "((), sc_peer)"]
    by (simp add: plain_frame_def worker_react_def Let_def)
qed

text \<open>C39. The classes \<open>WireDecoder\<close> and \<open>WireEncoder\<close> do what the readers and writers of the other
  theories say. On any payload a decoder of the protocol run on the class gives the same value as the
  reader or fails with it, never moves past the end of the payload, and on success leaves the position
  at the unread rest with \<open>ok()\<close> still true; the encoders append exactly the encoded message to what the
  buffer holds. A string that runs past the end fails and yet leaves \<open>ok()\<close> true.\<close>

theorem wire_classes_refine:
  "agrees_on bs cu_decode_hello decode_hello \<and> agrees_on bs cu_decode_hello_ack decode_hello_ack \<and>
   agrees_on bs cu_decode_report decode_report \<and> agrees_on bs cu_decode_warm_topic decode_warm_topic \<and>
   agrees_on bs cu_decode_warm_result decode_warm_result \<and>
   we_hello h out = out @ encode_hello h \<and> we_hello_ack a out = out @ encode_hello_ack a \<and>
   we_report p out = out @ encode_report p \<and> we_warm_topic t out = out @ encode_warm_topic t \<and>
   we_warm_result r out = out @ encode_warm_result r \<and>
   fst (cu_str (new_cursor [0, 0, 0, 1])) = None \<and> cu_ok (snd (cu_str (new_cursor [0, 0, 0, 1])))"
  by (intro conjI message_decoders_agree hello_report_append encoders_append lost_ok[THEN conjunct1] lost_ok[THEN conjunct2])



end
